(* ===== verification/ASB_Prelude.thy ===== *)
theory ASB_Prelude
  imports Main "HOL-Library.Word"
begin

text \<open>
  Shared vocabulary of the development: the theorem collections the component theories extend,
  the abbreviations for Go's machine integers and for results with an error, and the generic
  lemmas on sums, options and words the component proofs rest on.

  Conventions. A Go \<^verbatim>\<open>string\<close> or \<^verbatim>\<open>[]byte\<close> is a \<^typ>\<open>string\<close>, that is a list of bytes. A pointer
  that may be nil is an \<open>option\<close>. A fallible function returns a sum: \<open>Inl e\<close> is a non-nil
  \<^verbatim>\<open>error\<close> whose sentinel (what \<^verbatim>\<open>errors.Is\<close> sees) is \<open>e\<close>, \<open>Inr v\<close> is the value with a nil
  error. A \<^verbatim>\<open>Validate\<close> method whose every failing branch wraps the same sentinel is a
  predicate; the diagnostic text of an error is not modelled.
\<close>

named_theorems validity \<open>unfolding rules for the validation predicates\<close>
named_theorems fields \<open>what an operation leaves in each field of its result\<close>

type_synonym uint32 = "32 word"
type_synonym uint64 = "64 word"
type_synonym bytes = string

section \<open>Results\<close>

text \<open>Early return: run the continuation only after a step without error.\<close>

definition and_then :: "'e + 'a \<Rightarrow> ('a \<Rightarrow> 'e + 'b) \<Rightarrow> 'e + 'b" where
  "and_then r f = (case r of Inl e \<Rightarrow> Inl e | Inr v \<Rightarrow> f v)"

text \<open>A guard: \<^verbatim>\<open>if !ok { return err }\<close>.\<close>

definition ensure :: "bool \<Rightarrow> 'e \<Rightarrow> 'e + unit" where
  "ensure ok e = (if ok then Inr () else Inl e)"

lemma and_then_simps [simp]:
  "and_then (Inl e) f = Inl e"
  "and_then (Inr v) f = f v"
  by (simp_all add: and_then_def)

lemma and_then_Inr_iff: "and_then r f = Inr w \<longleftrightarrow> (\<exists>v. r = Inr v \<and> f v = Inr w)"
  by (cases r) auto

lemma ensure_Inr_iff [simp]: "ensure ok e = Inr u \<longleftrightarrow> ok"
  by (simp add: ensure_def)

lemma ensure_Inl_iff [simp]: "ensure ok e = Inl e' \<longleftrightarrow> \<not> ok \<and> e' = e"
  by (auto simp: ensure_def)

lemma ensure_True [simp]: "ensure True e = Inr ()"
  by (simp add: ensure_def)

lemma ensure_False [simp]: "ensure False e = Inl e"
  by (simp add: ensure_def)

text \<open>A test whose error branch was not taken.\<close>

lemma guard_Inr_iff [simp]: "(if b then Inl e else r) = Inr v \<longleftrightarrow> \<not> b \<and> r = Inr v"
  by simp

lemma guard_ok_iff [simp]: "(if b then r else Inl e) = Inr v \<longleftrightarrow> b \<and> r = Inr v"
  by simp

section \<open>Machine integers\<close>

lemma unat_succ:
  fixes x :: "'a::len word"
  assumes "x + 1 \<noteq> 0"
  shows "unat (x + 1) = unat x + 1"
  using assms unatSuc [of x] by (simp add: add.commute)

lemma unat_succ_less:
  fixes x y :: "'a::len word"
  assumes "x < y"
  shows "unat (x + 1) = unat x + 1"
proof -
  have "unat x + 1 < 2 ^ LENGTH('a)"
    using assms unsigned_less [of y, where ?'a = nat] unfolding word_less_nat_alt by linarith
  then show ?thesis
    by (simp add: unat_word_ariths)
qed

lemma word_pos_iff: "(x :: 'a::len word) \<noteq> 0 \<longleftrightarrow> 0 < unat x"
  by (simp add: unat_gt_0)

end
