(* ===== verification/Go_Time.thy ===== *)
theory Go_Time
  imports ASB_Prelude
begin

text \<open>
  The part of Go's package \<^verbatim>\<open>time\<close> that the program uses. A \<^verbatim>\<open>time.Time\<close> is an instant, in
  nanoseconds since January 1, year 1, 00:00 UTC (the zero \<^verbatim>\<open>Time\<close>), together with a location.
  \<^verbatim>\<open>Before\<close>, \<^verbatim>\<open>After\<close>, \<^verbatim>\<open>Equal\<close> and \<^verbatim>\<open>IsZero\<close> look at the instant only, while Go's \<^verbatim>\<open>==\<close> on a
  struct that holds a \<^verbatim>\<open>Time\<close> also compares the location pointer, so both are kept. Monotonic
  clock readings are not modelled: a \<^verbatim>\<open>Time\<close> here is a wall-clock reading.
\<close>

text \<open>A location is UTC or a zone: its pointer identity and its offset east of UTC in seconds.\<close>

datatype location = UTC | Zone nat int

record gotime =
  instant :: int
  location :: location

definition zero_time :: gotime where
  "zero_time = \<lparr>instant = 0, location = UTC\<rparr>"

definition is_zero :: "gotime \<Rightarrow> bool" where
  "is_zero t \<longleftrightarrow> instant t = 0"

definition before :: "gotime \<Rightarrow> gotime \<Rightarrow> bool" where
  "before t u \<longleftrightarrow> instant t < instant u"

definition after :: "gotime \<Rightarrow> gotime \<Rightarrow> bool" where
  "after t u \<longleftrightarrow> instant u < instant t"

definition equal_time :: "gotime \<Rightarrow> gotime \<Rightarrow> bool" where
  "equal_time t u \<longleftrightarrow> instant t = instant u"

definition utc :: "gotime \<Rightarrow> gotime" where
  "utc t = t\<lparr>location := UTC\<rparr>"

text \<open>\<^verbatim>\<open>Unix()\<close>: whole seconds since January 1, 1970, rounded down; \<^verbatim>\<open>Nanosecond()\<close>: the rest.\<close>

definition ns_per_sec :: int where
  "ns_per_sec = 1000000000"

definition unix_epoch :: int where
  "unix_epoch = 62135596800"

definition unix_sec :: "gotime \<Rightarrow> int" where
  "unix_sec t = instant t div ns_per_sec - unix_epoch"

definition nanosecond :: "gotime \<Rightarrow> int" where
  "nanosecond t = instant t mod ns_per_sec"

text \<open>
  \<^verbatim>\<open>MarshalText\<close> of a UTC time fails exactly outside the years 0 to 9999. Year 0 is a leap year
  of the proleptic calendar, 366 days before the zero time; year 10000 starts 3652059 days
  after it.
\<close>

definition min_durable :: int where
  "min_durable = - 31622400 * ns_per_sec"

definition max_durable :: int where
  "max_durable = 315537897600 * ns_per_sec"

definition marshals_text :: "gotime \<Rightarrow> bool" where
  "marshals_text t \<longleftrightarrow> min_durable \<le> instant t \<and> instant t < max_durable"

named_theorems time_defs \<open>the comparisons of instants\<close>

lemmas time_compare_defs [time_defs] = is_zero_def before_def after_def equal_time_def

lemma utc_simps [simp]:
  "instant (utc t) = instant t"
  "location (utc t) = UTC"
  "utc (utc t) = utc t"
  by (simp_all add: utc_def)

lemma is_zero_utc [simp]: "is_zero (utc t) = is_zero t"
  by (simp add: is_zero_def)

lemma before_utc [simp]:
  "before (utc t) u = before t u" "before t (utc u) = before t u"
  by (simp_all add: before_def)

lemma after_utc [simp]:
  "after (utc t) u = after t u" "after t (utc u) = after t u"
  by (simp_all add: after_def)

lemma equal_time_utc [simp]:
  "equal_time (utc t) u = equal_time t u" "equal_time t (utc u) = equal_time t u"
  by (simp_all add: equal_time_def)

lemma marshals_text_utc [simp]: "marshals_text (utc t) = marshals_text t"
  by (simp add: marshals_text_def)

lemma equal_time_refl [simp]: "equal_time t t"
  by (simp add: equal_time_def)

lemma before_irrefl [simp]: "\<not> before t t"
  by (simp add: before_def)

lemma after_irrefl [simp]: "\<not> after t t"
  by (simp add: after_def)

lemma unix_sec_durable:
  assumes "marshals_text t"
  shows "- (2 ^ 63) \<le> unix_sec t" and "unix_sec t < 2 ^ 63"
  using assms
  by (auto simp: marshals_text_def min_durable_def max_durable_def unix_sec_def unix_epoch_def
      ns_per_sec_def)

lemma nanosecond_bounds: "0 \<le> nanosecond t" "nanosecond t < ns_per_sec"
  by (simp_all add: nanosecond_def ns_per_sec_def)

text \<open>Seconds and nanoseconds together determine the instant.\<close>

lemma instant_split: "instant t = (unix_sec t + unix_epoch) * ns_per_sec + nanosecond t"
  by (simp add: unix_sec_def nanosecond_def)

end
