(* ===== verification/Go_Strings.thy ===== *)
theory Go_Strings
  imports ASB_Prelude
begin

text \<open>
  The parts of Go's packages \<^verbatim>\<open>unicode/utf8\<close>, \<^verbatim>\<open>unicode\<close>, \<^verbatim>\<open>strings\<close> and \<^verbatim>\<open>encoding/hex\<close> that the
  program's validation uses, on byte strings: rune decoding, UTF-8 validity, control and space
  characters, \<^verbatim>\<open>TrimSpace\<close>, prefixes, lower case and hexadecimal. The lemmas reduce each of them
  on printable ASCII, which is how concrete identifiers are evaluated.
\<close>

section \<open>Runes\<close>

definition byte :: "char \<Rightarrow> nat" where
  "byte c = of_char c"

definition rune_error :: nat where
  "rune_error = 65533"

definition in_range :: "nat \<Rightarrow> nat \<Rightarrow> nat \<Rightarrow> bool" where
  "in_range lo hi n \<longleftrightarrow> lo \<le> n \<and> n \<le> hi"

text \<open>
  \<^verbatim>\<open>utf8.DecodeRune\<close>: the first rune and its width in bytes; an encoding error is
  \<^verbatim>\<open>(RuneError, 1)\<close>. The first byte fixes the width and the range of the second byte, which
  excludes overlong forms, surrogates and code points above U+10FFFF.
\<close>

definition second_lo :: "nat \<Rightarrow> nat" where
  "second_lo b = (if b = 224 then 160 else if b = 240 then 144 else 128)"

definition second_hi :: "nat \<Rightarrow> nat" where
  "second_hi b = (if b = 237 then 159 else if b = 244 then 143 else 191)"

fun decode_rune :: "string \<Rightarrow> nat \<times> nat" where
  "decode_rune [] = (rune_error, 0)"
| "decode_rune (c # cs) =
     (let b = byte c in
      if b < 128 then (b, 1)
      else if in_range 194 223 b then
        (case cs of
           c1 # _ \<Rightarrow> if in_range 128 191 (byte c1)
             then ((b - 192) * 64 + (byte c1 - 128), 2) else (rune_error, 1)
         | _ \<Rightarrow> (rune_error, 1))
      else if in_range 224 239 b then
        (case cs of
           c1 # c2 # _ \<Rightarrow> if in_range (second_lo b) (second_hi b) (byte c1) \<and> in_range 128 191 (byte c2)
             then ((b - 224) * 4096 + (byte c1 - 128) * 64 + (byte c2 - 128), 3) else (rune_error, 1)
         | _ \<Rightarrow> (rune_error, 1))
      else if in_range 240 244 b then
        (case cs of
           c1 # c2 # c3 # _ \<Rightarrow> if in_range (second_lo b) (second_hi b) (byte c1) \<and>
               in_range 128 191 (byte c2) \<and> in_range 128 191 (byte c3)
             then ((b - 240) * 262144 + (byte c1 - 128) * 4096 + (byte c2 - 128) * 64 + (byte c3 - 128), 4)
             else (rune_error, 1)
         | _ \<Rightarrow> (rune_error, 1))
      else (rune_error, 1))"

lemma decode_rune_width: "0 < snd (decode_rune (c # cs))"
  by (simp add: Let_def split: list.splits)

text \<open>The runes a \<^verbatim>\<open>for range\<close> loop over a string visits, each with the bytes it was read from.\<close>

function runes :: "string \<Rightarrow> (nat \<times> string) list" where
  "runes [] = []"
| "runes (c # cs) =
     (fst (decode_rune (c # cs)), take (snd (decode_rune (c # cs))) (c # cs))
       # runes (drop (snd (decode_rune (c # cs))) (c # cs))"
  by pat_completeness auto
termination
  by (relation "measure length") (use decode_rune_width in \<open>auto simp del: decode_rune.simps\<close>)

text \<open>\<^verbatim>\<open>utf8.ValidString\<close>.\<close>

definition valid_rune :: "nat \<times> string \<Rightarrow> bool" where
  "valid_rune p \<longleftrightarrow> \<not> (fst p = rune_error \<and> length (snd p) = 1)"

definition valid_utf8 :: "string \<Rightarrow> bool" where
  "valid_utf8 s \<longleftrightarrow> list_all valid_rune (runes s)"

text \<open>\<^verbatim>\<open>unicode.IsControl\<close> and \<^verbatim>\<open>unicode.IsSpace\<close>.\<close>

definition is_control :: "nat \<Rightarrow> bool" where
  "is_control r \<longleftrightarrow> r < 32 \<or> in_range 127 159 r"

definition is_space :: "nat \<Rightarrow> bool" where
  "is_space r \<longleftrightarrow> in_range 9 13 r \<or> r = 32 \<or> r = 133 \<or> r = 160 \<or> r = 5760 \<or> in_range 8192 8202 r \<or>
     r = 8232 \<or> r = 8233 \<or> r = 8239 \<or> r = 8287 \<or> r = 12288"

text \<open>\<^verbatim>\<open>strings.TrimSpace\<close>.\<close>

definition trim_runes :: "(nat \<times> string) list \<Rightarrow> (nat \<times> string) list" where
  "trim_runes rs = rev (dropWhile (is_space \<circ> fst) (rev (dropWhile (is_space \<circ> fst) rs)))"

definition trim_space :: "string \<Rightarrow> string" where
  "trim_space s = concat (map snd (trim_runes (runes s)))"

section \<open>Prefixes, case and hexadecimal\<close>

definition has_prefix :: "string \<Rightarrow> string \<Rightarrow> bool" where
  "has_prefix s p \<longleftrightarrow> take (length p) s = p"

definition trim_prefix :: "string \<Rightarrow> string \<Rightarrow> string" where
  "trim_prefix s p = (if has_prefix s p then drop (length p) s else s)"

text \<open>
  \<^verbatim>\<open>strings.ToLower\<close> on ASCII bytes. It is only used next to a hexadecimal check, which refuses
  every string with a byte outside ASCII, so its Unicode tables do not matter.
\<close>

definition lower_char :: "char \<Rightarrow> char" where
  "lower_char c = (if in_range 65 90 (byte c) then char_of (byte c + 32) else c)"

definition to_lower :: "string \<Rightarrow> string" where
  "to_lower s = map lower_char s"

text \<open>\<^verbatim>\<open>hex.DecodeString\<close> succeeds on an even number of hexadecimal digits of either case.\<close>

definition hex_digit :: "char \<Rightarrow> bool" where
  "hex_digit c \<longleftrightarrow> in_range 48 57 (byte c) \<or> in_range 97 102 (byte c) \<or> in_range 65 70 (byte c)"

definition hex_decodes :: "string \<Rightarrow> bool" where
  "hex_decodes s \<longleftrightarrow> even (length s) \<and> list_all hex_digit s"

text \<open>\<^verbatim>\<open>hex.EncodeToString\<close>.\<close>

definition hex_char :: "nat \<Rightarrow> char" where
  "hex_char n = (if n < 10 then char_of (48 + n) else char_of (87 + n))"

definition hex_encode :: "bytes \<Rightarrow> string" where
  "hex_encode bs = concat (map (\<lambda>c. [hex_char (byte c div 16), hex_char (byte c mod 16)]) bs)"

definition sha256_prefix :: string where
  "sha256_prefix = ''sha256:''"

section \<open>Lemmas\<close>

lemma byte_less [simp]: "byte c < 256"
  by (simp add: byte_def)

lemma char_of_byte [simp]: "char_of (byte c) = c"
  by (simp add: byte_def)

lemma byte_char_of [simp]: "byte (char_of n) = n mod 256"
  by (simp add: byte_def)

lemma concat_runes: "concat (map snd (runes s)) = s"
  by (induction s rule: runes.induct) (simp_all del: decode_rune.simps)

lemma rune_bytes_nonempty: "p \<in> set (runes s) \<Longrightarrow> snd p \<noteq> []"
proof (induction s rule: runes.induct)
  case (2 c cs)
  have "snd (decode_rune (c # cs)) \<noteq> 0"
    using decode_rune_width [of c cs] by (simp only: not_gr0 [symmetric]) simp
  with 2 show ?case
    by (auto simp del: decode_rune.simps)
qed simp

lemma runes_eq_Nil [simp]: "runes s = [] \<longleftrightarrow> s = []"
  by (cases s) (simp_all del: decode_rune.simps)

text \<open>A string that is only ASCII decodes byte by byte.\<close>

definition ascii :: "string \<Rightarrow> bool" where
  "ascii s \<longleftrightarrow> list_all (\<lambda>c. byte c < 128) s"

lemma ascii_Cons [simp]: "ascii (c # s) \<longleftrightarrow> byte c < 128 \<and> ascii s"
  by (simp add: ascii_def)

lemma ascii_Nil [simp]: "ascii []"
  by (simp add: ascii_def)

lemma runes_ascii: "ascii s \<Longrightarrow> runes s = map (\<lambda>c. (byte c, [c])) s"
  by (induction s) auto

lemma valid_utf8_ascii: "ascii s \<Longrightarrow> valid_utf8 s"
  by (auto simp: valid_utf8_def runes_ascii list_all_iff valid_rune_def rune_error_def ascii_def)

text \<open>Printable ASCII without the space: the alphabet of concrete identifiers.\<close>

definition printable :: "string \<Rightarrow> bool" where
  "printable s \<longleftrightarrow> list_all (\<lambda>c. in_range 33 126 (byte c)) s"

lemma printable_ascii: "printable s \<Longrightarrow> ascii s"
  by (auto simp: printable_def ascii_def list_all_iff in_range_def)

lemma printable_append [simp]: "printable (s @ t) \<longleftrightarrow> printable s \<and> printable t"
  by (simp add: printable_def)

lemma not_space_printable: "in_range 33 126 n \<Longrightarrow> \<not> is_space n"
  by (auto simp: is_space_def in_range_def)

lemma not_control_printable: "in_range 33 126 n \<Longrightarrow> \<not> is_control n"
  by (auto simp: is_control_def in_range_def)

lemma dropWhile_none: "list_all (\<lambda>x. \<not> P x) xs \<Longrightarrow> dropWhile P xs = xs"
  by (cases xs) auto

lemma trim_runes_none: "list_all (\<lambda>p. \<not> is_space (fst p)) rs \<Longrightarrow> trim_runes rs = rs"
  by (simp add: trim_runes_def dropWhile_none)

lemma printable_runes:
  assumes "printable s"
  shows "list_all (\<lambda>p. in_range 33 126 (fst p)) (runes s)"
  using assms printable_ascii [OF assms]
  by (auto simp: runes_ascii printable_def list_all_iff)

lemma trim_space_printable:
  assumes "printable s"
  shows "trim_space s = s"
proof -
  have "list_all (\<lambda>p. \<not> is_space (fst p)) (runes s)"
    using printable_runes [OF assms] by (auto simp: list_all_iff not_space_printable)
  then show ?thesis
    by (simp add: trim_space_def trim_runes_none concat_runes)
qed

text \<open>A printable prefix keeps a string trimmed.\<close>

lemma runes_ascii_append: "ascii p \<Longrightarrow> runes (p @ s) = map (\<lambda>c. (byte c, [c])) p @ runes s"
  by (induction p) (auto simp: ascii_def)

lemma trim_runes_space: "is_space (fst x) \<Longrightarrow> trim_runes (rs @ [x]) = trim_runes rs"
  by (cases "\<forall>y\<in>set rs. is_space (fst y)") (auto simp: trim_runes_def dropWhile_append dest!: set_dropWhileD)

lemma trim_runes_length: "length (concat (map snd (trim_runes rs))) \<le> length (concat (map snd rs))"
proof -
  have d: "length (concat (map snd (dropWhile P xs))) \<le> length (concat (map snd xs))" for P and xs :: "(nat \<times> string) list"
    by (induction xs) auto
  have r: "length (concat (map snd (rev xs))) = length (concat (map snd xs))" for xs :: "(nat \<times> string) list"
    by (induction xs) auto
  show ?thesis unfolding trim_runes_def r by (rule order_trans [OF d]) (simp only: r d)
qed

lemma trim_space_last:
  assumes "trim_space s = s" and "s \<noteq> []"
  shows "\<not> is_space (fst (last (runes s)))"
proof
  assume sp: "is_space (fst (last (runes s)))"
  obtain rs x where e: "runes s = rs @ [x]" using assms(2) by (cases "runes s" rule: rev_cases) auto
  have x: "is_space (fst x)" "snd x \<noteq> []" using sp rune_bytes_nonempty [of x s] e by simp_all
  have "s = concat (map snd (trim_runes rs))"
    using assms(1) unfolding trim_space_def e trim_runes_space [OF x(1)] by (rule sym)
  then have "length s \<le> length (concat (map snd rs))" using trim_runes_length [of rs] by simp
  moreover have "s = concat (map snd rs) @ snd x" using concat_runes [of s] by (simp add: e)
  then have "length s = length (concat (map snd rs)) + length (snd x)" by (rule arg_cong [THEN trans]) simp
  ultimately show False using x(2) by simp
qed

lemma trim_runes_ends:
  assumes "rs \<noteq> []" and "\<not> is_space (fst (hd rs))" and "\<not> is_space (fst (last rs))"
  shows "trim_runes rs = rs"
proof -
  have "dropWhile (is_space \<circ> fst) rs = rs" using assms(1,2) by (cases rs) auto
  moreover have "dropWhile (is_space \<circ> fst) (rev rs) = rev rs" using assms(1,3) by (cases rs rule: rev_cases) auto
  ultimately show ?thesis by (simp add: trim_runes_def)
qed

lemma trim_space_prefix:
  assumes "printable p" and "p \<noteq> []" and "trim_space s = s" and "s \<noteq> []"
  shows "trim_space (p @ s) = p @ s"
proof -
  have r: "runes (p @ s) = map (\<lambda>c. (byte c, [c])) p @ runes s"
    by (rule runes_ascii_append [OF printable_ascii [OF assms(1)]])
  have "trim_runes (runes (p @ s)) = runes (p @ s)"
    using assms(1,2,4) trim_space_last [OF assms(3,4)]
    by (intro trim_runes_ends; simp add: r hd_map printable_def not_space_printable list_all_iff)
  then show ?thesis by (simp add: trim_space_def concat_runes)
qed

lemma hex_char_byte: "n < 16 \<Longrightarrow> byte (hex_char n) = (if n < 10 then 48 + n else 87 + n)"
  by (simp add: hex_char_def)

lemma hex_char_digit: "n < 16 \<Longrightarrow> hex_digit (hex_char n)"
  by (auto simp: hex_digit_def hex_char_byte in_range_def)

lemma hex_char_lower: "n < 16 \<Longrightarrow> lower_char (hex_char n) = hex_char n"
  by (auto simp: lower_char_def hex_char_byte in_range_def)

lemma hex_char_printable: "n < 16 \<Longrightarrow> in_range 33 126 (byte (hex_char n))"
  by (auto simp: hex_char_byte in_range_def)

lemma hex_nibbles: "byte c div 16 < 16" "byte c mod 16 < 16"
  using byte_less [of c] by (simp_all add: less_mult_imp_div_less)

lemma length_hex_encode [simp]: "length (hex_encode bs) = 2 * length bs"
  by (induction bs) (simp_all add: hex_encode_def)

lemma hex_encode_Cons: "hex_encode (c # bs) = hex_char (byte c div 16) # hex_char (byte c mod 16) # hex_encode bs"
  by (simp add: hex_encode_def)

lemma hex_encode_digits: "list_all hex_digit (hex_encode bs)"
  by (induction bs) (simp_all add: hex_encode_Cons hex_char_digit hex_nibbles, simp add: hex_encode_def)

lemma hex_encode_lower: "to_lower (hex_encode bs) = hex_encode bs"
  by (induction bs) (simp_all add: hex_encode_Cons hex_char_lower hex_nibbles to_lower_def, simp add: hex_encode_def)

lemma hex_encode_printable: "printable (hex_encode bs)"
  by (induction bs) (simp_all add: hex_encode_Cons hex_char_printable hex_nibbles printable_def, simp add: hex_encode_def)

lemma hex_encode_decodes: "hex_decodes (hex_encode bs)"
  by (simp add: hex_decodes_def hex_encode_digits)

lemma hex_char_inj:
  assumes "hex_char m = hex_char n" and "m < 16" and "n < 16"
  shows "m = n"
proof -
  have "(if m < 10 then 48 + m else 87 + m) = (if n < 10 then 48 + n else 87 + n)"
    using assms hex_char_byte [of m] hex_char_byte [of n] by metis
  then show ?thesis by presburger
qed

lemma hex_encode_inj: "hex_encode bs = hex_encode cs \<Longrightarrow> bs = cs"
proof (induction bs arbitrary: cs)
  case Nil
  then show ?case by (cases cs) (simp_all add: hex_encode_def)
next
  case (Cons b bs)
  then obtain c cs' where cs: "cs = c # cs'"
    by (cases cs) (simp_all add: hex_encode_def)
  from Cons.prems have hi: "hex_char (byte b div 16) = hex_char (byte c div 16)"
    and lo: "hex_char (byte b mod 16) = hex_char (byte c mod 16)"
    and rest: "hex_encode bs = hex_encode cs'"
    by (simp_all add: cs hex_encode_Cons)
  from hex_char_inj [OF hi] hex_char_inj [OF lo]
  have "byte b div 16 = byte c div 16" "byte b mod 16 = byte c mod 16"
    by (simp_all add: hex_nibbles)
  then have "byte b = byte c"
    by (metis div_mult_mod_eq)
  then have "b = c"
    by (metis char_of_byte)
  with Cons.IH [OF rest] show ?case
    by (simp add: cs)
qed

end
