(* ===== verification/SHA256.thy ===== *)
theory SHA256
  imports Go_Strings
begin

text \<open>
  Go's \<^verbatim>\<open>crypto/sha256\<close>: the SHA-256 function of FIPS 180-4 on byte strings, and the two
  textual forms of a digest the program uses. Theorems about digests never assume that the hash
  is injective: they conclude that the hashed texts are equal or exhibit a collision.
\<close>

unbundle bit_operations_syntax

section \<open>Byte order\<close>

text \<open>\<^verbatim>\<open>encoding/binary\<close>: big-endian unsigned integers of \<open>k\<close> bytes.\<close>

fun be :: "nat \<Rightarrow> nat \<Rightarrow> bytes" where
  "be 0 n = []"
| "be (Suc k) n = be k (n div 256) @ [char_of n]"

fun unbe :: "bytes \<Rightarrow> nat \<Rightarrow> nat" where
  "unbe [] acc = acc"
| "unbe (c # cs) acc = unbe cs (acc * 256 + byte c)"

lemma length_be [simp]: "length (be k n) = k"
  by (induction k arbitrary: n) simp_all

lemma unbe_append: "unbe (xs @ [c]) acc = unbe xs acc * 256 + byte c"
  by (induction xs arbitrary: acc) simp_all

lemma unbe_be: "unbe (be k n) 0 = n mod 256 ^ k"
proof (induction k arbitrary: n)
  case (Suc k)
  have "unbe (be (Suc k) n) 0 = (n div 256 mod 256 ^ k) * 256 + n mod 256"
    by (simp add: unbe_append Suc.IH)
  also have "\<dots> = n mod (256 * 256 ^ k)"
    by (simp add: mod_mult2_eq mult.commute)
  finally show ?case by simp
qed simp

lemma be_inj: "be k m = be k n \<Longrightarrow> m < 256 ^ k \<Longrightarrow> n < 256 ^ k \<Longrightarrow> m = n"
  by (metis mod_less unbe_be)

section \<open>The compression function\<close>

definition rotr :: "nat \<Rightarrow> uint32 \<Rightarrow> uint32" where
  "rotr n x = drop_bit n x OR push_bit (32 - n) x"

definition Ch :: "uint32 \<Rightarrow> uint32 \<Rightarrow> uint32 \<Rightarrow> uint32" where
  "Ch x y z = (x AND y) XOR (NOT x AND z)"

definition Maj :: "uint32 \<Rightarrow> uint32 \<Rightarrow> uint32 \<Rightarrow> uint32" where
  "Maj x y z = (x AND y) XOR (x AND z) XOR (y AND z)"

definition big_sigma0 :: "uint32 \<Rightarrow> uint32" where
  "big_sigma0 x = rotr 2 x XOR rotr 13 x XOR rotr 22 x"

definition big_sigma1 :: "uint32 \<Rightarrow> uint32" where
  "big_sigma1 x = rotr 6 x XOR rotr 11 x XOR rotr 25 x"

definition small_sigma0 :: "uint32 \<Rightarrow> uint32" where
  "small_sigma0 x = rotr 7 x XOR rotr 18 x XOR drop_bit 3 x"

definition small_sigma1 :: "uint32 \<Rightarrow> uint32" where
  "small_sigma1 x = rotr 17 x XOR rotr 19 x XOR drop_bit 10 x"

text \<open>
  The constants of the hash are derived the way its standard introduces them: the first 32 bits of
  the fractional part of the cube roots of the first 64 primes, and of the square roots of the
  first eight. \<open>int_root k b n r\<close> finds the integer \<open>k\<close>-th root of \<open>n\<close> from \<open>r\<close> upwards, one bit
  of the \<open>b\<close> lowest at a time.
\<close>

fun int_root :: "nat \<Rightarrow> nat \<Rightarrow> int \<Rightarrow> int \<Rightarrow> int" where
  "int_root k 0 n r = r"
| "int_root k (Suc b) n r = int_root k b n (if (r + 2 ^ b) ^ k \<le> n then r + 2 ^ b else r)"

definition root_fraction :: "nat \<Rightarrow> int \<Rightarrow> uint32" where
  "root_fraction k p = word_of_int (int_root k 36 (p * 2 ^ (32 * k)) 0)"

definition first_primes :: "int list" where
  "first_primes =
    [2, 3, 5, 7, 11, 13, 17, 19, 23, 29, 31, 37, 41, 43, 47, 53,
     59, 61, 67, 71, 73, 79, 83, 89, 97, 101, 103, 107, 109, 113, 127, 131,
     137, 139, 149, 151, 157, 163, 167, 173, 179, 181, 191, 193, 197, 199, 211, 223,
     227, 229, 233, 239, 241, 251, 257, 263, 269, 271, 277, 281, 283, 293, 307, 311]"

definition round_constants :: "uint32 list" where
  "round_constants = map (root_fraction 3) first_primes"

type_synonym hash_state = "uint32 \<times> uint32 \<times> uint32 \<times> uint32 \<times> uint32 \<times> uint32 \<times> uint32 \<times> uint32"

definition initial_hash :: hash_state where
  "initial_hash =
     (root_fraction 2 2, root_fraction 2 3, root_fraction 2 5, root_fraction 2 7,
      root_fraction 2 11, root_fraction 2 13, root_fraction 2 17, root_fraction 2 19)"

text \<open>
  The message schedule is produced on the fly: the window holds the last sixteen words, oldest
  first, and each round consumes the oldest and appends the next.
\<close>

definition next_word :: "uint32 list \<Rightarrow> uint32" where
  "next_word w = small_sigma1 (w ! 14) + w ! 9 + small_sigma0 (w ! 1) + w ! 0"

fun sha_round :: "hash_state \<Rightarrow> uint32 \<Rightarrow> uint32 \<Rightarrow> hash_state" where
  "sha_round (a, b, c, d, e, f, g, h) k w =
     (let t1 = h + big_sigma1 e + Ch e f g + k + w;
          t2 = big_sigma0 a + Maj a b c
      in (t1 + t2, a, b, c, d + t1, e, f, g))"

fun sha_rounds :: "uint32 list \<Rightarrow> uint32 list \<Rightarrow> hash_state \<Rightarrow> hash_state" where
  "sha_rounds [] w st = st"
| "sha_rounds (k # ks) w st =
     sha_rounds ks (tl w @ [next_word w]) (sha_round st k (hd w))"

fun add_state :: "hash_state \<Rightarrow> hash_state \<Rightarrow> hash_state" where
  "add_state (a, b, c, d, e, f, g, h) (a', b', c', d', e', f', g', h') =
     (a + a', b + b', c + c', d + d', e + e', f + f', g + g', h + h')"

definition word32 :: "bytes \<Rightarrow> uint32" where
  "word32 bs = foldl (\<lambda>w c. push_bit 8 w + of_nat (byte c)) 0 bs"

definition block_words :: "bytes \<Rightarrow> uint32 list" where
  "block_words bs = map (\<lambda>i. word32 (take 4 (drop (4 * i) bs))) [0..<16]"

definition compress :: "hash_state \<Rightarrow> bytes \<Rightarrow> hash_state" where
  "compress st block = add_state st (sha_rounds round_constants (block_words block) st)"

section \<open>Padding and digest\<close>

definition sha_pad :: "bytes \<Rightarrow> bytes" where
  "sha_pad m = m @ [char_of (128 :: nat)] @ replicate ((119 - length m mod 64) mod 64) (char_of (0 :: nat)) @
     be 8 (8 * length m)"

fun fold_blocks :: "nat \<Rightarrow> hash_state \<Rightarrow> bytes \<Rightarrow> hash_state" where
  "fold_blocks 0 st bs = st"
| "fold_blocks (Suc n) st bs = fold_blocks n (compress st (take 64 bs)) (drop 64 bs)"

fun state_words :: "hash_state \<Rightarrow> uint32 list" where
  "state_words (a, b, c, d, e, f, g, h) = [a, b, c, d, e, f, g, h]"

definition word_bytes :: "uint32 \<Rightarrow> bytes" where
  "word_bytes w = map (\<lambda>i. char_of (unat (drop_bit (8 * i) w AND 255))) [3, 2, 1, 0]"

definition sha256 :: "bytes \<Rightarrow> bytes" where
  "sha256 m =
     concat (map word_bytes
       (state_words (fold_blocks (length (sha_pad m) div 64) initial_hash (sha_pad m))))"

text \<open>The digest as text: \<^verbatim>\<open>"sha256:" + hex.EncodeToString(digest[:])\<close>.\<close>

definition sha256_text :: "bytes \<Rightarrow> string" where
  "sha256_text m = sha256_prefix @ hex_encode (sha256 m)"

text \<open>Two distinct messages with the same digest.\<close>

definition sha256_collision :: "bytes \<Rightarrow> bytes \<Rightarrow> bool" where
  "sha256_collision m m' \<longleftrightarrow> m \<noteq> m' \<and> sha256 m = sha256 m'"

lemma length_sha_pad: "64 dvd length (sha_pad m)"
proof -
  let ?r = "length m mod 64"
  have r: "?r \<le> 63"
    by (simp add: less_Suc_eq_le [symmetric])
  have "length (sha_pad m) mod 64 = (length m + (9 + (119 - ?r) mod 64)) mod 64"
    by (simp add: sha_pad_def add.commute)
  also have "\<dots> = ((length m + 9) + (119 - ?r)) mod 64"
    by (simp only: add.assoc [symmetric] mod_add_right_eq)
  also have "\<dots> = (?r + (9 + (119 - ?r))) mod 64"
    by (simp only: add.assoc mod_add_left_eq)
  also have "\<dots> = 128 mod 64"
    using r by simp
  finally show ?thesis by (simp add: dvd_eq_mod_eq_0)
qed

lemma length_state_words [simp]: "length (state_words st) = 8"
  by (cases st rule: state_words.cases) simp

lemma length_word_bytes: "length (concat (map word_bytes ws)) = 4 * length ws"
  by (induction ws) (simp_all add: word_bytes_def)

lemma length_sha256 [simp]: "length (sha256 m) = 32"
  by (simp add: sha256_def length_word_bytes)

lemma sha256_text_inj: "sha256_text m = sha256_text m' \<Longrightarrow> m = m' \<or> sha256_collision m m'"
  by (auto simp: sha256_text_def sha256_collision_def dest: hex_encode_inj)

lemma length_sha256_text [simp]: "length (sha256_text m) = 71"
  by (simp add: sha256_text_def sha256_prefix_def)

lemma sha256_prefix_printable: "printable sha256_prefix"
  by (simp add: printable_def sha256_prefix_def in_range_def byte_def)

lemma sha256_text_printable: "printable (sha256_text m)"
  by (simp add: sha256_text_def hex_encode_printable sha256_prefix_printable)

end
