(* ===== verification/Canonical_Transcript.thy ===== *)
theory Canonical_Transcript
  imports Go_Time Go_Strings SHA256
begin

text \<open>
  Package \<^verbatim>\<open>internal/canonicaltranscript\<close>: the encoder that every request digest of the
  coordination packages is computed over. Its methods append to a buffer and keep the first error,
  after which they do nothing.

  The second half specifies the encoder by the list of fields a profile writes: \<open>raw\<close> is the
  text of a field list with no bound checked, \<open>fields_ok\<close> says which values are encodable, and
  \<open>shape\<close> is what a profile fixes in advance (the kinds of its fields). The main results are that
  running the methods over a field list yields exactly \<open>raw\<close> or an error, and that two encodable
  field lists of the same shape with the same text are the same fields, up to the location of
  their timestamps.
\<close>

section \<open>The encoder\<close>

datatype transcript_error =
    ProfileRequired
  | NotUTF8
  | StringTooLong
  | TimestampRequired
  | TimestampOutsideRange
  | ExceedsMaxBytes
  | MissingValueEncoder

record encoder =
  buffer :: bytes
  encoder_err :: "transcript_error option"

definition max_transcript_bytes :: nat where
  "max_transcript_bytes = 16384"

definition max_uint16 :: nat where
  "max_uint16 = 65535"

text \<open>\<^verbatim>\<open>reserve\<close>: the encoder, with the error set when the bound is passed, and the verdict.\<close>

definition reserve :: "encoder \<Rightarrow> nat \<Rightarrow> encoder \<times> bool" where
  "reserve e additional =
     (if int (length (buffer e)) > int max_transcript_bytes - int additional
      then (e\<lparr>encoder_err := Some ExceedsMaxBytes\<rparr>, False) else (e, True))"

definition append_buffer :: "encoder \<Rightarrow> bytes \<Rightarrow> encoder" where
  "append_buffer e bs = e\<lparr>buffer := buffer e @ bs\<rparr>"

definition enc_string :: "string \<Rightarrow> encoder \<Rightarrow> encoder" where
  "enc_string v e =
     (if encoder_err e \<noteq> None then e
      else if \<not> valid_utf8 v then e\<lparr>encoder_err := Some NotUTF8\<rparr>
      else if length v > max_uint16 then e\<lparr>encoder_err := Some StringTooLong\<rparr>
      else case reserve e (2 + length v) of
        (e', ok) \<Rightarrow> if ok then append_buffer (append_buffer e' (be 2 (length v))) v else e')"

definition enc_uint32 :: "uint32 \<Rightarrow> encoder \<Rightarrow> encoder" where
  "enc_uint32 v e =
     (if encoder_err e \<noteq> None then e
      else case reserve e 4 of (e', ok) \<Rightarrow> if ok then append_buffer e' (be 4 (unat v)) else e')"

definition enc_uint64 :: "uint64 \<Rightarrow> encoder \<Rightarrow> encoder" where
  "enc_uint64 v e =
     (if encoder_err e \<noteq> None then e
      else case reserve e 8 of (e', ok) \<Rightarrow> if ok then append_buffer e' (be 8 (unat v)) else e')"

text \<open>Unix seconds in two's complement, then nanoseconds.\<close>

definition time_bytes :: "gotime \<Rightarrow> bytes" where
  "time_bytes t = be 8 (unat (word_of_int (unix_sec t) :: uint64)) @ be 4 (nat (nanosecond t))"

definition enc_time :: "gotime \<Rightarrow> encoder \<Rightarrow> encoder" where
  "enc_time v e =
     (if encoder_err e \<noteq> None then e
      else if is_zero v then e\<lparr>encoder_err := Some TimestampRequired\<rparr>
      else if \<not> marshals_text (utc v) then e\<lparr>encoder_err := Some TimestampOutsideRange\<rparr>
      else case reserve e 12 of (e', ok) \<Rightarrow> if ok then append_buffer e' (time_bytes v) else e')"

text \<open>\<^verbatim>\<open>Optional\<close>; the callback is an option because a caller may pass a nil function.\<close>

definition enc_optional :: "bool \<Rightarrow> (encoder \<Rightarrow> encoder) option \<Rightarrow> encoder \<Rightarrow> encoder" where
  "enc_optional present append_value e =
     (if encoder_err e \<noteq> None then e
      else case reserve e 1 of (e', ok) \<Rightarrow>
        if \<not> ok then e'
        else if \<not> present then append_buffer e' [char_of (0 :: nat)]
        else (let e'' = append_buffer e' [char_of (1 :: nat)] in
          case append_value of
            None \<Rightarrow> e''\<lparr>encoder_err := Some MissingValueEncoder\<rparr>
          | Some f \<Rightarrow> f e''))"

definition new_encoder :: "string \<Rightarrow> encoder" where
  "new_encoder profile =
     (if profile = [] then \<lparr>buffer = [], encoder_err = Some ProfileRequired\<rparr>
      else enc_string profile \<lparr>buffer = [], encoder_err = None\<rparr>)"

definition encoder_bytes :: "encoder \<Rightarrow> transcript_error + bytes" where
  "encoder_bytes e = (case encoder_err e of Some err \<Rightarrow> Inl err | None \<Rightarrow> Inr (buffer e))"

section \<open>The format: fields, shapes and a reader\<close>

datatype field =
    FString string
  | FUint32 uint32
  | FUint64 uint64
  | FTime gotime
  | FOpt "field list option"

datatype shape = SString | SUint32 | SUint64 | STime | SOpt "shape list"

fun enc_field :: "field \<Rightarrow> encoder \<Rightarrow> encoder"
  and enc_fields :: "field list \<Rightarrow> encoder \<Rightarrow> encoder" where
  "enc_field (FString s) e = enc_string s e"
| "enc_field (FUint32 w) e = enc_uint32 w e"
| "enc_field (FUint64 w) e = enc_uint64 w e"
| "enc_field (FTime t) e = enc_time t e"
| "enc_field (FOpt None) e = enc_optional False None e"
| "enc_field (FOpt (Some fs)) e = enc_optional True (Some (enc_fields fs)) e"
| "enc_fields [] e = e"
| "enc_fields (f # fs) e = enc_fields fs (enc_field f e)"

definition put_string :: "string \<Rightarrow> bytes" where
  "put_string s = be 2 (length s) @ s"

fun raw :: "field \<Rightarrow> bytes" and raws :: "field list \<Rightarrow> bytes" where
  "raw (FString s) = put_string s"
| "raw (FUint32 w) = be 4 (unat w)"
| "raw (FUint64 w) = be 8 (unat w)"
| "raw (FTime t) = time_bytes t"
| "raw (FOpt None) = [char_of (0 :: nat)]"
| "raw (FOpt (Some fs)) = char_of (1 :: nat) # raws fs"
| "raws [] = []"
| "raws (f # fs) = raw f @ raws fs"

definition string_ok :: "string \<Rightarrow> bool" where
  "string_ok s \<longleftrightarrow> valid_utf8 s \<and> length s \<le> max_uint16"

definition time_ok :: "gotime \<Rightarrow> bool" where
  "time_ok t \<longleftrightarrow> \<not> is_zero t \<and> marshals_text t"

fun field_ok :: "field \<Rightarrow> bool" and fields_ok :: "field list \<Rightarrow> bool" where
  "field_ok (FString s) = string_ok s"
| "field_ok (FUint32 w) = True"
| "field_ok (FUint64 w) = True"
| "field_ok (FTime t) = time_ok t"
| "field_ok (FOpt None) = True"
| "field_ok (FOpt (Some fs)) = fields_ok fs"
| "fields_ok [] = True"
| "fields_ok (f # fs) = (field_ok f \<and> fields_ok fs)"

fun fits :: "shape \<Rightarrow> field \<Rightarrow> bool" and fits_all :: "shape list \<Rightarrow> field list \<Rightarrow> bool" where
  "fits s (FString v) = (s = SString)"
| "fits s (FUint32 v) = (s = SUint32)"
| "fits s (FUint64 v) = (s = SUint64)"
| "fits s (FTime v) = (s = STime)"
| "fits s (FOpt None) = (case s of SOpt ss \<Rightarrow> True | _ \<Rightarrow> False)"
| "fits s (FOpt (Some fs)) = (case s of SOpt ss \<Rightarrow> fits_all ss fs | _ \<Rightarrow> False)"
| "fits_all ss [] = (ss = [])"
| "fits_all ss (f # fs) = (case ss of [] \<Rightarrow> False | s # ss' \<Rightarrow> fits s f \<and> fits_all ss' fs)"

text \<open>A transcript determines a timestamp up to its location; \<open>norm\<close> forgets it.\<close>

fun norm :: "field \<Rightarrow> field" and norms :: "field list \<Rightarrow> field list" where
  "norm (FTime t) = FTime (utc t)"
| "norm (FOpt (Some fs)) = FOpt (Some (norms fs))"
| "norm f = f"
| "norms [] = []"
| "norms (f # fs) = norm f # norms fs"

text \<open>Readers, as a peer in another language would write them.\<close>

definition get_be :: "nat \<Rightarrow> bytes \<Rightarrow> (nat \<times> bytes) option" where
  "get_be k bs = (if k \<le> length bs then Some (unbe (take k bs) 0, drop k bs) else None)"

definition get_uint :: "nat \<Rightarrow> bytes \<Rightarrow> ('w::len word \<times> bytes) option" where
  "get_uint k bs = map_option (\<lambda>(n, r). (of_nat n, r)) (get_be k bs)"

definition get_string :: "bytes \<Rightarrow> (string \<times> bytes) option" where
  "get_string bs =
     (case get_be 2 bs of None \<Rightarrow> None
      | Some (n, r) \<Rightarrow> if n \<le> length r then Some (take n r, drop n r) else None)"

definition get_time :: "bytes \<Rightarrow> (gotime \<times> bytes) option" where
  "get_time bs =
     (case get_be 8 bs of None \<Rightarrow> None
      | Some (s, r) \<Rightarrow> (case get_be 4 r of None \<Rightarrow> None
        | Some (n, r') \<Rightarrow>
            Some (\<lparr>instant = (sint (of_nat s :: uint64) + unix_epoch) * ns_per_sec + int n,
                   location = UTC\<rparr>, r')))"

section \<open>Each wire format is self-delimiting\<close>

text \<open>
  The interface a field format offers to the profiles: reading after writing returns the value
  (up to \<open>canon\<close>) and leaves the rest of the text. Clients use only \<open>put_unique\<close>.
\<close>

locale wire_format =
  fixes put :: "'a \<Rightarrow> bytes"
    and get :: "bytes \<Rightarrow> ('a \<times> bytes) option"
    and ok :: "'a \<Rightarrow> bool"
    and canon :: "'a \<Rightarrow> 'a"
  assumes get_put: "ok x \<Longrightarrow> get (put x @ r) = Some (canon x, r)"
begin

lemma put_unique:
  assumes "put x @ r = put y @ r'" and "ok x" and "ok y"
  shows "canon x = canon y" and "r = r'"
  using get_put [OF assms(2), of r] get_put [OF assms(3), of r'] assms(1) by simp_all

end

lemma get_be_be: "n < 256 ^ k \<Longrightarrow> get_be k (be k n @ r) = Some (n, r)"
  by (simp add: get_be_def unbe_be)

lemma get_uint_be:
  assumes "LENGTH('w) = 8 * k"
  shows "get_uint k (be k (unat w) @ r) = Some (w :: 'w::len word, r)"
proof -
  have "(256 :: nat) ^ k = 2 ^ LENGTH('w)"
    by (simp add: assms power_mult)
  then have "unat w < 256 ^ k"
    by simp
  then show ?thesis
    by (simp add: get_uint_def get_be_be)
qed

interpretation string_wire: wire_format put_string get_string string_ok "\<lambda>s. s"
  by unfold_locales (simp add: put_string_def get_string_def get_be_be string_ok_def max_uint16_def)

interpretation uint32_wire: wire_format "\<lambda>w :: uint32. be 4 (unat w)" "get_uint 4" "\<lambda>_. True" "\<lambda>w. w"
  by unfold_locales (simp add: get_uint_be)

interpretation uint64_wire: wire_format "\<lambda>w :: uint64. be 8 (unat w)" "get_uint 8" "\<lambda>_. True" "\<lambda>w. w"
  by unfold_locales (simp add: get_uint_be)

lemma get_time_bytes:
  assumes "time_ok t"
  shows "get_time (time_bytes t @ r) = Some (utc t, r)"
proof -
  have range: "- (2 ^ 63) \<le> unix_sec t" "unix_sec t < 2 ^ 63"
    using assms unix_sec_durable [of t] by (simp_all add: time_ok_def)
  have sec: "sint (word_of_int (unix_sec t) :: uint64) = unix_sec t"
    using range by (simp add: sint_sbintrunc' signed_take_bit_int_eq_self)
  have nsec: "nat (nanosecond t) < 256 ^ 4" "int (nat (nanosecond t)) = nanosecond t"
    using nanosecond_bounds [of t] by (simp_all add: ns_per_sec_def)
  have word: "unat (word_of_int (unix_sec t) :: uint64) < 256 ^ 8"
    using unsigned_less [of "word_of_int (unix_sec t) :: uint64", where ?'a = nat] by simp
  show ?thesis
    using instant_split [of t] sec nsec(2)
    by (simp add: get_time_def time_bytes_def get_be_be [OF word] get_be_be [OF nsec(1)]
        del: of_nat_unat) (simp add: utc_def)
qed

interpretation time_wire: wire_format time_bytes get_time time_ok utc
  by unfold_locales (rule get_time_bytes)

lemma raw_unique:
  "\<lbrakk>raw f @ r = raw g @ r'; fits s f; fits s g; field_ok f; field_ok g\<rbrakk> \<Longrightarrow> norm f = norm g \<and> r = r'"
  "\<lbrakk>raws fs @ r = raws gs @ r'; fits_all ss fs; fits_all ss gs; fields_ok fs; fields_ok gs\<rbrakk>
     \<Longrightarrow> norms fs = norms gs \<and> r = r'"
proof (induction s f and ss fs arbitrary: g r r' and gs r r' rule: fits_fits_all.induct)
  case (1 s v)
  then obtain v' where "g = FString v'" by (cases g rule: raw.cases) (auto split: shape.splits)
  with 1 string_wire.put_unique [of v r v' r'] show ?case by simp
next
  case (2 s v)
  then obtain v' where "g = FUint32 v'" by (cases g rule: raw.cases) (auto split: shape.splits)
  with 2 uint32_wire.put_unique [of v r v' r'] show ?case by simp
next
  case (3 s v)
  then obtain v' where "g = FUint64 v'" by (cases g rule: raw.cases) (auto split: shape.splits)
  with 3 uint64_wire.put_unique [of v r v' r'] show ?case by simp
next
  case (4 s v)
  then obtain v' where "g = FTime v'" by (cases g rule: raw.cases) (auto split: shape.splits)
  with 4 time_wire.put_unique [of v r v' r'] show ?case by simp
next
  case (5 s)
  then have "g = FOpt None" by (cases g rule: raw.cases) (auto split: shape.splits)
  with 5 show ?case by simp
next
  case (6 s fs)
  from 6(3) obtain ss where s: "s = SOpt ss" by (simp split: shape.splits)
  from 6(2-4) s obtain gs where g: "g = FOpt (Some gs)"
    by (cases g rule: raw.cases) auto
  have "norms fs = norms gs \<and> r = r'"
    by (rule 6(1) [OF s]) (use 6(2-6) s g in simp_all)
  then show ?case by (simp add: g)
next
  case (7 ss)
  then show ?case by (cases gs) simp_all
next
  case (8 ss f fs)
  from 8(4) obtain s ss' where ss: "ss = s # ss'" by (cases ss) simp_all
  from 8(5) ss obtain g' gs' where gs: "gs = g' # gs'" by (cases gs) simp_all
  have head: "norm f = norm g' \<and> raws fs @ r = raws gs' @ r'"
    by (rule 8(1) [OF ss]) (use 8(3-7) ss gs in simp_all)
  have "norms fs = norms gs' \<and> r = r'"
    by (rule 8(2) [OF ss]) (use head 8(3-7) ss gs in simp_all)
  with head show ?case by (simp add: gs)
qed

section \<open>The encoder writes the format\<close>

lemma enc_string_sticky [simp]: "encoder_err e \<noteq> None \<Longrightarrow> enc_string s e = e"
  by (simp add: enc_string_def)

lemma enc_field_sticky [simp]: "encoder_err e \<noteq> None \<Longrightarrow> enc_field f e = e"
proof (cases f)
  case (FOpt o')
  then show "encoder_err e \<noteq> None \<Longrightarrow> ?thesis"
    by (cases o') (simp_all add: enc_optional_def)
qed (simp_all add: enc_uint32_def enc_uint64_def enc_time_def)

lemma enc_fields_sticky [simp]: "encoder_err e \<noteq> None \<Longrightarrow> enc_fields fs e = e"
  by (induction fs) auto

definition fits_in :: "encoder \<Rightarrow> bytes \<Rightarrow> bool" where
  "fits_in e bs \<longleftrightarrow> length (buffer e) + length bs \<le> max_transcript_bytes"

lemma reserve_eq:
  "reserve e n = (if length (buffer e) + n \<le> max_transcript_bytes then (e, True)
     else (e\<lparr>encoder_err := Some ExceedsMaxBytes\<rparr>, False))"
  by (auto simp: reserve_def)

lemmas encoder_defs = enc_string_def enc_uint32_def enc_uint64_def enc_time_def
  append_buffer_def reserve_eq string_ok_def time_ok_def put_string_def time_bytes_def fits_in_def

text \<open>
  Every method either appends exactly the text of its field, when the value is encodable and the
  bound is kept, or sets the error.
\<close>

lemma enc_field_run:
  "encoder_err e = None \<Longrightarrow>
     (if field_ok f \<and> fits_in e (raw f) then enc_field f e = append_buffer e (raw f)
      else encoder_err (enc_field f e) \<noteq> None)"
  "encoder_err e = None \<Longrightarrow> fits_in e [] \<Longrightarrow>
     (if fields_ok fs \<and> fits_in e (raws fs) then enc_fields fs e = append_buffer e (raws fs)
      else encoder_err (enc_fields fs e) \<noteq> None)"
proof (induction f e and fs e rule: enc_field_enc_fields.induct)
  case (6 fs e)
  let ?e = "append_buffer e [char_of (1 :: nat)]"
  show ?case
  proof (cases "fits_in e [char_of (1 :: nat)]")
    case True
    then have run: "enc_field (FOpt (Some fs)) e = enc_fields fs ?e"
      using 6 by (simp add: enc_optional_def reserve_eq fits_in_def)
    have "encoder_err ?e = None" "fits_in ?e []"
      using True 6 by (simp_all add: append_buffer_def fits_in_def)
    with 6(1) [of ?e] run show ?thesis
      using 6(2) True by (auto simp: append_buffer_def fits_in_def reserve_eq split: if_splits)
  next
    case False
    with 6 show ?thesis by (auto simp: enc_optional_def reserve_eq fits_in_def)
  qed
next
  case (8 f fs e)
  show ?case
  proof (cases "field_ok f \<and> fits_in e (raw f)")
    case True
    with 8(1) [OF 8(3)] have f: "enc_field f e = append_buffer e (raw f)" by simp
    with True 8 show ?thesis
      by (auto simp: append_buffer_def fits_in_def split: if_splits)
  next
    case False
    with 8(1) [OF 8(3)] have "encoder_err (enc_field f e) \<noteq> None" by simp
    moreover have "\<not> (fields_ok (f # fs) \<and> fits_in e (raws (f # fs)))"
      using False by (auto simp: fits_in_def)
    ultimately show ?thesis by (auto simp del: raws.simps fields_ok.simps)
  qed
qed (auto simp: encoder_defs enc_optional_def)

text \<open>A whole transcript: a profile string, then the fields.\<close>

definition transcript :: "string \<Rightarrow> field list \<Rightarrow> transcript_error + bytes" where
  "transcript profile fs = encoder_bytes (enc_fields fs (new_encoder profile))"

lemma new_encoder_eq: "profile \<noteq> [] \<Longrightarrow>
    enc_fields fs (new_encoder profile) = enc_fields (FString profile # fs) \<lparr>buffer = [], encoder_err = None\<rparr>"
  by (simp add: new_encoder_def)

lemma transcript_Inr_iff:
  "transcript profile fs = Inr bs \<longleftrightarrow>
     profile \<noteq> [] \<and> fields_ok (FString profile # fs) \<and> bs = raws (FString profile # fs) \<and>
     length bs \<le> max_transcript_bytes"
proof (cases "profile = []")
  case True
  then show ?thesis by (simp add: transcript_def encoder_bytes_def new_encoder_def)
next
  case False
  let ?e = "\<lparr>buffer = [], encoder_err = None\<rparr>"
  have "fits_in ?e []" "encoder_err ?e = None"
    by (simp_all add: fits_in_def)
  from enc_field_run(2) [OF this(2,1), of "FString profile # fs"] False show ?thesis
    unfolding transcript_def new_encoder_eq [OF False]
    by (auto simp: encoder_bytes_def append_buffer_def fits_in_def simp del: raws.simps fields_ok.simps
        enc_fields.simps split: if_splits option.splits)
qed

lemma transcript_unique:
  assumes "transcript p fs = Inr bs" and "transcript p gs = Inr bs"
    and "fits_all ss fs" and "fits_all ss gs"
  shows "norms fs = norms gs"
proof -
  have "norms (FString p # fs) = norms (FString p # gs)"
    using assms raw_unique(2) [of "FString p # fs" "[]" "FString p # gs" "[]" "SString # ss"]
    by (auto simp: transcript_Inr_iff)
  then show ?thesis by simp
qed

end
