(* ===== verification/Action_Model.thy ===== *)
theory Action_Model
  imports Canonical_Transcript
begin

text \<open>
  Package \<^verbatim>\<open>pkg/actionlifecycle\<close>, data and validation (\<^verbatim>\<open>model.go\<close>, \<^verbatim>\<open>validation.go\<close>) and request
  digests (\<^verbatim>\<open>canonical.go\<close>, \<^verbatim>\<open>acceptance_canonical.go\<close>).

  A Go enumeration is a string type with named constants, so each datatype has the source's
  constants and one more constructor for every other string; the zero value is that constructor
  at the empty string. The functions \<open>\<dots>_text\<close> give the wire value. Record fields carry the
  source's names after a two-letter prefix of their struct.
\<close>

section \<open>Enumerations\<close>

datatype state =
    StateAccepted | StateRunning | StateWaiting | StatePaused | StateOrphaned
  | StateCanceling | StateIndeterminate | StateSucceeded | StateFailed | StateCanceled
  | StateOther string

definition state_terminal :: "state \<Rightarrow> bool" where
  "state_terminal s \<longleftrightarrow> s = StateSucceeded \<or> s = StateFailed \<or> s = StateCanceled"

definition requires_executor_lease :: "state \<Rightarrow> bool" where
  "requires_executor_lease s \<longleftrightarrow> s = StateRunning \<or> s = StateCanceling"

datatype event_kind =
    EventAccept | EventStart | EventWait | EventPause | EventResume | EventRequestCancel
  | EventComplete | EventFail | EventConfirmCanceled | EventMarkIndeterminate
  | EventLeaseExpired | EventTakeover | EventBeginReconciliation
  | EventResolveReconciliation | EventRenewLease
  | EventOther string

fun event_kind_text :: "event_kind \<Rightarrow> string" where
  "event_kind_text EventAccept = ''ACCEPT''"
| "event_kind_text EventStart = ''START''"
| "event_kind_text EventWait = ''WAIT''"
| "event_kind_text EventPause = ''PAUSE''"
| "event_kind_text EventResume = ''RESUME''"
| "event_kind_text EventRequestCancel = ''REQUEST_CANCEL''"
| "event_kind_text EventComplete = ''COMPLETE''"
| "event_kind_text EventFail = ''FAIL''"
| "event_kind_text EventConfirmCanceled = ''CONFIRM_CANCELED''"
| "event_kind_text EventMarkIndeterminate = ''MARK_INDETERMINATE''"
| "event_kind_text EventLeaseExpired = ''LEASE_EXPIRED''"
| "event_kind_text EventTakeover = ''TAKEOVER''"
| "event_kind_text EventBeginReconciliation = ''BEGIN_RECONCILIATION''"
| "event_kind_text EventResolveReconciliation = ''RESOLVE_RECONCILIATION''"
| "event_kind_text EventRenewLease = ''RENEW_LEASE''"
| "event_kind_text (EventOther s) = s"

datatype reason_code =
    ReasonAccepted | ReasonStarted | ReasonScheduled | ReasonTargetBusy | ReasonServerUnavailable
  | ReasonDependencyPending | ReasonOperatorPause | ReasonResumed | ReasonCancelRequested
  | ReasonCompleted | ReasonExecutionFailed | ReasonCanceled | ReasonOutcomeUnknown | ReasonTimeout
  | ReasonTransportTimeout | ReasonLeaseExpired | ReasonTakenOver | ReasonReconciliationRequired
  | ReasonReconciliationResolved | ReasonLeaseRenewed
  | ReasonOther string

fun reason_code_text :: "reason_code \<Rightarrow> string" where
  "reason_code_text ReasonAccepted = ''ACCEPTED''"
| "reason_code_text ReasonStarted = ''STARTED''"
| "reason_code_text ReasonScheduled = ''SCHEDULED''"
| "reason_code_text ReasonTargetBusy = ''TARGET_BUSY''"
| "reason_code_text ReasonServerUnavailable = ''SERVER_UNAVAILABLE''"
| "reason_code_text ReasonDependencyPending = ''DEPENDENCY_PENDING''"
| "reason_code_text ReasonOperatorPause = ''OPERATOR_PAUSE''"
| "reason_code_text ReasonResumed = ''RESUMED''"
| "reason_code_text ReasonCancelRequested = ''CANCEL_REQUESTED''"
| "reason_code_text ReasonCompleted = ''COMPLETED''"
| "reason_code_text ReasonExecutionFailed = ''EXECUTION_FAILED''"
| "reason_code_text ReasonCanceled = ''CANCELED''"
| "reason_code_text ReasonOutcomeUnknown = ''OUTCOME_UNKNOWN''"
| "reason_code_text ReasonTimeout = ''TIMEOUT''"
| "reason_code_text ReasonTransportTimeout = ''TRANSPORT_TIMEOUT''"
| "reason_code_text ReasonLeaseExpired = ''LEASE_EXPIRED''"
| "reason_code_text ReasonTakenOver = ''TAKEN_OVER''"
| "reason_code_text ReasonReconciliationRequired = ''RECONCILIATION_REQUIRED''"
| "reason_code_text ReasonReconciliationResolved = ''RECONCILIATION_RESOLVED''"
| "reason_code_text ReasonLeaseRenewed = ''LEASE_RENEWED''"
| "reason_code_text (ReasonOther s) = s"

datatype resume_kind =
    ResumeAtTime | ResumeTargetAvailable | ResumeServerAvailable | ResumeDependency
  | ResumeManual | ResumeSignal
  | ResumeOther string

fun resume_kind_text :: "resume_kind \<Rightarrow> string" where
  "resume_kind_text ResumeAtTime = ''TIME''"
| "resume_kind_text ResumeTargetAvailable = ''TARGET_AVAILABLE''"
| "resume_kind_text ResumeServerAvailable = ''SERVER_AVAILABLE''"
| "resume_kind_text ResumeDependency = ''DEPENDENCY''"
| "resume_kind_text ResumeManual = ''MANUAL''"
| "resume_kind_text ResumeSignal = ''SIGNAL''"
| "resume_kind_text (ResumeOther s) = s"

datatype recovery_mode =
    RecoveryResumeFromCheckpoint | RecoveryRestartIdempotent | RecoveryReconcileBeforeResume
  | RecoveryManual
  | RecoveryOther string

fun recovery_mode_text :: "recovery_mode \<Rightarrow> string" where
  "recovery_mode_text RecoveryResumeFromCheckpoint = ''RESUME_FROM_CHECKPOINT''"
| "recovery_mode_text RecoveryRestartIdempotent = ''RESTART_IDEMPOTENT''"
| "recovery_mode_text RecoveryReconcileBeforeResume = ''RECONCILE_BEFORE_RESUME''"
| "recovery_mode_text RecoveryManual = ''MANUAL''"
| "recovery_mode_text (RecoveryOther s) = s"

datatype reconciliation_status =
    ReconciliationRequired | ReconciliationRunning | ReconciliationResolved
  | ReconciliationStatusOther string

datatype reconciliation_result =
    ReconciliationNoEffect | ReconciliationSucceeded | ReconciliationFailed | ReconciliationCanceled
  | ReconciliationResultOther string

fun reconciliation_result_text :: "reconciliation_result \<Rightarrow> string" where
  "reconciliation_result_text ReconciliationNoEffect = ''NO_EFFECT''"
| "reconciliation_result_text ReconciliationSucceeded = ''SUCCEEDED''"
| "reconciliation_result_text ReconciliationFailed = ''FAILED''"
| "reconciliation_result_text ReconciliationCanceled = ''CANCELED''"
| "reconciliation_result_text (ReconciliationResultOther s) = s"

datatype outcome_status =
    OutcomeSucceeded | OutcomeFailed | OutcomeCanceled
  | OutcomeOther string

text \<open>The conversion \<^verbatim>\<open>State(outcome.Status)\<close> keeps the wire value.\<close>

fun outcome_state :: "outcome_status \<Rightarrow> state" where
  "outcome_state OutcomeSucceeded = StateSucceeded"
| "outcome_state OutcomeFailed = StateFailed"
| "outcome_state OutcomeCanceled = StateCanceled"
| "outcome_state (OutcomeOther s) = StateOther s"

abbreviation no_state :: state where
  "no_state \<equiv> StateOther []"

abbreviation no_result :: reconciliation_result where
  "no_result \<equiv> ReconciliationResultOther []"

section \<open>Structures\<close>

record reason =
  rs_Code :: reason_code
  rs_Detail :: string

record resume_condition =
  rc_Type :: resume_kind
  rc_NotBefore :: "gotime option"
  rc_ProbeAfter :: "gotime option"
  rc_Target :: string
  rc_DependencyActionID :: string
  rc_Signal :: string

record executor_lease =
  ls_LeaseID :: string
  ls_ExecutorID :: string
  ls_Generation :: uint64
  ls_IssuedAt :: gotime
  ls_ExpiresAt :: gotime

record lease_fence =
  lf_LeaseID :: string
  lf_ExecutorID :: string
  lf_Generation :: uint64

record checkpoint =
  cp_Sequence :: uint64
  cp_PayloadDigest :: string
  cp_StorageRef :: string
  cp_CreatedAt :: gotime

record recovery_policy =
  rp_Mode :: recovery_mode
  rp_MaxAttempts :: uint32
  rp_IdempotencyKey :: string

record reconciliation =
  rn_Status :: reconciliation_status
  rn_Attempt :: uint32
  rn_EvidenceRef :: string
  rn_Result :: reconciliation_result
  rn_UpdatedAt :: gotime

record outcome =
  oc_Status :: outcome_status
  oc_ResultRef :: string
  oc_ErrorCode :: string
  oc_RecordedAt :: gotime

record authenticated_operation =
  au_ActorID :: string
  au_AuthorizationID :: string
  au_ProofID :: string
  au_Operation :: event_kind
  au_ActionID :: string
  au_ActionDigest :: string
  au_MutationDigest :: string
  au_VerifierNonce :: string
  au_IssuedAt :: gotime
  au_ExpiresAt :: gotime

record transition_record =
  tr_EventID :: string
  tr_Kind :: event_kind
  tr_From :: state
  tr_To :: state
  tr_Reason :: reason
  tr_At :: gotime
  tr_ActorID :: string
  tr_AuthorizationID :: string
  tr_ProofID :: string
  tr_MutationDigest :: string
  tr_AcceptanceContextDigest :: string
  tr_EvidenceRef :: string
  tr_LeaseGeneration :: uint64

record snapshot =
  sn_Schema :: string
  sn_ActionID :: string
  sn_ActionDigest :: string
  sn_OwnerID :: string
  sn_Revision :: uint64
  sn_State :: state
  sn_Reason :: reason
  sn_LeaseGeneration :: uint64
  sn_ExecutorLease :: "executor_lease option"
  sn_ResumeCondition :: "resume_condition option"
  sn_Checkpoint :: "checkpoint option"
  sn_RecoveryPolicy :: recovery_policy
  sn_RecoveryAttempts :: uint32
  sn_Reconciliation :: "reconciliation option"
  sn_Outcome :: "outcome option"
  sn_LastTransition :: transition_record
  sn_CreatedAt :: gotime
  sn_UpdatedAt :: gotime

record definition_of_action =
  df_EventID :: string
  df_ActionID :: string
  df_ActionDigest :: string
  df_OwnerID :: string
  df_RecoveryPolicy :: recovery_policy
  df_AcceptanceContextDigest :: string
  df_AcceptedAt :: gotime
  df_Auth :: "authenticated_operation option"

record event =
  ev_ID :: string
  ev_Kind :: event_kind
  ev_ExpectedRevision :: uint64
  ev_At :: gotime
  ev_Reason :: reason
  ev_Auth :: "authenticated_operation option"
  ev_Fence :: "lease_fence option"
  ev_Lease :: "executor_lease option"
  ev_ResumeCondition :: "resume_condition option"
  ev_Checkpoint :: "checkpoint option"
  ev_EvidenceRef :: string
  ev_ReconciliationResult :: reconciliation_result
  ev_ResultRef :: string
  ev_ErrorCode :: string

record transition =
  tn_Snapshot :: snapshot
  tn_Record :: transition_record
  tn_Auth :: "authenticated_operation option"

datatype action_error =
    ErrInvalidSnapshot | ErrInvalidEvent | ErrInvalidTransition | ErrRevisionConflict
  | ErrLeaseRequired | ErrLeaseExpired | ErrLeaseFenceMismatch | ErrAuthenticationRequired
  | ErrReconciliationRequired | ErrRecoveryExhausted
  | ErrCanonicalize transcript_error
  | PanicNilDereference

text \<open>
  The last constructor is not a source error: it stands for the runtime panic of dereferencing a
  nil pointer, so that its absence can be stated.
\<close>

definition SchemaV1 :: string where
  "SchemaV1 = ''asb.action-lifecycle/v1''"

end
