(* ===== verification/Action_Validation.thy ===== *)
theory Action_Validation
  imports Action_Model
begin

text \<open>
  Package \<^verbatim>\<open>pkg/actionlifecycle\<close>: the \<^verbatim>\<open>Validate\<close> methods of \<^verbatim>\<open>validation.go\<close>, the two edge tables and
  the revision bound of \<^verbatim>\<open>machine.go\<close> they use, and the request transcripts and digests of
  \<^verbatim>\<open>canonical.go\<close> and \<^verbatim>\<open>acceptance_canonical.go\<close>.

  A method whose failures all end up behind one sentinel is a predicate: \<^verbatim>\<open>Snapshot.Validate\<close>
  fails only with \<^verbatim>\<open>ErrInvalidSnapshot\<close>, and its parts are the groups of its checks in order.
\<close>

section \<open>Strings\<close>

definition max_id_bytes :: nat where
  "max_id_bytes = 256"

definition max_detail_bytes :: nat where
  "max_detail_bytes = 1024"

definition max_reference_bytes :: nat where
  "max_reference_bytes = 2048"

text \<open>The characters the source refuses beside controls: less, greater, ampersand and both quotes.\<close>

definition markup_rune :: "nat \<Rightarrow> bool" where
  "markup_rune r \<longleftrightarrow> r = 60 \<or> r = 62 \<or> r = 38 \<or> r = 34 \<or> r = 39"

definition safe_text :: "string \<Rightarrow> bool" where
  "safe_text v \<longleftrightarrow> valid_utf8 v \<and>
     list_all (\<lambda>p. \<not> (is_control (fst p) \<or> markup_rune (fst p))) (runes v)"

definition validate_id :: "string \<Rightarrow> bool" where
  "validate_id v \<longleftrightarrow> v \<noteq> [] \<and> trim_space v = v \<and> length v \<le> max_id_bytes \<and> safe_text v"

definition validate_reference :: "string \<Rightarrow> bool" where
  "validate_reference v \<longleftrightarrow> v \<noteq> [] \<and> trim_space v = v \<and> length v \<le> max_reference_bytes \<and> safe_text v"

definition validate_digest :: "string \<Rightarrow> bool" where
  "validate_digest v \<longleftrightarrow> has_prefix v sha256_prefix \<and> length v = length sha256_prefix + 64 \<and>
     to_lower v = v \<and> hex_decodes (trim_prefix v sha256_prefix)"

section \<open>Enumerations\<close>

fun valid_state :: "state \<Rightarrow> bool" where
  "valid_state (StateOther s) = False"
| "valid_state s = True"

fun valid_event_kind :: "event_kind \<Rightarrow> bool" where
  "valid_event_kind (EventOther s) = False"
| "valid_event_kind k = True"

fun valid_reason :: "reason_code \<Rightarrow> bool" where
  "valid_reason (ReasonOther s) = False"
| "valid_reason r = True"

fun valid_reconciliation_result :: "reconciliation_result \<Rightarrow> bool" where
  "valid_reconciliation_result (ReconciliationResultOther s) = False"
| "valid_reconciliation_result r = True"

fun transition_allowed :: "event_kind \<Rightarrow> state \<Rightarrow> state \<Rightarrow> bool" where
  "transition_allowed EventStart from to = (from = StateAccepted \<and> to = StateRunning)"
| "transition_allowed EventWait from to = (from = StateRunning \<and> to = StateWaiting)"
| "transition_allowed EventPause from to =
     ((from = StateRunning \<or> from = StateWaiting) \<and> to = StatePaused)"
| "transition_allowed EventResume from to =
     ((from = StateWaiting \<or> from = StatePaused) \<and> to = StateRunning)"
| "transition_allowed EventRequestCancel from to =
     (from = StateRunning \<and> to = StateCanceling \<or>
      (from = StateAccepted \<or> from = StateWaiting \<or> from = StatePaused) \<and> to = StateCanceled \<or>
      from = StateOrphaned \<and> to = StateIndeterminate)"
| "transition_allowed EventComplete from to =
     ((from = StateRunning \<or> from = StateCanceling) \<and> to = StateSucceeded)"
| "transition_allowed EventFail from to =
     ((from = StateRunning \<or> from = StateCanceling) \<and> to = StateFailed)"
| "transition_allowed EventConfirmCanceled from to = (from = StateCanceling \<and> to = StateCanceled)"
| "transition_allowed EventMarkIndeterminate from to =
     ((from = StateRunning \<or> from = StateCanceling \<or> from = StateOrphaned) \<and> to = StateIndeterminate)"
| "transition_allowed EventLeaseExpired from to =
     ((from = StateRunning \<or> from = StateCanceling) \<and> to = StateOrphaned)"
| "transition_allowed EventTakeover from to = (from = StateOrphaned \<and> to = StateRunning)"
| "transition_allowed EventBeginReconciliation from to =
     ((from = StateIndeterminate \<or> from = StateOrphaned) \<and> to = StateIndeterminate)"
| "transition_allowed EventResolveReconciliation from to =
     (from = StateIndeterminate \<and>
      (to = StatePaused \<or> to = StateSucceeded \<or> to = StateFailed \<or> to = StateCanceled))"
| "transition_allowed EventRenewLease from to =
     (from = StateRunning \<and> to = StateRunning \<or> from = StateCanceling \<and> to = StateCanceling)"
| "transition_allowed EventAccept from to = False"
| "transition_allowed (EventOther s) from to = False"

definition minimum_transition_revision :: "event_kind \<Rightarrow> state \<Rightarrow> uint64" where
  "minimum_transition_revision kind from =
     (if kind = EventResolveReconciliation then 5
      else case from of
        StateAccepted \<Rightarrow> 2
      | StateRunning \<Rightarrow> 3
      | StateWaiting \<Rightarrow> 4 | StatePaused \<Rightarrow> 4 | StateOrphaned \<Rightarrow> 4 | StateCanceling \<Rightarrow> 4
      | StateIndeterminate \<Rightarrow> 4
      | _ \<Rightarrow> 0)"

fun reason_allowed :: "event_kind \<Rightarrow> reason_code \<Rightarrow> bool" where
  "reason_allowed EventStart r = (r = ReasonStarted)"
| "reason_allowed EventWait r =
     (r = ReasonScheduled \<or> r = ReasonTargetBusy \<or> r = ReasonServerUnavailable \<or>
      r = ReasonDependencyPending \<or> r = ReasonTimeout)"
| "reason_allowed EventPause r = (r = ReasonOperatorPause \<or> r = ReasonTimeout)"
| "reason_allowed EventResume r = (r = ReasonResumed)"
| "reason_allowed EventRequestCancel r = (r = ReasonCancelRequested)"
| "reason_allowed EventComplete r = (r = ReasonCompleted)"
| "reason_allowed EventFail r = (r = ReasonExecutionFailed)"
| "reason_allowed EventConfirmCanceled r = (r = ReasonCanceled)"
| "reason_allowed EventMarkIndeterminate r =
     (r = ReasonOutcomeUnknown \<or> r = ReasonTimeout \<or> r = ReasonTransportTimeout)"
| "reason_allowed EventLeaseExpired r = (r = ReasonLeaseExpired)"
| "reason_allowed EventTakeover r = (r = ReasonTakenOver)"
| "reason_allowed EventBeginReconciliation r = (r = ReasonReconciliationRequired)"
| "reason_allowed EventResolveReconciliation r = (r = ReasonReconciliationResolved)"
| "reason_allowed EventRenewLease r = (r = ReasonLeaseRenewed)"
| "reason_allowed EventAccept r = False"
| "reason_allowed (EventOther s) r = False"

section \<open>Structures\<close>

definition validate_reason :: "reason \<Rightarrow> bool" where
  "validate_reason r \<longleftrightarrow> valid_reason (rs_Code r) \<and>
     length (rs_Detail r) \<le> max_detail_bytes \<and> safe_text (rs_Detail r)"

definition validate_lease :: "executor_lease \<Rightarrow> bool" where
  "validate_lease l \<longleftrightarrow> validate_id (ls_LeaseID l) \<and> validate_id (ls_ExecutorID l) \<and>
     ls_Generation l \<noteq> 0 \<and> \<not> is_zero (ls_IssuedAt l) \<and> \<not> is_zero (ls_ExpiresAt l) \<and>
     after (ls_ExpiresAt l) (ls_IssuedAt l)"

definition validate_recovery_policy :: "recovery_policy \<Rightarrow> bool" where
  "validate_recovery_policy p \<longleftrightarrow> rp_MaxAttempts p \<noteq> 0 \<and>
     (case rp_Mode p of
        RecoveryRestartIdempotent \<Rightarrow> validate_reference (rp_IdempotencyKey p)
      | RecoveryOther s \<Rightarrow> False
      | _ \<Rightarrow> rp_IdempotencyKey p = [])"

definition validate_resume_condition :: "resume_condition \<Rightarrow> bool" where
  "validate_resume_condition c \<longleftrightarrow>
     (case rc_Type c of
        ResumeAtTime \<Rightarrow>
          (case rc_NotBefore c of None \<Rightarrow> False | Some t \<Rightarrow> \<not> is_zero t) \<and>
          rc_ProbeAfter c = None \<and> rc_Target c = [] \<and> rc_DependencyActionID c = [] \<and> rc_Signal c = []
      | ResumeDependency \<Rightarrow>
          validate_id (rc_DependencyActionID c) \<and>
          rc_NotBefore c = None \<and> rc_ProbeAfter c = None \<and> rc_Target c = [] \<and> rc_Signal c = []
      | ResumeManual \<Rightarrow>
          rc_NotBefore c = None \<and> rc_ProbeAfter c = None \<and> rc_Target c = [] \<and>
          rc_DependencyActionID c = [] \<and> rc_Signal c = []
      | ResumeSignal \<Rightarrow>
          validate_id (rc_Signal c) \<and>
          rc_NotBefore c = None \<and> rc_ProbeAfter c = None \<and> rc_Target c = [] \<and>
          rc_DependencyActionID c = []
      | ResumeOther s \<Rightarrow> False
      | _ \<Rightarrow>
          validate_reference (rc_Target c) \<and>
          (case rc_ProbeAfter c of None \<Rightarrow> False | Some t \<Rightarrow> \<not> is_zero t) \<and>
          rc_NotBefore c = None \<and> rc_DependencyActionID c = [] \<and> rc_Signal c = [])"

definition validate_checkpoint :: "checkpoint \<Rightarrow> bool" where
  "validate_checkpoint c \<longleftrightarrow> cp_Sequence c \<noteq> 0 \<and> validate_digest (cp_PayloadDigest c) \<and>
     validate_reference (cp_StorageRef c) \<and> \<not> is_zero (cp_CreatedAt c)"

definition validate_reconciliation :: "reconciliation \<Rightarrow> bool" where
  "validate_reconciliation r \<longleftrightarrow> \<not> is_zero (rn_UpdatedAt r) \<and>
     (case rn_Status r of
        ReconciliationRequired \<Rightarrow> rn_Attempt r = 0 \<and> rn_Result r = no_result \<and> rn_EvidenceRef r = []
      | ReconciliationRunning \<Rightarrow> rn_Attempt r \<noteq> 0 \<and> rn_Result r = no_result \<and> rn_EvidenceRef r = []
      | ReconciliationResolved \<Rightarrow> rn_Attempt r \<noteq> 0 \<and> valid_reconciliation_result (rn_Result r) \<and>
          validate_reference (rn_EvidenceRef r)
      | ReconciliationStatusOther s \<Rightarrow> False)"

definition validate_outcome :: "outcome \<Rightarrow> bool" where
  "validate_outcome o' \<longleftrightarrow>
     (oc_Status o' = OutcomeSucceeded \<or> oc_Status o' = OutcomeFailed \<or> oc_Status o' = OutcomeCanceled) \<and>
     \<not> is_zero (oc_RecordedAt o') \<and>
     (oc_ResultRef o' \<noteq> [] \<longrightarrow> validate_reference (oc_ResultRef o')) \<and>
     (oc_ErrorCode o' \<noteq> [] \<longrightarrow> validate_id (oc_ErrorCode o'))"

definition validate_transition_record :: "transition_record \<Rightarrow> bool" where
  "validate_transition_record r \<longleftrightarrow> validate_id (tr_EventID r) \<and>
     valid_event_kind (tr_Kind r) \<and> valid_state (tr_To r) \<and>
     (tr_From r \<noteq> no_state \<longrightarrow> valid_state (tr_From r)) \<and>
     validate_reason (tr_Reason r) \<and> \<not> is_zero (tr_At r) \<and>
     list_all (\<lambda>v. v \<noteq> [] \<longrightarrow> validate_id v) [tr_ActorID r, tr_AuthorizationID r, tr_ProofID r] \<and>
     (if tr_Kind r = EventLeaseExpired
      then tr_ActorID r = [] \<and> tr_AuthorizationID r = [] \<and> tr_ProofID r = [] \<and>
        tr_MutationDigest r = [] \<and> tr_AcceptanceContextDigest r = []
      else list_all (\<lambda>v. v \<noteq> []) [tr_ActorID r, tr_AuthorizationID r, tr_ProofID r] \<and>
        validate_digest (tr_MutationDigest r) \<and>
        (if tr_Kind r = EventAccept then validate_digest (tr_AcceptanceContextDigest r)
         else tr_AcceptanceContextDigest r = [])) \<and>
     (tr_EvidenceRef r \<noteq> [] \<longrightarrow> validate_reference (tr_EvidenceRef r))"

section \<open>Request digests\<close>

definition steps :: "(encoder \<Rightarrow> encoder) list \<Rightarrow> encoder \<Rightarrow> encoder" where
  "steps ms e = fold (\<lambda>m. m) ms e"

definition MutationRequestSchemaV1 :: string where
  "MutationRequestSchemaV1 = ''asb.action-mutation-request/v1''"

definition AcceptanceRequestSchemaV1 :: string where
  "AcceptanceRequestSchemaV1 = ''asb.action-accept-request/v1''"

definition mutation_request_transcript :: "event \<Rightarrow> action_error + bytes" where
  "mutation_request_transcript v =
     map_sum ErrCanonicalize id (encoder_bytes (steps
       [enc_string (ev_ID v),
        enc_string (event_kind_text (ev_Kind v)),
        enc_uint64 (ev_ExpectedRevision v),
        enc_time (ev_At v),
        enc_string (reason_code_text (rs_Code (ev_Reason v))),
        enc_string (rs_Detail (ev_Reason v)),
        enc_optional (ev_Fence v \<noteq> None) (Some (steps
          [enc_string (lf_LeaseID (the (ev_Fence v))),
           enc_string (lf_ExecutorID (the (ev_Fence v))),
           enc_uint64 (lf_Generation (the (ev_Fence v)))])),
        enc_optional (ev_Lease v \<noteq> None) (Some (steps
          [enc_string (ls_LeaseID (the (ev_Lease v))),
           enc_string (ls_ExecutorID (the (ev_Lease v))),
           enc_uint64 (ls_Generation (the (ev_Lease v))),
           enc_time (ls_IssuedAt (the (ev_Lease v))),
           enc_time (ls_ExpiresAt (the (ev_Lease v)))])),
        enc_optional (ev_ResumeCondition v \<noteq> None) (Some (steps
          [enc_string (resume_kind_text (rc_Type (the (ev_ResumeCondition v)))),
           enc_optional (rc_NotBefore (the (ev_ResumeCondition v)) \<noteq> None)
             (Some (enc_time (the (rc_NotBefore (the (ev_ResumeCondition v)))))),
           enc_optional (rc_ProbeAfter (the (ev_ResumeCondition v)) \<noteq> None)
             (Some (enc_time (the (rc_ProbeAfter (the (ev_ResumeCondition v)))))),
           enc_string (rc_Target (the (ev_ResumeCondition v))),
           enc_string (rc_DependencyActionID (the (ev_ResumeCondition v))),
           enc_string (rc_Signal (the (ev_ResumeCondition v)))])),
        enc_optional (ev_Checkpoint v \<noteq> None) (Some (steps
          [enc_uint64 (cp_Sequence (the (ev_Checkpoint v))),
           enc_string (cp_PayloadDigest (the (ev_Checkpoint v))),
           enc_string (cp_StorageRef (the (ev_Checkpoint v))),
           enc_time (cp_CreatedAt (the (ev_Checkpoint v)))])),
        enc_string (ev_EvidenceRef v),
        enc_string (reconciliation_result_text (ev_ReconciliationResult v)),
        enc_string (ev_ResultRef v),
        enc_string (ev_ErrorCode v)]
       (new_encoder MutationRequestSchemaV1)))"

definition mutation_request_digest :: "event \<Rightarrow> action_error + string" where
  "mutation_request_digest v = map_sum id sha256_text (mutation_request_transcript v)"

definition acceptance_request_transcript :: "definition_of_action \<Rightarrow> action_error + bytes" where
  "acceptance_request_transcript d =
     (if \<not> (validate_id (df_EventID d) \<and> validate_id (df_ActionID d) \<and> validate_digest (df_ActionDigest d) \<and>
         validate_id (df_OwnerID d) \<and> validate_recovery_policy (df_RecoveryPolicy d) \<and>
         validate_digest (df_AcceptanceContextDigest d))
      then Inl ErrInvalidEvent
      else map_sum ErrCanonicalize id (encoder_bytes (steps
        [enc_string (event_kind_text EventAccept),
         enc_string (df_EventID d),
         enc_string (df_ActionID d),
         enc_string (df_ActionDigest d),
         enc_string (df_OwnerID d),
         enc_string (recovery_mode_text (rp_Mode (df_RecoveryPolicy d))),
         enc_uint32 (rp_MaxAttempts (df_RecoveryPolicy d)),
         enc_string (rp_IdempotencyKey (df_RecoveryPolicy d)),
         enc_string (df_AcceptanceContextDigest d)]
        (new_encoder AcceptanceRequestSchemaV1))))"

definition acceptance_request_digest :: "definition_of_action \<Rightarrow> action_error + string" where
  "acceptance_request_digest d = map_sum id sha256_text (acceptance_request_transcript d)"

section \<open>Snapshots\<close>

definition snapshot_header_ok :: "snapshot \<Rightarrow> bool" where
  "snapshot_header_ok s \<longleftrightarrow> sn_Schema s = SchemaV1 \<and> validate_id (sn_ActionID s) \<and>
     validate_digest (sn_ActionDigest s) \<and> validate_id (sn_OwnerID s) \<and> sn_Revision s \<noteq> 0 \<and>
     valid_state (sn_State s) \<and> validate_reason (sn_Reason s) \<and>
     \<not> is_zero (sn_CreatedAt s) \<and> \<not> is_zero (sn_UpdatedAt s) \<and>
     \<not> before (sn_UpdatedAt s) (sn_CreatedAt s) \<and>
     validate_recovery_policy (sn_RecoveryPolicy s) \<and>
     \<not> sn_RecoveryAttempts s > rp_MaxAttempts (sn_RecoveryPolicy s)"

definition snapshot_lease_ok :: "snapshot \<Rightarrow> bool" where
  "snapshot_lease_ok s \<longleftrightarrow>
     (case sn_ExecutorLease s of
        None \<Rightarrow> \<not> requires_executor_lease (sn_State s)
      | Some l \<Rightarrow> requires_executor_lease (sn_State s) \<and> validate_lease l \<and>
          ls_Generation l = sn_LeaseGeneration s \<and> \<not> before (ls_IssuedAt l) (sn_CreatedAt s))"

definition snapshot_resume_ok :: "snapshot \<Rightarrow> bool" where
  "snapshot_resume_ok s \<longleftrightarrow>
     (case sn_ResumeCondition s of
        None \<Rightarrow> sn_State s \<noteq> StateWaiting
      | Some c \<Rightarrow> sn_State s = StateWaiting \<and> validate_resume_condition c)"

definition snapshot_checkpoint_ok :: "snapshot \<Rightarrow> bool" where
  "snapshot_checkpoint_ok s \<longleftrightarrow>
     (case sn_Checkpoint s of
        None \<Rightarrow> True
      | Some c \<Rightarrow> validate_checkpoint c \<and> \<not> after (cp_CreatedAt c) (sn_UpdatedAt s))"

definition snapshot_reconciliation_ok :: "snapshot \<Rightarrow> bool" where
  "snapshot_reconciliation_ok s \<longleftrightarrow>
     (case sn_Reconciliation s of
        None \<Rightarrow> sn_State s \<noteq> StateIndeterminate
      | Some r \<Rightarrow> (sn_State s = StateIndeterminate \<longleftrightarrow> rn_Status r \<noteq> ReconciliationResolved) \<and>
          validate_reconciliation r \<and> \<not> after (rn_UpdatedAt r) (sn_UpdatedAt s))"

definition snapshot_outcome_ok :: "snapshot \<Rightarrow> bool" where
  "snapshot_outcome_ok s \<longleftrightarrow>
     (if state_terminal (sn_State s)
      then (case sn_Outcome s of
          None \<Rightarrow> False
        | Some o' \<Rightarrow> outcome_state (oc_Status o') = sn_State s \<and> validate_outcome o' \<and>
            \<not> after (oc_RecordedAt o') (sn_UpdatedAt s))
      else sn_Outcome s = None)"

definition snapshot_acceptance :: "snapshot \<Rightarrow> definition_of_action" where
  "snapshot_acceptance s =
     \<lparr>df_EventID = tr_EventID (sn_LastTransition s), df_ActionID = sn_ActionID s,
      df_ActionDigest = sn_ActionDigest s, df_OwnerID = sn_OwnerID s,
      df_RecoveryPolicy = sn_RecoveryPolicy s,
      df_AcceptanceContextDigest = tr_AcceptanceContextDigest (sn_LastTransition s),
      df_AcceptedAt = zero_time, df_Auth = None\<rparr>"

definition snapshot_last_ok :: "snapshot \<Rightarrow> bool" where
  "snapshot_last_ok s \<longleftrightarrow>
     (let r = sn_LastTransition s in
      validate_transition_record r \<and>
      tr_To r = sn_State s \<and> tr_Reason r = sn_Reason s \<and> tr_LeaseGeneration r = sn_LeaseGeneration s \<and>
      equal_time (tr_At r) (sn_UpdatedAt s) \<and>
      (if tr_Kind r = EventAccept
       then tr_From r = no_state \<and> tr_To r = StateAccepted \<and> rs_Code (tr_Reason r) = ReasonAccepted \<and>
         sn_Revision s = 1 \<and> equal_time (sn_CreatedAt s) (sn_UpdatedAt s) \<and> sn_LeaseGeneration s = 0 \<and>
         sn_RecoveryAttempts s = 0 \<and> sn_Checkpoint s = None \<and> sn_Reconciliation s = None \<and>
         acceptance_request_digest (snapshot_acceptance s) = Inr (tr_MutationDigest r)
       else transition_allowed (tr_Kind r) (tr_From r) (tr_To r) \<and>
         \<not> (minimum_transition_revision (tr_Kind r) (tr_From r) = 0 \<or>
            sn_Revision s < minimum_transition_revision (tr_Kind r) (tr_From r)) \<and>
         reason_allowed (tr_Kind r) (rs_Code (tr_Reason r))))"

definition validate_snapshot :: "snapshot \<Rightarrow> bool" where
  "validate_snapshot s \<longleftrightarrow> snapshot_header_ok s \<and> snapshot_lease_ok s \<and> snapshot_resume_ok s \<and>
     snapshot_checkpoint_ok s \<and> snapshot_reconciliation_ok s \<and> snapshot_outcome_ok s \<and>
     snapshot_last_ok s"

section \<open>The requests as field lists\<close>

definition mutation_fields :: "event \<Rightarrow> field list" where
  "mutation_fields v =
     [FString (ev_ID v), FString (event_kind_text (ev_Kind v)), FUint64 (ev_ExpectedRevision v),
      FTime (ev_At v), FString (reason_code_text (rs_Code (ev_Reason v))), FString (rs_Detail (ev_Reason v)),
      FOpt (map_option (\<lambda>f. [FString (lf_LeaseID f), FString (lf_ExecutorID f), FUint64 (lf_Generation f)])
        (ev_Fence v)),
      FOpt (map_option (\<lambda>l. [FString (ls_LeaseID l), FString (ls_ExecutorID l), FUint64 (ls_Generation l),
          FTime (ls_IssuedAt l), FTime (ls_ExpiresAt l)]) (ev_Lease v)),
      FOpt (map_option (\<lambda>c. [FString (resume_kind_text (rc_Type c)),
          FOpt (map_option (\<lambda>t. [FTime t]) (rc_NotBefore c)),
          FOpt (map_option (\<lambda>t. [FTime t]) (rc_ProbeAfter c)),
          FString (rc_Target c), FString (rc_DependencyActionID c), FString (rc_Signal c)])
        (ev_ResumeCondition v)),
      FOpt (map_option (\<lambda>c. [FUint64 (cp_Sequence c), FString (cp_PayloadDigest c),
          FString (cp_StorageRef c), FTime (cp_CreatedAt c)]) (ev_Checkpoint v)),
      FString (ev_EvidenceRef v), FString (reconciliation_result_text (ev_ReconciliationResult v)),
      FString (ev_ResultRef v), FString (ev_ErrorCode v)]"

definition mutation_shape :: "shape list" where
  "mutation_shape =
     [SString, SString, SUint64, STime, SString, SString,
      SOpt [SString, SString, SUint64],
      SOpt [SString, SString, SUint64, STime, STime],
      SOpt [SString, SOpt [STime], SOpt [STime], SString, SString, SString],
      SOpt [SUint64, SString, SString, STime],
      SString, SString, SString, SString]"

definition acceptance_fields :: "definition_of_action \<Rightarrow> field list" where
  "acceptance_fields d =
     [FString (event_kind_text EventAccept), FString (df_EventID d), FString (df_ActionID d),
      FString (df_ActionDigest d), FString (df_OwnerID d),
      FString (recovery_mode_text (rp_Mode (df_RecoveryPolicy d))),
      FUint32 (rp_MaxAttempts (df_RecoveryPolicy d)), FString (rp_IdempotencyKey (df_RecoveryPolicy d)),
      FString (df_AcceptanceContextDigest d)]"

definition acceptance_shape :: "shape list" where
  "acceptance_shape =
     [SString, SString, SString, SString, SString, SString, SUint32, SString, SString]"

text \<open>The fields an authenticated mutation digest binds, compared as the wire sees them.\<close>

definition same_lease :: "executor_lease \<Rightarrow> executor_lease \<Rightarrow> bool" where
  "same_lease l m \<longleftrightarrow> ls_LeaseID l = ls_LeaseID m \<and> ls_ExecutorID l = ls_ExecutorID m \<and>
     ls_Generation l = ls_Generation m \<and> equal_time (ls_IssuedAt l) (ls_IssuedAt m) \<and>
     equal_time (ls_ExpiresAt l) (ls_ExpiresAt m)"

definition same_resume :: "resume_condition \<Rightarrow> resume_condition \<Rightarrow> bool" where
  "same_resume c d \<longleftrightarrow> resume_kind_text (rc_Type c) = resume_kind_text (rc_Type d) \<and>
     rel_option equal_time (rc_NotBefore c) (rc_NotBefore d) \<and>
     rel_option equal_time (rc_ProbeAfter c) (rc_ProbeAfter d) \<and>
     rc_Target c = rc_Target d \<and> rc_DependencyActionID c = rc_DependencyActionID d \<and>
     rc_Signal c = rc_Signal d"

definition same_checkpoint :: "checkpoint \<Rightarrow> checkpoint \<Rightarrow> bool" where
  "same_checkpoint c d \<longleftrightarrow> cp_Sequence c = cp_Sequence d \<and> cp_PayloadDigest c = cp_PayloadDigest d \<and>
     cp_StorageRef c = cp_StorageRef d \<and> equal_time (cp_CreatedAt c) (cp_CreatedAt d)"

definition same_mutation :: "event \<Rightarrow> event \<Rightarrow> bool" where
  "same_mutation v w \<longleftrightarrow> ev_ID v = ev_ID w \<and>
     event_kind_text (ev_Kind v) = event_kind_text (ev_Kind w) \<and>
     ev_ExpectedRevision v = ev_ExpectedRevision w \<and> equal_time (ev_At v) (ev_At w) \<and>
     reason_code_text (rs_Code (ev_Reason v)) = reason_code_text (rs_Code (ev_Reason w)) \<and>
     rs_Detail (ev_Reason v) = rs_Detail (ev_Reason w) \<and>
     ev_Fence v = ev_Fence w \<and>
     rel_option same_lease (ev_Lease v) (ev_Lease w) \<and>
     rel_option same_resume (ev_ResumeCondition v) (ev_ResumeCondition w) \<and>
     rel_option same_checkpoint (ev_Checkpoint v) (ev_Checkpoint w) \<and>
     ev_EvidenceRef v = ev_EvidenceRef w \<and>
     reconciliation_result_text (ev_ReconciliationResult v) =
       reconciliation_result_text (ev_ReconciliationResult w) \<and>
     ev_ResultRef v = ev_ResultRef w \<and> ev_ErrorCode v = ev_ErrorCode w"

definition same_acceptance :: "definition_of_action \<Rightarrow> definition_of_action \<Rightarrow> bool" where
  "same_acceptance d e \<longleftrightarrow> df_EventID d = df_EventID e \<and> df_ActionID d = df_ActionID e \<and>
     df_ActionDigest d = df_ActionDigest e \<and> df_OwnerID d = df_OwnerID e \<and>
     rp_Mode (df_RecoveryPolicy d) = rp_Mode (df_RecoveryPolicy e) \<and>
     rp_MaxAttempts (df_RecoveryPolicy d) = rp_MaxAttempts (df_RecoveryPolicy e) \<and>
     rp_IdempotencyKey (df_RecoveryPolicy d) = rp_IdempotencyKey (df_RecoveryPolicy e) \<and>
     df_AcceptanceContextDigest d = df_AcceptanceContextDigest e"

text \<open>Printable ASCII without blanks and markup, on which the string checks are easy to evaluate.\<close>

definition plain :: "string \<Rightarrow> bool" where
  "plain s \<longleftrightarrow> list_all (\<lambda>c. in_range 33 126 (byte c) \<and> \<not> markup_rune (byte c)) s"

section \<open>Lemmas\<close>

lemma enc_optional_absent: "enc_optional False f e = enc_optional False None e"
  by (simp add: enc_optional_def split: prod.split)

lemma steps_simps [simp]: "steps [] e = e" "steps (m # ms) e = steps ms (m e)"
  by (simp_all add: steps_def)

lemma enc_optional_field:
  assumes "\<And>y e. x = Some y \<Longrightarrow> g e = enc_fields (h y) e"
  shows "enc_optional (x \<noteq> None) (Some g) e = enc_field (FOpt (map_option h x)) e"
proof (cases x)
  case None
  then show ?thesis by (simp add: enc_optional_absent [of "Some g"])
next
  case (Some y)
  then have "g = enc_fields (h y)"
    using assms by blast
  with Some show ?thesis by simp
qed

lemma fence_field:
  "enc_optional (x \<noteq> None) (Some (steps
      [enc_string (lf_LeaseID (the x)), enc_string (lf_ExecutorID (the x)),
       enc_uint64 (lf_Generation (the x))])) e =
   enc_field (FOpt (map_option
     (\<lambda>f. [FString (lf_LeaseID f), FString (lf_ExecutorID f), FUint64 (lf_Generation f)]) x)) e"
  by (rule enc_optional_field) simp

lemma lease_field:
  "enc_optional (x \<noteq> None) (Some (steps
      [enc_string (ls_LeaseID (the x)), enc_string (ls_ExecutorID (the x)),
       enc_uint64 (ls_Generation (the x)), enc_time (ls_IssuedAt (the x)),
       enc_time (ls_ExpiresAt (the x))])) e =
   enc_field (FOpt (map_option (\<lambda>l. [FString (ls_LeaseID l), FString (ls_ExecutorID l),
     FUint64 (ls_Generation l), FTime (ls_IssuedAt l), FTime (ls_ExpiresAt l)]) x)) e"
  by (rule enc_optional_field) simp

lemma time_field:
  "enc_optional (x \<noteq> None) (Some (enc_time (the x))) e =
   enc_field (FOpt (map_option (\<lambda>t. [FTime t]) x)) e"
  by (rule enc_optional_field) simp

lemma resume_field:
  "enc_optional (x \<noteq> None) (Some (steps
      [enc_string (resume_kind_text (rc_Type (the x))),
       enc_optional (rc_NotBefore (the x) \<noteq> None) (Some (enc_time (the (rc_NotBefore (the x))))),
       enc_optional (rc_ProbeAfter (the x) \<noteq> None) (Some (enc_time (the (rc_ProbeAfter (the x))))),
       enc_string (rc_Target (the x)), enc_string (rc_DependencyActionID (the x)),
       enc_string (rc_Signal (the x))])) e =
   enc_field (FOpt (map_option (\<lambda>c. [FString (resume_kind_text (rc_Type c)),
     FOpt (map_option (\<lambda>t. [FTime t]) (rc_NotBefore c)),
     FOpt (map_option (\<lambda>t. [FTime t]) (rc_ProbeAfter c)),
     FString (rc_Target c), FString (rc_DependencyActionID c), FString (rc_Signal c)]) x)) e"
  by (rule enc_optional_field) (simp only: time_field steps_simps option.sel enc_fields.simps enc_field.simps(1))

lemma checkpoint_field:
  "enc_optional (x \<noteq> None) (Some (steps
      [enc_uint64 (cp_Sequence (the x)), enc_string (cp_PayloadDigest (the x)),
       enc_string (cp_StorageRef (the x)), enc_time (cp_CreatedAt (the x))])) e =
   enc_field (FOpt (map_option (\<lambda>c. [FUint64 (cp_Sequence c), FString (cp_PayloadDigest c),
     FString (cp_StorageRef c), FTime (cp_CreatedAt c)]) x)) e"
  by (rule enc_optional_field) simp

lemma mutation_transcript_eq:
  "mutation_request_transcript v =
     map_sum ErrCanonicalize id (transcript MutationRequestSchemaV1 (mutation_fields v))"
  unfolding mutation_request_transcript_def mutation_fields_def transcript_def
  by (simp only: steps_simps fence_field lease_field resume_field checkpoint_field
      enc_fields.simps enc_field.simps(1-4))

lemma acceptance_transcript_eq:
  "acceptance_request_transcript d = Inr bs \<longleftrightarrow>
     validate_id (df_EventID d) \<and> validate_id (df_ActionID d) \<and> validate_digest (df_ActionDigest d) \<and>
     validate_id (df_OwnerID d) \<and> validate_recovery_policy (df_RecoveryPolicy d) \<and>
     validate_digest (df_AcceptanceContextDigest d) \<and>
     transcript AcceptanceRequestSchemaV1 (acceptance_fields d) = Inr bs"
  by (cases "transcript AcceptanceRequestSchemaV1 (acceptance_fields d)")
    (auto simp: acceptance_request_transcript_def acceptance_fields_def transcript_def)

lemma mutation_fits: "fits_all mutation_shape (mutation_fields v)"
  by (auto simp: mutation_shape_def mutation_fields_def map_option_case split: option.splits)

lemma acceptance_fits: "fits_all acceptance_shape (acceptance_fields d)"
  by (simp add: acceptance_shape_def acceptance_fields_def)

lemma utc_eq_iff: "utc t = utc u \<longleftrightarrow> equal_time t u"
  by (cases t; cases u) (simp add: utc_def equal_time_def)

lemma norm_optional:
  "norm (FOpt (map_option f x)) = norm (FOpt (map_option f y)) \<longleftrightarrow>
     rel_option (\<lambda>a b. norms (f a) = norms (f b)) x y"
  by (cases x; cases y) simp_all

lemma rel_option_eq_on: "rel_option (\<lambda>a b. f a = f b) x y \<longleftrightarrow> map_option f x = map_option f y"
  by (cases x; cases y) simp_all

lemma norms_simps:
  "norms (f # fs) = norms (g # gs) \<longleftrightarrow> norm f = norm g \<and> norms fs = norms gs"
  "norm (FString a) = norm (FString b) \<longleftrightarrow> a = b"
  "norm (FUint32 v) = norm (FUint32 w) \<longleftrightarrow> v = w"
  "norm (FUint64 x) = norm (FUint64 y) \<longleftrightarrow> x = y"
  "norm (FTime t) = norm (FTime u) \<longleftrightarrow> equal_time t u"
  by (simp_all add: utc_eq_iff)

lemma same_fence_iff:
  "rel_option (\<lambda>a b. lf_LeaseID a = lf_LeaseID b \<and> lf_ExecutorID a = lf_ExecutorID b \<and>
     lf_Generation a = lf_Generation b) x y \<longleftrightarrow> x = (y :: lease_fence option)"
  by (cases x; cases y) auto

lemma norms_mutation_fields: "norms (mutation_fields v) = norms (mutation_fields w) \<longleftrightarrow> same_mutation v w"
  unfolding mutation_fields_def same_mutation_def same_lease_def same_resume_def same_checkpoint_def
  by (simp only: norms_simps norm_optional simp_thms same_fence_iff)

lemma mutation_digest_Inr:
  "mutation_request_digest v = Inr d \<longleftrightarrow>
     (\<exists>bs. transcript MutationRequestSchemaV1 (mutation_fields v) = Inr bs \<and> d = sha256_text bs)"
  by (cases "transcript MutationRequestSchemaV1 (mutation_fields v)")
    (auto simp: mutation_request_digest_def mutation_transcript_eq)

lemma acceptance_digest_Inr:
  "acceptance_request_digest d = Inr x \<longleftrightarrow>
     (\<exists>bs. acceptance_request_transcript d = Inr bs \<and> x = sha256_text bs)"
  by (cases "acceptance_request_transcript d") (auto simp: acceptance_request_digest_def)

section \<open>Evaluation of the string checks\<close>

lemma plain_printable: "plain s \<Longrightarrow> printable s"
  by (auto simp: plain_def printable_def list_all_iff)

lemma safe_text_plain:
  assumes "plain s"
  shows "safe_text s"
  using assms printable_ascii [OF plain_printable [OF assms]]
  by (auto simp: safe_text_def valid_utf8_ascii runes_ascii plain_def list_all_iff not_control_printable)

lemma validate_id_plain: "plain s \<Longrightarrow> s \<noteq> [] \<Longrightarrow> length s \<le> max_id_bytes \<Longrightarrow> validate_id s"
  by (simp add: validate_id_def safe_text_plain trim_space_printable plain_printable)

lemma validate_reference_plain:
  "plain s \<Longrightarrow> s \<noteq> [] \<Longrightarrow> length s \<le> max_reference_bytes \<Longrightarrow> validate_reference s"
  by (simp add: validate_reference_def safe_text_plain trim_space_printable plain_printable)

lemma safe_text_Nil [simp]: "safe_text []"
  by (simp add: safe_text_plain plain_def)

lemma not_validate_id_Nil [simp]: "\<not> validate_id []"
  by (simp add: validate_id_def)

lemma validate_digest_sha256_text [simp]: "validate_digest (sha256_text m)"
proof -
  have "to_lower (sha256_text m) = sha256_text m"
    using hex_encode_lower [of "sha256 m"]
    by (simp add: to_lower_def sha256_text_def sha256_prefix_def lower_char_def byte_def in_range_def)
  then show ?thesis
    by (simp add: validate_digest_def has_prefix_def trim_prefix_def hex_encode_decodes)
      (simp add: sha256_text_def sha256_prefix_def hex_encode_decodes)
qed

section \<open>Properties\<close>

lemma mutation_digest_unique:
  assumes "mutation_request_digest v = Inr d" and "mutation_request_digest w = Inr d"
  shows "same_mutation v w \<or>
    (\<exists>m m'. mutation_request_transcript v = Inr m \<and> mutation_request_transcript w = Inr m' \<and>
      sha256_collision m m')"
proof -
  from assms obtain m m' where m: "transcript MutationRequestSchemaV1 (mutation_fields v) = Inr m"
      "transcript MutationRequestSchemaV1 (mutation_fields w) = Inr m'" "sha256_text m = sha256_text m'"
    by (auto simp: mutation_digest_Inr)
  show ?thesis
  proof (cases "m = m'")
    case True
    with m show ?thesis
      using transcript_unique mutation_fits norms_mutation_fields by blast
  next
    case False
    with m show ?thesis
      using sha256_text_inj [of m m'] by (auto simp: mutation_transcript_eq)
  qed
qed

lemma recovery_mode_text_inj:
  "validate_recovery_policy p \<Longrightarrow> validate_recovery_policy q \<Longrightarrow>
     recovery_mode_text (rp_Mode p) = recovery_mode_text (rp_Mode q) \<Longrightarrow> rp_Mode p = rp_Mode q"
  by (cases "rp_Mode p"; cases "rp_Mode q") (simp_all add: validate_recovery_policy_def)

lemma norms_acceptance_fields:
  assumes "validate_recovery_policy (df_RecoveryPolicy d)" and "validate_recovery_policy (df_RecoveryPolicy e)"
    and "norms (acceptance_fields d) = norms (acceptance_fields e)"
  shows "same_acceptance d e"
  using assms recovery_mode_text_inj [OF assms(1,2)]
  by (simp add: acceptance_fields_def same_acceptance_def)

lemma acceptance_digest_unique:
  assumes "acceptance_request_digest d = Inr x" and "acceptance_request_digest e = Inr x"
  shows "same_acceptance d e \<or>
    (\<exists>m m'. acceptance_request_transcript d = Inr m \<and> acceptance_request_transcript e = Inr m' \<and>
      sha256_collision m m')"
proof -
  from assms obtain m m' where m: "acceptance_request_transcript d = Inr m"
      "acceptance_request_transcript e = Inr m'" "sha256_text m = sha256_text m'"
    by (auto simp: acceptance_digest_Inr)
  show ?thesis
  proof (cases "m = m'")
    case True
    from m(1,2) [unfolded acceptance_transcript_eq True] have
        "validate_recovery_policy (df_RecoveryPolicy d)" "validate_recovery_policy (df_RecoveryPolicy e)"
        "norms (acceptance_fields d) = norms (acceptance_fields e)"
      by (blast intro: transcript_unique [OF _ _ acceptance_fits acceptance_fits])+
    then show ?thesis
      using norms_acceptance_fields by blast
  next
    case False
    with m show ?thesis
      using sha256_text_inj [of m m'] by auto
  qed
qed

end
