(* ===== verification/Action_Machine.thy ===== *)
theory Action_Machine
  imports Action_Validation
begin

text \<open>
  Package \<^verbatim>\<open>pkg/actionlifecycle\<close>, \<^verbatim>\<open>machine.go\<close>: acceptance of a new Action (\<^verbatim>\<open>NewSnapshot\<close>) and the
  compare-and-swap transition (\<^verbatim>\<open>Apply\<close>), with the checks they run. Both are pure: the caller
  commits the returned snapshot and record. The copies made by \<^verbatim>\<open>cloneSnapshot\<close> are values here.
\<close>

section \<open>Acceptance\<close>

definition validate_authenticated_acceptance ::
    "definition_of_action \<Rightarrow> authenticated_operation \<Rightarrow> action_error + unit" where
  "validate_authenticated_acceptance d a =
     (if \<not> list_all validate_id [au_ActorID a, au_AuthorizationID a, au_ProofID a, au_VerifierNonce a]
        then Inl ErrInvalidEvent
      else if au_Operation a \<noteq> EventAccept \<or> au_ActionID a \<noteq> df_ActionID d \<or>
          au_ActionDigest a \<noteq> df_ActionDigest d then Inl ErrInvalidEvent
      else if \<not> validate_digest (au_MutationDigest a) then Inl ErrInvalidEvent
      else and_then (acceptance_request_digest d) (\<lambda>digest.
        if au_MutationDigest a \<noteq> digest then Inl ErrInvalidEvent
        else if is_zero (au_IssuedAt a) \<or> is_zero (au_ExpiresAt a) \<or>
            after (au_IssuedAt a) (df_AcceptedAt d) \<or> \<not> after (au_ExpiresAt a) (df_AcceptedAt d)
          then Inl ErrInvalidEvent
        else Inr ()))"

definition acceptance_record :: "definition_of_action \<Rightarrow> authenticated_operation \<Rightarrow> transition_record" where
  "acceptance_record d a =
     \<lparr>tr_EventID = df_EventID d, tr_Kind = EventAccept, tr_From = no_state, tr_To = StateAccepted,
      tr_Reason = \<lparr>rs_Code = ReasonAccepted, rs_Detail = []\<rparr>, tr_At = utc (df_AcceptedAt d),
      tr_ActorID = au_ActorID a, tr_AuthorizationID = au_AuthorizationID a, tr_ProofID = au_ProofID a,
      tr_MutationDigest = au_MutationDigest a,
      tr_AcceptanceContextDigest = df_AcceptanceContextDigest d,
      tr_EvidenceRef = [], tr_LeaseGeneration = 0\<rparr>"

definition accepted_snapshot :: "definition_of_action \<Rightarrow> authenticated_operation \<Rightarrow> snapshot" where
  "accepted_snapshot d a =
     \<lparr>sn_Schema = SchemaV1, sn_ActionID = df_ActionID d, sn_ActionDigest = df_ActionDigest d,
      sn_OwnerID = df_OwnerID d, sn_Revision = 1, sn_State = StateAccepted,
      sn_Reason = \<lparr>rs_Code = ReasonAccepted, rs_Detail = []\<rparr>, sn_LeaseGeneration = 0,
      sn_ExecutorLease = None, sn_ResumeCondition = None, sn_Checkpoint = None,
      sn_RecoveryPolicy = df_RecoveryPolicy d, sn_RecoveryAttempts = 0, sn_Reconciliation = None,
      sn_Outcome = None, sn_LastTransition = acceptance_record d a,
      sn_CreatedAt = utc (df_AcceptedAt d), sn_UpdatedAt = utc (df_AcceptedAt d)\<rparr>"

definition new_snapshot :: "definition_of_action \<Rightarrow> action_error + transition" where
  "new_snapshot d =
     (if is_zero (df_AcceptedAt d) then Inl ErrInvalidEvent
      else if \<not> validate_id (df_EventID d) then Inl ErrInvalidEvent
      else if \<not> validate_id (df_ActionID d) then Inl ErrInvalidEvent
      else if \<not> validate_digest (df_ActionDigest d) then Inl ErrInvalidEvent
      else if \<not> validate_id (df_OwnerID d) then Inl ErrInvalidEvent
      else if \<not> validate_recovery_policy (df_RecoveryPolicy d) then Inl ErrInvalidEvent
      else case df_Auth d of
        None \<Rightarrow> Inl ErrAuthenticationRequired
      | Some a \<Rightarrow>
          and_then (validate_authenticated_acceptance d a) (\<lambda>_.
            if \<not> validate_snapshot (accepted_snapshot d a) then Inl ErrInvalidSnapshot
            else Inr \<lparr>tn_Snapshot = accepted_snapshot d a, tn_Record = acceptance_record d a,
                      tn_Auth = Some a\<rparr>))"

section \<open>Event checks\<close>

definition validate_authenticated_operation ::
    "snapshot \<Rightarrow> event \<Rightarrow> authenticated_operation \<Rightarrow> action_error + unit" where
  "validate_authenticated_operation cur v a =
     (if \<not> list_all validate_id [au_ActorID a, au_AuthorizationID a, au_ProofID a, au_VerifierNonce a]
        then Inl ErrInvalidEvent
      else if au_Operation a \<noteq> ev_Kind v \<or> au_ActionID a \<noteq> sn_ActionID cur \<or>
          au_ActionDigest a \<noteq> sn_ActionDigest cur then Inl ErrInvalidEvent
      else if \<not> validate_digest (au_MutationDigest a) then Inl ErrInvalidEvent
      else case mutation_request_digest v of
        Inl _ \<Rightarrow> Inl ErrInvalidEvent
      | Inr digest \<Rightarrow>
          if au_MutationDigest a \<noteq> digest then Inl ErrInvalidEvent
          else if is_zero (au_IssuedAt a) \<or> is_zero (au_ExpiresAt a) \<or>
              after (au_IssuedAt a) (ev_At v) \<or> \<not> after (au_ExpiresAt a) (ev_At v)
            then Inl ErrInvalidEvent
          else Inr ())"

definition validate_event :: "snapshot \<Rightarrow> event \<Rightarrow> action_error + unit" where
  "validate_event cur v =
     (if \<not> validate_id (ev_ID v) then Inl ErrInvalidEvent
      else if \<not> valid_event_kind (ev_Kind v) \<or> ev_Kind v = EventAccept then Inl ErrInvalidEvent
      else if is_zero (ev_At v) \<or> before (ev_At v) (sn_UpdatedAt cur) then Inl ErrInvalidEvent
      else if \<not> validate_reason (ev_Reason v) then Inl ErrInvalidEvent
      else if \<not> reason_allowed (ev_Kind v) (rs_Code (ev_Reason v)) then Inl ErrInvalidEvent
      else if ev_EvidenceRef v \<noteq> [] \<and> \<not> validate_reference (ev_EvidenceRef v) then Inl ErrInvalidEvent
      else if ev_ResultRef v \<noteq> [] \<and> \<not> validate_reference (ev_ResultRef v) then Inl ErrInvalidEvent
      else if ev_Kind v = EventLeaseExpired then
        (if ev_Auth v \<noteq> None then Inl ErrInvalidEvent else Inr ())
      else case ev_Auth v of
        None \<Rightarrow> Inl ErrAuthenticationRequired
      | Some a \<Rightarrow> validate_authenticated_operation cur v a)"

definition acquire_lease :: "snapshot \<Rightarrow> event \<Rightarrow> uint64 \<Rightarrow> action_error + snapshot" where
  "acquire_lease nxt v generation =
     (case ev_Lease v of
        None \<Rightarrow> Inl ErrLeaseRequired
      | Some l \<Rightarrow>
          if \<not> validate_lease l then Inl ErrInvalidEvent
          else if ls_Generation l \<noteq> generation \<or> \<not> equal_time (ls_IssuedAt l) (ev_At v) \<or>
              \<not> after (ls_ExpiresAt l) (ev_At v) then Inl ErrInvalidEvent
          else case ev_Auth v of
            None \<Rightarrow> Inl ErrInvalidEvent
          | Some a \<Rightarrow>
              if au_ActorID a \<noteq> ls_ExecutorID l then Inl ErrInvalidEvent
              else if after (ls_ExpiresAt l) (au_ExpiresAt a) then Inl ErrInvalidEvent
              else Inr (nxt\<lparr>sn_ExecutorLease := Some l, sn_LeaseGeneration := generation\<rparr>))"

definition require_current_executor :: "snapshot \<Rightarrow> event \<Rightarrow> action_error + unit" where
  "require_current_executor cur v =
     (case sn_ExecutorLease cur of
        None \<Rightarrow> Inl ErrLeaseRequired
      | Some l \<Rightarrow>
          (case ev_Fence v of
             None \<Rightarrow> Inl ErrLeaseRequired
           | Some f \<Rightarrow>
               if \<not> before (ev_At v) (ls_ExpiresAt l) then Inl ErrLeaseExpired
               else if lf_LeaseID f \<noteq> ls_LeaseID l \<or> lf_ExecutorID f \<noteq> ls_ExecutorID l \<or>
                   lf_Generation f \<noteq> ls_Generation l then Inl ErrLeaseFenceMismatch
               else case ev_Auth v of
                 None \<Rightarrow> Inl ErrInvalidEvent
               | Some a \<Rightarrow>
                   if au_ActorID a \<noteq> ls_ExecutorID l then Inl ErrInvalidEvent else Inr ()))"

definition update_checkpoint :: "snapshot \<Rightarrow> checkpoint option \<Rightarrow> action_error + snapshot" where
  "update_checkpoint nxt cp =
     (case cp of
        None \<Rightarrow> Inr nxt
      | Some c \<Rightarrow>
          if \<not> validate_checkpoint c then Inl ErrInvalidEvent
          else if (case sn_Checkpoint nxt of None \<Rightarrow> False | Some old \<Rightarrow> cp_Sequence c \<le> cp_Sequence old)
            then Inl ErrInvalidEvent
          else Inr (nxt\<lparr>sn_Checkpoint := Some c\<rparr>))"

definition resume_satisfied :: "resume_condition \<Rightarrow> gotime \<Rightarrow> string \<Rightarrow> action_error + unit" where
  "resume_satisfied c at evidence =
     (if rc_Type c = ResumeAtTime then
        (case rc_NotBefore c of
           None \<Rightarrow> Inl ErrInvalidTransition
         | Some t \<Rightarrow> if before at t then Inl ErrInvalidTransition else Inr ())
      else if evidence = [] then Inl ErrInvalidTransition
      else Inr ())"

definition required_reconciliation :: "gotime \<Rightarrow> reconciliation" where
  "required_reconciliation at =
     \<lparr>rn_Status = ReconciliationRequired, rn_Attempt = 0, rn_EvidenceRef = [], rn_Result = no_result,
      rn_UpdatedAt = at\<rparr>"

definition terminal_outcome :: "outcome_status \<Rightarrow> event \<Rightarrow> gotime \<Rightarrow> outcome" where
  "terminal_outcome st v at =
     \<lparr>oc_Status = st, oc_ResultRef = ev_ResultRef v, oc_ErrorCode = ev_ErrorCode v, oc_RecordedAt = at\<rparr>"

definition make_record :: "snapshot \<Rightarrow> snapshot \<Rightarrow> event \<Rightarrow> transition_record" where
  "make_record cur nxt v =
     \<lparr>tr_EventID = ev_ID v, tr_Kind = ev_Kind v, tr_From = sn_State cur, tr_To = sn_State nxt,
      tr_Reason = ev_Reason v, tr_At = utc (ev_At v),
      tr_ActorID = (case ev_Auth v of None \<Rightarrow> [] | Some a \<Rightarrow> au_ActorID a),
      tr_AuthorizationID = (case ev_Auth v of None \<Rightarrow> [] | Some a \<Rightarrow> au_AuthorizationID a),
      tr_ProofID = (case ev_Auth v of None \<Rightarrow> [] | Some a \<Rightarrow> au_ProofID a),
      tr_MutationDigest = (case ev_Auth v of None \<Rightarrow> [] | Some a \<Rightarrow> au_MutationDigest a),
      tr_AcceptanceContextDigest = [], tr_EvidenceRef = ev_EvidenceRef v,
      tr_LeaseGeneration = sn_LeaseGeneration nxt\<rparr>"

section \<open>The transition function\<close>

text \<open>One function per group of cases of the switch in \<^verbatim>\<open>Apply\<close>; each returns the changed \<^verbatim>\<open>next\<close>.\<close>

definition apply_start :: "snapshot \<Rightarrow> event \<Rightarrow> action_error + snapshot" where
  "apply_start cur v =
     (if sn_State cur \<noteq> StateAccepted then Inl ErrInvalidTransition
      else and_then (acquire_lease cur v (sn_LeaseGeneration cur + 1)) (\<lambda>nxt.
        Inr (nxt\<lparr>sn_State := StateRunning\<rparr>)))"

definition apply_wait :: "snapshot \<Rightarrow> event \<Rightarrow> action_error + snapshot" where
  "apply_wait cur v =
     (if sn_State cur \<noteq> StateRunning then Inl ErrInvalidTransition
      else and_then (require_current_executor cur v) (\<lambda>_.
        case ev_ResumeCondition v of
          None \<Rightarrow> Inl ErrInvalidEvent
        | Some c \<Rightarrow>
            if \<not> validate_resume_condition c then Inl ErrInvalidEvent
            else and_then (update_checkpoint cur (ev_Checkpoint v)) (\<lambda>nxt.
              Inr (nxt\<lparr>sn_State := StateWaiting, sn_ExecutorLease := None, sn_ResumeCondition := Some c\<rparr>))))"

definition apply_pause :: "snapshot \<Rightarrow> event \<Rightarrow> action_error + snapshot" where
  "apply_pause cur v =
     (if sn_State cur \<noteq> StateRunning \<and> sn_State cur \<noteq> StateWaiting then Inl ErrInvalidTransition
      else and_then (if sn_State cur = StateRunning then require_current_executor cur v else Inr ()) (\<lambda>_.
        and_then (update_checkpoint cur (ev_Checkpoint v)) (\<lambda>nxt.
          Inr (nxt\<lparr>sn_State := StatePaused, sn_ExecutorLease := None, sn_ResumeCondition := None\<rparr>))))"

definition apply_resume :: "snapshot \<Rightarrow> event \<Rightarrow> action_error + snapshot" where
  "apply_resume cur v =
     (if sn_State cur \<noteq> StateWaiting \<and> sn_State cur \<noteq> StatePaused then Inl ErrInvalidTransition
      else and_then
        (if sn_State cur = StateWaiting
         then (case sn_ResumeCondition cur of
             None \<Rightarrow> Inl PanicNilDereference
           | Some c \<Rightarrow> resume_satisfied c (utc (ev_At v)) (ev_EvidenceRef v))
         else Inr ()) (\<lambda>_.
        and_then (acquire_lease cur v (sn_LeaseGeneration cur + 1)) (\<lambda>nxt.
          Inr (nxt\<lparr>sn_State := StateRunning, sn_ResumeCondition := None\<rparr>))))"

definition apply_request_cancel :: "snapshot \<Rightarrow> event \<Rightarrow> action_error + snapshot" where
  "apply_request_cancel cur v =
     (case sn_State cur of
        StateRunning \<Rightarrow> Inr (cur\<lparr>sn_State := StateCanceling\<rparr>)
      | StateOrphaned \<Rightarrow>
          Inr (cur\<lparr>sn_State := StateIndeterminate,
                   sn_Reconciliation := Some (required_reconciliation (utc (ev_At v)))\<rparr>)
      | st \<Rightarrow>
          if st = StateAccepted \<or> st = StateWaiting \<or> st = StatePaused
          then Inr (cur\<lparr>sn_State := StateCanceled, sn_ExecutorLease := None, sn_ResumeCondition := None,
                        sn_Outcome := Some (terminal_outcome OutcomeCanceled v (utc (ev_At v)))\<rparr>)
          else Inl ErrInvalidTransition)"

definition apply_complete :: "snapshot \<Rightarrow> event \<Rightarrow> action_error + snapshot" where
  "apply_complete cur v =
     (if sn_State cur \<noteq> StateRunning \<and> sn_State cur \<noteq> StateCanceling then Inl ErrInvalidTransition
      else and_then (require_current_executor cur v) (\<lambda>_.
        Inr (cur\<lparr>sn_State := StateSucceeded, sn_ExecutorLease := None,
                 sn_Outcome := Some (terminal_outcome OutcomeSucceeded v (utc (ev_At v)))\<rparr>)))"

definition apply_fail :: "snapshot \<Rightarrow> event \<Rightarrow> action_error + snapshot" where
  "apply_fail cur v =
     (if sn_State cur \<noteq> StateRunning \<and> sn_State cur \<noteq> StateCanceling then Inl ErrInvalidTransition
      else and_then (require_current_executor cur v) (\<lambda>_.
        if \<not> validate_id (ev_ErrorCode v) then Inl ErrInvalidEvent
        else Inr (cur\<lparr>sn_State := StateFailed, sn_ExecutorLease := None,
                      sn_Outcome := Some (terminal_outcome OutcomeFailed v (utc (ev_At v)))\<rparr>)))"

definition apply_confirm_canceled :: "snapshot \<Rightarrow> event \<Rightarrow> action_error + snapshot" where
  "apply_confirm_canceled cur v =
     (if sn_State cur \<noteq> StateCanceling then Inl ErrInvalidTransition
      else and_then (require_current_executor cur v) (\<lambda>_.
        Inr (cur\<lparr>sn_State := StateCanceled, sn_ExecutorLease := None,
                 sn_Outcome := Some (terminal_outcome OutcomeCanceled v (utc (ev_At v)))\<rparr>)))"

definition apply_mark_indeterminate :: "snapshot \<Rightarrow> event \<Rightarrow> action_error + snapshot" where
  "apply_mark_indeterminate cur v =
     (if sn_State cur \<noteq> StateRunning \<and> sn_State cur \<noteq> StateCanceling \<and> sn_State cur \<noteq> StateOrphaned
        then Inl ErrInvalidTransition
      else and_then
        (if requires_executor_lease (sn_State cur) then require_current_executor cur v else Inr ()) (\<lambda>_.
          Inr (cur\<lparr>sn_State := StateIndeterminate, sn_ExecutorLease := None, sn_ResumeCondition := None,
                   sn_Reconciliation := Some (required_reconciliation (utc (ev_At v)))\<rparr>)))"

definition apply_lease_expired :: "snapshot \<Rightarrow> event \<Rightarrow> action_error + snapshot" where
  "apply_lease_expired cur v =
     (if \<not> requires_executor_lease (sn_State cur) then Inl ErrInvalidTransition
      else case sn_ExecutorLease cur of
        None \<Rightarrow> Inl ErrInvalidTransition
      | Some l \<Rightarrow>
          if before (utc (ev_At v)) (ls_ExpiresAt l) then Inl ErrInvalidEvent
          else Inr (cur\<lparr>sn_State := StateOrphaned, sn_ExecutorLease := None\<rparr>))"

definition takeover_permitted :: "snapshot \<Rightarrow> event \<Rightarrow> action_error + unit" where
  "takeover_permitted cur v =
     (case rp_Mode (sn_RecoveryPolicy cur) of
        RecoveryResumeFromCheckpoint \<Rightarrow>
          (if sn_Checkpoint cur = None then Inl ErrInvalidTransition else Inr ())
      | RecoveryReconcileBeforeResume \<Rightarrow> Inl ErrReconciliationRequired
      | RecoveryManual \<Rightarrow> (if ev_EvidenceRef v = [] then Inl ErrInvalidEvent else Inr ())
      | _ \<Rightarrow> Inr ())"

definition apply_takeover :: "snapshot \<Rightarrow> event \<Rightarrow> action_error + snapshot" where
  "apply_takeover cur v =
     (if sn_State cur \<noteq> StateOrphaned then Inl ErrInvalidTransition
      else if sn_RecoveryAttempts cur \<ge> rp_MaxAttempts (sn_RecoveryPolicy cur) then Inl ErrRecoveryExhausted
      else and_then (takeover_permitted cur v) (\<lambda>_.
        and_then (acquire_lease cur v (sn_LeaseGeneration cur + 1)) (\<lambda>nxt.
          Inr (nxt\<lparr>sn_State := StateRunning, sn_RecoveryAttempts := sn_RecoveryAttempts nxt + 1\<rparr>))))"

definition apply_begin_reconciliation :: "snapshot \<Rightarrow> event \<Rightarrow> action_error + snapshot" where
  "apply_begin_reconciliation cur v =
     (if sn_State cur \<noteq> StateIndeterminate \<and> sn_State cur \<noteq> StateOrphaned then Inl ErrInvalidTransition
      else Inr (cur\<lparr>sn_State := StateIndeterminate, sn_ExecutorLease := None,
        sn_Reconciliation := Some
          \<lparr>rn_Status = ReconciliationRunning,
           rn_Attempt = (case sn_Reconciliation cur of None \<Rightarrow> 1 | Some r \<Rightarrow> rn_Attempt r + 1),
           rn_EvidenceRef = [], rn_Result = no_result, rn_UpdatedAt = utc (ev_At v)\<rparr>\<rparr>))"

definition apply_resolve_reconciliation :: "snapshot \<Rightarrow> event \<Rightarrow> action_error + snapshot" where
  "apply_resolve_reconciliation cur v =
     (case sn_Reconciliation cur of
        None \<Rightarrow> Inl ErrInvalidTransition
      | Some r \<Rightarrow>
          if sn_State cur \<noteq> StateIndeterminate \<or> rn_Status r \<noteq> ReconciliationRunning
            then Inl ErrInvalidTransition
          else if \<not> valid_reconciliation_result (ev_ReconciliationResult v) \<or> ev_EvidenceRef v = []
            then Inl ErrInvalidEvent
          else let nxt = cur\<lparr>sn_Reconciliation := Some
                 \<lparr>rn_Status = ReconciliationResolved, rn_Attempt = rn_Attempt r,
                  rn_EvidenceRef = ev_EvidenceRef v, rn_Result = ev_ReconciliationResult v,
                  rn_UpdatedAt = utc (ev_At v)\<rparr>\<rparr>;
               outcome = (\<lambda>st. Some (terminal_outcome st v (utc (ev_At v)))) in
            (case ev_ReconciliationResult v of
               ReconciliationNoEffect \<Rightarrow> Inr (nxt\<lparr>sn_State := StatePaused\<rparr>)
             | ReconciliationSucceeded \<Rightarrow>
                 Inr (nxt\<lparr>sn_State := StateSucceeded, sn_Outcome := outcome OutcomeSucceeded\<rparr>)
             | ReconciliationFailed \<Rightarrow>
                 Inr (nxt\<lparr>sn_State := StateFailed, sn_Outcome := outcome OutcomeFailed\<rparr>)
             | ReconciliationCanceled \<Rightarrow>
                 Inr (nxt\<lparr>sn_State := StateCanceled, sn_Outcome := outcome OutcomeCanceled\<rparr>)
             | _ \<Rightarrow> Inr nxt))"

definition apply_renew_lease :: "snapshot \<Rightarrow> event \<Rightarrow> action_error + snapshot" where
  "apply_renew_lease cur v =
     (if \<not> requires_executor_lease (sn_State cur) then Inl ErrInvalidTransition
      else and_then (require_current_executor cur v) (\<lambda>_.
        case ev_Lease v of
          None \<Rightarrow> Inl ErrInvalidEvent
        | Some l \<Rightarrow>
            (case sn_ExecutorLease cur of
               None \<Rightarrow> Inl PanicNilDereference
             | Some c \<Rightarrow>
                 if ls_LeaseID l \<noteq> ls_LeaseID c \<or> ls_ExecutorID l \<noteq> ls_ExecutorID c \<or>
                     ls_Generation l \<noteq> ls_Generation c \<or> \<not> equal_time (ls_IssuedAt l) (ls_IssuedAt c) \<or>
                     \<not> after (ls_ExpiresAt l) (ls_ExpiresAt c) then Inl ErrInvalidEvent
                 else case ev_Auth v of
                   None \<Rightarrow> Inl ErrInvalidEvent
                 | Some a \<Rightarrow>
                     if after (ls_ExpiresAt l) (au_ExpiresAt a) then Inl ErrInvalidEvent
                     else Inr (cur\<lparr>sn_ExecutorLease := Some l\<rparr>))))"

fun apply_kind :: "event_kind \<Rightarrow> snapshot \<Rightarrow> event \<Rightarrow> action_error + snapshot" where
  "apply_kind EventStart cur v = apply_start cur v"
| "apply_kind EventWait cur v = apply_wait cur v"
| "apply_kind EventPause cur v = apply_pause cur v"
| "apply_kind EventResume cur v = apply_resume cur v"
| "apply_kind EventRequestCancel cur v = apply_request_cancel cur v"
| "apply_kind EventComplete cur v = apply_complete cur v"
| "apply_kind EventFail cur v = apply_fail cur v"
| "apply_kind EventConfirmCanceled cur v = apply_confirm_canceled cur v"
| "apply_kind EventMarkIndeterminate cur v = apply_mark_indeterminate cur v"
| "apply_kind EventLeaseExpired cur v = apply_lease_expired cur v"
| "apply_kind EventTakeover cur v = apply_takeover cur v"
| "apply_kind EventBeginReconciliation cur v = apply_begin_reconciliation cur v"
| "apply_kind EventResolveReconciliation cur v = apply_resolve_reconciliation cur v"
| "apply_kind EventRenewLease cur v = apply_renew_lease cur v"
| "apply_kind EventAccept cur v = Inl ErrInvalidEvent"
| "apply_kind (EventOther s) cur v = Inl ErrInvalidEvent"

definition finish_snapshot :: "snapshot \<Rightarrow> snapshot \<Rightarrow> event \<Rightarrow> snapshot" where
  "finish_snapshot cur nxt v =
     nxt\<lparr>sn_Revision := sn_Revision nxt + 1, sn_Reason := ev_Reason v, sn_UpdatedAt := utc (ev_At v),
         sn_LastTransition := make_record cur nxt v\<rparr>"

definition apply_action :: "snapshot \<Rightarrow> event \<Rightarrow> action_error + transition" where
  "apply_action cur v =
     (if \<not> validate_snapshot cur then Inl ErrInvalidSnapshot
      else if ev_ExpectedRevision v \<noteq> sn_Revision cur then Inl ErrRevisionConflict
      else if state_terminal (sn_State cur) then Inl ErrInvalidTransition
      else and_then (validate_event cur v) (\<lambda>_.
        and_then (apply_kind (ev_Kind v) cur v) (\<lambda>nxt.
          let nxt' = finish_snapshot cur nxt v in
          if \<not> validate_snapshot nxt' then Inl ErrInvalidSnapshot
          else Inr \<lparr>tn_Snapshot = nxt', tn_Record = make_record cur nxt v, tn_Auth = None\<rparr>)))"

end
