(* ===== verification/Runs.thy ===== *)
theory Runs
  imports ASB_Prelude
begin

text \<open>
  Histories of a component: sequences of successful operations from one state to another, and the
  two contracts the component proofs use. \<open>preserved\<close>: a predicate every operation keeps.
  \<open>simulated\<close>: every operation is matched by the steps of an abstract machine.
\<close>

inductive run :: "('s \<Rightarrow> 'e \<Rightarrow> 's \<Rightarrow> bool) \<Rightarrow> 's \<Rightarrow> 'e list \<Rightarrow> 's \<Rightarrow> bool"
  for step :: "'s \<Rightarrow> 'e \<Rightarrow> 's \<Rightarrow> bool" where
  run_Nil [intro!]: "run step s [] s"
| run_Cons [intro]: "step s e s' \<Longrightarrow> run step s' es s'' \<Longrightarrow> run step s (e # es) s''"

inductive_cases run_NilE [elim!]: "run step s [] s'"
inductive_cases run_ConsE [elim!]: "run step s (e # es) s''"

lemma run_Nil_iff [simp]: "run step s [] s' \<longleftrightarrow> s' = s"
  by blast

lemma run_Cons_iff [simp]: "run step s (e # es) s'' \<longleftrightarrow> (\<exists>s'. step s e s' \<and> run step s' es s'')"
  by blast

lemma run_append [simp]: "run step s (es @ fs) s'' \<longleftrightarrow> (\<exists>s'. run step s es s' \<and> run step s' fs s'')"
  by (induction es arbitrary: s) auto

lemma run_snoc: "run step s es s' \<Longrightarrow> step s' e s'' \<Longrightarrow> run step s (es @ [e]) s''"
  by auto

locale preserved =
  fixes step :: "'s \<Rightarrow> 'e \<Rightarrow> 's \<Rightarrow> bool"
    and inv :: "'s \<Rightarrow> bool"
  assumes step_keeps: "inv s \<Longrightarrow> step s e s' \<Longrightarrow> inv s'"
begin

lemma run_keeps: "run step s es s' \<Longrightarrow> inv s \<Longrightarrow> inv s'"
  by (induction rule: run.induct) (blast intro: step_keeps)+

end

text \<open>A value that only grows, in a given order, along every operation.\<close>

locale increasing = preserved step inv
  for step :: "'s \<Rightarrow> 'e \<Rightarrow> 's \<Rightarrow> bool" and inv :: "'s \<Rightarrow> bool" +
  fixes val :: "'s \<Rightarrow> 'v::order"
  assumes step_grows: "inv s \<Longrightarrow> step s e s' \<Longrightarrow> val s \<le> val s'"
begin

lemma run_grows: "run step s es s' \<Longrightarrow> inv s \<Longrightarrow> val s \<le> val s'"
proof (induction rule: run.induct)
  case (run_Cons s e s' es s'')
  then have "inv s'" by (blast intro: step_keeps)
  with run_Cons show ?case
    using step_grows order_trans by blast
qed simp

end

locale simulated = preserved step inv
  for step :: "'s \<Rightarrow> 'e \<Rightarrow> 's \<Rightarrow> bool" and inv :: "'s \<Rightarrow> bool" +
  fixes abs :: "'s \<Rightarrow> 'a"
    and obs :: "'e \<Rightarrow> 'f"
    and astep :: "'a \<Rightarrow> 'f \<Rightarrow> 'a \<Rightarrow> bool"
  assumes step_simulated: "inv s \<Longrightarrow> step s e s' \<Longrightarrow> astep (abs s) (obs e) (abs s')"
begin

lemma run_simulated: "run step s es s' \<Longrightarrow> inv s \<Longrightarrow> run astep (abs s) (map obs es) (abs s')"
proof (induction rule: run.induct)
  case (run_Cons s e s' es s'')
  then have "inv s'" by (blast intro: step_keeps)
  with run_Cons show ?case
    using step_simulated by auto
qed simp

end

end
