(* ===== verification/Action_Lifecycle.thy ===== *)
theory Action_Lifecycle
  imports Action_Machine Runs
begin

text \<open>
  What an Action promises, and that \<^verbatim>\<open>Apply\<close> of \<^verbatim>\<open>pkg/actionlifecycle/machine.go\<close> keeps it. The
  specification is a small machine over the phase of the Action, the executor that holds it and a
  few counters that never wrap; the snapshot machine is shown to be simulated by it, and the
  promises about histories are proved on the specification and carried over.
\<close>

section \<open>The specification\<close>

record lifecycle =
  phase :: state
  version :: nat
  epoch :: nat
  holder :: "(string \<times> string) option"
  takeovers :: nat
  budget :: nat
  savepoint :: nat
  verdict :: "outcome_status option"

text \<open>A step is labelled with the event kind and the authenticated actor, if there is one.\<close>

type_synonym label = "event_kind \<times> string option"

definition held_by :: "lifecycle \<Rightarrow> string \<Rightarrow> bool" where
  "held_by a x \<longleftrightarrow> (\<exists>l. holder a = Some (l, x))"

definition finishes :: "event_kind \<Rightarrow> state \<Rightarrow> outcome_status \<Rightarrow> bool" where
  "finishes k p r \<longleftrightarrow>
     k = EventComplete \<and> requires_executor_lease p \<and> r = OutcomeSucceeded \<or>
     k = EventFail \<and> requires_executor_lease p \<and> r = OutcomeFailed \<or>
     k = EventConfirmCanceled \<and> p = StateCanceling \<and> r = OutcomeCanceled"

inductive lifecycle_step :: "lifecycle \<Rightarrow> label \<Rightarrow> lifecycle \<Rightarrow> bool" where
  grant: "k = EventStart \<and> phase a = StateAccepted \<or>
      k = EventResume \<and> (phase a = StateWaiting \<or> phase a = StatePaused) \<Longrightarrow>
    b = a\<lparr>phase := StateRunning, version := version a + 1, epoch := epoch a + 1, holder := Some (l, x)\<rparr> \<Longrightarrow>
    lifecycle_step a (k, Some x) b"
| takeover: "phase a = StateOrphaned \<Longrightarrow> takeovers a < budget a \<Longrightarrow>
    b = a\<lparr>phase := StateRunning, version := version a + 1, epoch := epoch a + 1, holder := Some (l, x),
          takeovers := takeovers a + 1\<rparr> \<Longrightarrow>
    lifecycle_step a (EventTakeover, Some x) b"
| suspend: "phase a = StateRunning \<Longrightarrow> held_by a x \<Longrightarrow> savepoint a \<le> n \<Longrightarrow>
    k = EventWait \<and> p = StateWaiting \<or> k = EventPause \<and> p = StatePaused \<Longrightarrow>
    b = a\<lparr>phase := p, version := version a + 1, holder := None, savepoint := n\<rparr> \<Longrightarrow>
    lifecycle_step a (k, Some x) b"
| hold: "phase a = StateWaiting \<Longrightarrow> savepoint a \<le> n \<Longrightarrow>
    b = a\<lparr>phase := StatePaused, version := version a + 1, holder := None, savepoint := n\<rparr> \<Longrightarrow>
    lifecycle_step a (EventPause, Some x) b"
| cancel_idle: "phase a = StateAccepted \<or> phase a = StateWaiting \<or> phase a = StatePaused \<Longrightarrow>
    b = a\<lparr>phase := StateCanceled, version := version a + 1, holder := None,
          verdict := Some OutcomeCanceled\<rparr> \<Longrightarrow>
    lifecycle_step a (EventRequestCancel, Some x) b"
| cancel_running: "phase a = StateRunning \<Longrightarrow> b = a\<lparr>phase := StateCanceling, version := version a + 1\<rparr> \<Longrightarrow>
    lifecycle_step a (EventRequestCancel, Some x) b"
| cancel_orphaned: "phase a = StateOrphaned \<Longrightarrow>
    b = a\<lparr>phase := StateIndeterminate, version := version a + 1\<rparr> \<Longrightarrow>
    lifecycle_step a (EventRequestCancel, Some x) b"
| finish: "finishes k (phase a) r \<Longrightarrow> held_by a x \<Longrightarrow>
    b = a\<lparr>phase := outcome_state r, version := version a + 1, holder := None, verdict := Some r\<rparr> \<Longrightarrow>
    lifecycle_step a (k, Some x) b"
| lose: "requires_executor_lease (phase a) \<and> held_by a x \<or> phase a = StateOrphaned \<Longrightarrow>
    b = a\<lparr>phase := StateIndeterminate, version := version a + 1, holder := None\<rparr> \<Longrightarrow>
    lifecycle_step a (EventMarkIndeterminate, Some x) b"
| expire: "requires_executor_lease (phase a) \<Longrightarrow>
    b = a\<lparr>phase := StateOrphaned, version := version a + 1, holder := None\<rparr> \<Longrightarrow>
    lifecycle_step a (EventLeaseExpired, None) b"
| investigate: "phase a = StateIndeterminate \<or> phase a = StateOrphaned \<Longrightarrow>
    b = a\<lparr>phase := StateIndeterminate, version := version a + 1, holder := None\<rparr> \<Longrightarrow>
    lifecycle_step a (EventBeginReconciliation, Some x) b"
| settle_no_effect: "phase a = StateIndeterminate \<Longrightarrow>
    b = a\<lparr>phase := StatePaused, version := version a + 1\<rparr> \<Longrightarrow>
    lifecycle_step a (EventResolveReconciliation, Some x) b"
| settle: "phase a = StateIndeterminate \<Longrightarrow> state_terminal (outcome_state r) \<Longrightarrow>
    b = a\<lparr>phase := outcome_state r, version := version a + 1, verdict := Some r\<rparr> \<Longrightarrow>
    lifecycle_step a (EventResolveReconciliation, Some x) b"
| renew: "requires_executor_lease (phase a) \<Longrightarrow> held_by a x \<Longrightarrow>
    b = a\<lparr>version := version a + 1\<rparr> \<Longrightarrow>
    lifecycle_step a (EventRenewLease, Some x) b"

inductive_cases lifecycle_stepE: "lifecycle_step a lbl b"

section \<open>The abstraction\<close>

definition abs_snapshot :: "snapshot \<Rightarrow> lifecycle" where
  "abs_snapshot s =
     \<lparr>phase = sn_State s, version = unat (sn_Revision s), epoch = unat (sn_LeaseGeneration s),
      holder = map_option (\<lambda>l. (ls_LeaseID l, ls_ExecutorID l)) (sn_ExecutorLease s),
      takeovers = unat (sn_RecoveryAttempts s), budget = unat (rp_MaxAttempts (sn_RecoveryPolicy s)),
      savepoint = (case sn_Checkpoint s of None \<Rightarrow> 0 | Some c \<Rightarrow> unat (cp_Sequence c)),
      verdict = map_option oc_Status (sn_Outcome s)\<rparr>"

definition event_label :: "event \<Rightarrow> label" where
  "event_label v = (ev_Kind v, map_option au_ActorID (ev_Auth v))"

definition action_step :: "snapshot \<Rightarrow> event \<Rightarrow> snapshot \<Rightarrow> bool" where
  "action_step s v s' \<longleftrightarrow> (\<exists>t. apply_action s v = Inr t \<and> tn_Snapshot t = s')"

text \<open>The snapshot after a reconciliation was resolved, before its state is set.\<close>

definition resolved :: "snapshot \<Rightarrow> reconciliation \<Rightarrow> event \<Rightarrow> snapshot" where
  "resolved s r v = s\<lparr>sn_Reconciliation := Some
     \<lparr>rn_Status = ReconciliationResolved, rn_Attempt = rn_Attempt r, rn_EvidenceRef = ev_EvidenceRef v,
      rn_Result = ev_ReconciliationResult v, rn_UpdatedAt = utc (ev_At v)\<rparr>\<rparr>"

section \<open>Inversion of the operations\<close>

lemma acquire_lease_Inr:
  "acquire_lease nxt v g = Inr n \<longleftrightarrow>
     (\<exists>l a. ev_Lease v = Some l \<and> ev_Auth v = Some a \<and> validate_lease l \<and> ls_Generation l = g \<and>
       equal_time (ls_IssuedAt l) (ev_At v) \<and> after (ls_ExpiresAt l) (ev_At v) \<and>
       au_ActorID a = ls_ExecutorID l \<and> \<not> after (ls_ExpiresAt l) (au_ExpiresAt a) \<and>
       n = nxt\<lparr>sn_ExecutorLease := Some l, sn_LeaseGeneration := g\<rparr>)"
  by (auto simp: acquire_lease_def split: option.splits)

lemma require_current_executor_Inr:
  "require_current_executor cur v = Inr u \<longleftrightarrow>
     (\<exists>l f a. sn_ExecutorLease cur = Some l \<and> ev_Fence v = Some f \<and> ev_Auth v = Some a \<and>
       before (ev_At v) (ls_ExpiresAt l) \<and> lf_LeaseID f = ls_LeaseID l \<and>
       lf_ExecutorID f = ls_ExecutorID l \<and> lf_Generation f = ls_Generation l \<and>
       au_ActorID a = ls_ExecutorID l)"
  by (auto simp: require_current_executor_def split: option.splits)

lemma update_checkpoint_Inr:
  "update_checkpoint nxt cp = Inr n \<longleftrightarrow>
     cp = None \<and> n = nxt \<or>
     (\<exists>c. cp = Some c \<and> validate_checkpoint c \<and> n = nxt\<lparr>sn_Checkpoint := Some c\<rparr> \<and>
       (\<forall>old. sn_Checkpoint nxt = Some old \<longrightarrow> cp_Sequence old < cp_Sequence c))"
  by (auto simp: update_checkpoint_def not_le split: option.splits)

lemma validate_event_Inr:
  "validate_event cur v = Inr u \<longleftrightarrow>
     validate_id (ev_ID v) \<and> valid_event_kind (ev_Kind v) \<and> ev_Kind v \<noteq> EventAccept \<and>
     \<not> is_zero (ev_At v) \<and> \<not> before (ev_At v) (sn_UpdatedAt cur) \<and> validate_reason (ev_Reason v) \<and>
     reason_allowed (ev_Kind v) (rs_Code (ev_Reason v)) \<and>
     (ev_EvidenceRef v \<noteq> [] \<longrightarrow> validate_reference (ev_EvidenceRef v)) \<and>
     (ev_ResultRef v \<noteq> [] \<longrightarrow> validate_reference (ev_ResultRef v)) \<and>
     (if ev_Kind v = EventLeaseExpired then ev_Auth v = None
      else \<exists>a. ev_Auth v = Some a \<and> validate_authenticated_operation cur v a = Inr ())"
  by (auto simp: validate_event_def split: option.splits)

lemma validate_authenticated_operation_Inr:
  "validate_authenticated_operation cur v a = Inr u \<longleftrightarrow>
     list_all validate_id [au_ActorID a, au_AuthorizationID a, au_ProofID a, au_VerifierNonce a] \<and>
     au_Operation a = ev_Kind v \<and> au_ActionID a = sn_ActionID cur \<and>
     au_ActionDigest a = sn_ActionDigest cur \<and> validate_digest (au_MutationDigest a) \<and>
     mutation_request_digest v = Inr (au_MutationDigest a) \<and>
     \<not> is_zero (au_IssuedAt a) \<and> \<not> is_zero (au_ExpiresAt a) \<and>
     \<not> after (au_IssuedAt a) (ev_At v) \<and> after (au_ExpiresAt a) (ev_At v)"
  unfolding validate_authenticated_operation_def by (simp split: sum.split) blast

lemma apply_action_Inr:
  "apply_action cur v = Inr t \<longleftrightarrow>
     validate_snapshot cur \<and> ev_ExpectedRevision v = sn_Revision cur \<and> \<not> state_terminal (sn_State cur) \<and>
     validate_event cur v = Inr () \<and>
     (\<exists>nxt. apply_kind (ev_Kind v) cur v = Inr nxt \<and> validate_snapshot (finish_snapshot cur nxt v) \<and>
       t = \<lparr>tn_Snapshot = finish_snapshot cur nxt v, tn_Record = make_record cur nxt v, tn_Auth = None\<rparr>)"
  by (auto simp: apply_action_def and_then_Inr_iff Let_def)

lemma action_step_iff:
  "action_step s v s' \<longleftrightarrow>
     validate_snapshot s \<and> ev_ExpectedRevision v = sn_Revision s \<and> \<not> state_terminal (sn_State s) \<and>
     validate_event s v = Inr () \<and>
     (\<exists>nxt. apply_kind (ev_Kind v) s v = Inr nxt \<and> validate_snapshot s' \<and> s' = finish_snapshot s nxt v)"
  unfolding action_step_def apply_action_Inr by (auto simp del: validate_event_Inr)

lemmas apply_kind_defs = apply_start_def apply_wait_def apply_pause_def apply_resume_def
  apply_request_cancel_def apply_complete_def apply_fail_def apply_confirm_canceled_def
  apply_mark_indeterminate_def apply_lease_expired_def apply_takeover_def takeover_permitted_def
  apply_begin_reconciliation_def apply_resolve_reconciliation_def apply_renew_lease_def

lemmas inversion = and_then_Inr_iff acquire_lease_Inr require_current_executor_Inr update_checkpoint_Inr

text \<open>The successful runs of each case of the switch.\<close>

lemma apply_start_Inr:
  "apply_start s v = Inr n \<longleftrightarrow> sn_State s = StateAccepted \<and>
     (\<exists>m. acquire_lease s v (sn_LeaseGeneration s + 1) = Inr m \<and> n = m\<lparr>sn_State := StateRunning\<rparr>)"
  by (auto simp: apply_start_def and_then_Inr_iff)

lemma apply_wait_Inr:
  "apply_wait s v = Inr n \<longleftrightarrow> sn_State s = StateRunning \<and> require_current_executor s v = Inr () \<and>
     (\<exists>c m. ev_ResumeCondition v = Some c \<and> validate_resume_condition c \<and>
       update_checkpoint s (ev_Checkpoint v) = Inr m \<and>
       n = m\<lparr>sn_State := StateWaiting, sn_ExecutorLease := None, sn_ResumeCondition := Some c\<rparr>)"
  by (auto simp: apply_wait_def and_then_Inr_iff split: option.splits)

lemma apply_pause_Inr:
  "apply_pause s v = Inr n \<longleftrightarrow>
     (sn_State s = StateRunning \<and> require_current_executor s v = Inr () \<or> sn_State s = StateWaiting) \<and>
     (\<exists>m. update_checkpoint s (ev_Checkpoint v) = Inr m \<and>
       n = m\<lparr>sn_State := StatePaused, sn_ExecutorLease := None, sn_ResumeCondition := None\<rparr>)"
  by (auto simp: apply_pause_def and_then_Inr_iff)

lemma apply_resume_Inr:
  "apply_resume s v = Inr n \<longleftrightarrow>
     (sn_State s = StatePaused \<or> sn_State s = StateWaiting \<and>
       (\<exists>c. sn_ResumeCondition s = Some c \<and> resume_satisfied c (utc (ev_At v)) (ev_EvidenceRef v) = Inr ())) \<and>
     (\<exists>m. acquire_lease s v (sn_LeaseGeneration s + 1) = Inr m \<and>
       n = m\<lparr>sn_State := StateRunning, sn_ResumeCondition := None\<rparr>)"
  by (auto simp: apply_resume_def and_then_Inr_iff split: option.splits)

lemma apply_request_cancel_Inr:
  "apply_request_cancel s v = Inr n \<longleftrightarrow>
     sn_State s = StateRunning \<and> n = s\<lparr>sn_State := StateCanceling\<rparr> \<or>
     sn_State s = StateOrphaned \<and> n = s\<lparr>sn_State := StateIndeterminate,
       sn_Reconciliation := Some (required_reconciliation (utc (ev_At v)))\<rparr> \<or>
     (sn_State s = StateAccepted \<or> sn_State s = StateWaiting \<or> sn_State s = StatePaused) \<and>
       n = s\<lparr>sn_State := StateCanceled, sn_ExecutorLease := None, sn_ResumeCondition := None,
             sn_Outcome := Some (terminal_outcome OutcomeCanceled v (utc (ev_At v)))\<rparr>"
  by (cases "sn_State s") (auto simp: apply_request_cancel_def)

lemma apply_finish_Inr:
  "apply_complete s v = Inr n \<longleftrightarrow> requires_executor_lease (sn_State s) \<and> require_current_executor s v = Inr () \<and>
     n = s\<lparr>sn_State := StateSucceeded, sn_ExecutorLease := None,
           sn_Outcome := Some (terminal_outcome OutcomeSucceeded v (utc (ev_At v)))\<rparr>"
  "apply_fail s v = Inr n \<longleftrightarrow> requires_executor_lease (sn_State s) \<and> require_current_executor s v = Inr () \<and>
     validate_id (ev_ErrorCode v) \<and>
     n = s\<lparr>sn_State := StateFailed, sn_ExecutorLease := None,
           sn_Outcome := Some (terminal_outcome OutcomeFailed v (utc (ev_At v)))\<rparr>"
  "apply_confirm_canceled s v = Inr n \<longleftrightarrow> sn_State s = StateCanceling \<and> require_current_executor s v = Inr () \<and>
     n = s\<lparr>sn_State := StateCanceled, sn_ExecutorLease := None,
           sn_Outcome := Some (terminal_outcome OutcomeCanceled v (utc (ev_At v)))\<rparr>"
  by (auto simp: apply_complete_def apply_fail_def apply_confirm_canceled_def and_then_Inr_iff
      requires_executor_lease_def)

lemma apply_mark_indeterminate_Inr:
  "apply_mark_indeterminate s v = Inr n \<longleftrightarrow>
     (requires_executor_lease (sn_State s) \<and> require_current_executor s v = Inr () \<or>
      sn_State s = StateOrphaned) \<and>
     n = s\<lparr>sn_State := StateIndeterminate, sn_ExecutorLease := None, sn_ResumeCondition := None,
           sn_Reconciliation := Some (required_reconciliation (utc (ev_At v)))\<rparr>"
  by (auto simp: apply_mark_indeterminate_def and_then_Inr_iff requires_executor_lease_def)

lemma apply_lease_expired_Inr:
  "apply_lease_expired s v = Inr n \<longleftrightarrow> requires_executor_lease (sn_State s) \<and>
     (\<exists>l. sn_ExecutorLease s = Some l \<and> \<not> before (ev_At v) (ls_ExpiresAt l)) \<and>
     n = s\<lparr>sn_State := StateOrphaned, sn_ExecutorLease := None\<rparr>"
  by (auto simp: apply_lease_expired_def split: option.splits)

lemma apply_takeover_Inr:
  "apply_takeover s v = Inr n \<longleftrightarrow> sn_State s = StateOrphaned \<and>
     sn_RecoveryAttempts s < rp_MaxAttempts (sn_RecoveryPolicy s) \<and> takeover_permitted s v = Inr () \<and>
     (\<exists>m. acquire_lease s v (sn_LeaseGeneration s + 1) = Inr m \<and>
       n = m\<lparr>sn_State := StateRunning, sn_RecoveryAttempts := sn_RecoveryAttempts m + 1\<rparr>)"
  by (auto simp: apply_takeover_def and_then_Inr_iff)

lemma apply_begin_reconciliation_Inr:
  "apply_begin_reconciliation s v = Inr n \<longleftrightarrow>
     (sn_State s = StateIndeterminate \<or> sn_State s = StateOrphaned) \<and>
     n = s\<lparr>sn_State := StateIndeterminate, sn_ExecutorLease := None,
       sn_Reconciliation := Some
         \<lparr>rn_Status = ReconciliationRunning,
          rn_Attempt = (case sn_Reconciliation s of None \<Rightarrow> 1 | Some r \<Rightarrow> rn_Attempt r + 1),
          rn_EvidenceRef = [], rn_Result = no_result, rn_UpdatedAt = utc (ev_At v)\<rparr>\<rparr>"
  by (auto simp: apply_begin_reconciliation_def)

lemma apply_resolve_reconciliation_Inr:
  "apply_resolve_reconciliation s v = Inr n \<longleftrightarrow> sn_State s = StateIndeterminate \<and> ev_EvidenceRef v \<noteq> [] \<and>
     (\<exists>r. sn_Reconciliation s = Some r \<and> rn_Status r = ReconciliationRunning \<and>
       (ev_ReconciliationResult v = ReconciliationNoEffect \<and> n = (resolved s r v)\<lparr>sn_State := StatePaused\<rparr> \<or>
        (\<exists>oc. (ev_ReconciliationResult v, oc) \<in> {(ReconciliationSucceeded, OutcomeSucceeded),
            (ReconciliationFailed, OutcomeFailed), (ReconciliationCanceled, OutcomeCanceled)} \<and>
          n = (resolved s r v)\<lparr>sn_State := outcome_state oc,
            sn_Outcome := Some (terminal_outcome oc v (utc (ev_At v)))\<rparr>)))"
  by (cases "ev_ReconciliationResult v")
    (auto simp: apply_resolve_reconciliation_def resolved_def Let_def split: option.splits)

lemma apply_renew_lease_Inr:
  "apply_renew_lease s v = Inr n \<longleftrightarrow> requires_executor_lease (sn_State s) \<and>
     require_current_executor s v = Inr () \<and>
     (\<exists>l c a. ev_Lease v = Some l \<and> sn_ExecutorLease s = Some c \<and> ev_Auth v = Some a \<and>
       ls_LeaseID l = ls_LeaseID c \<and> ls_ExecutorID l = ls_ExecutorID c \<and> ls_Generation l = ls_Generation c \<and>
       equal_time (ls_IssuedAt l) (ls_IssuedAt c) \<and> after (ls_ExpiresAt l) (ls_ExpiresAt c) \<and>
       \<not> after (ls_ExpiresAt l) (au_ExpiresAt a) \<and> n = s\<lparr>sn_ExecutorLease := Some l\<rparr>)"
  by (auto simp: apply_renew_lease_def and_then_Inr_iff split: option.splits)

lemmas case_inversion = apply_start_Inr apply_wait_Inr apply_pause_Inr apply_resume_Inr
  apply_request_cancel_Inr apply_finish_Inr apply_mark_indeterminate_Inr apply_lease_expired_Inr
  apply_takeover_Inr apply_begin_reconciliation_Inr apply_resolve_reconciliation_Inr apply_renew_lease_Inr

lemmas kind_inversion = case_inversion acquire_lease_Inr update_checkpoint_Inr resolved_def

section \<open>Simulation\<close>

text \<open>The bookkeeping common to all kinds, and the two facts that keep the counters from wrapping.\<close>

lemma apply_kind_revision: "apply_kind k cur v = Inr nxt \<Longrightarrow> sn_Revision nxt = sn_Revision cur"
  by (cases k) (auto simp: kind_inversion)

lemma abs_finish:
  assumes "sn_Revision nxt = sn_Revision cur" and "sn_Revision cur + 1 \<noteq> 0"
  shows "abs_snapshot (finish_snapshot cur nxt v) =
    (abs_snapshot nxt)\<lparr>version := Suc (version (abs_snapshot cur))\<rparr>"
  using assms by (simp add: abs_snapshot_def finish_snapshot_def unat_succ)

lemma abs_acquire:
  assumes "acquire_lease cur v (sn_LeaseGeneration cur + 1) = Inr nxt"
  obtains l a where "ev_Auth v = Some a"
    "abs_snapshot nxt = (abs_snapshot cur)\<lparr>epoch := epoch (abs_snapshot cur) + 1, holder := Some (l, au_ActorID a)\<rparr>"
proof -
  from assms obtain l a where l: "ev_Auth v = Some a" "validate_lease l" "ls_Generation l = sn_LeaseGeneration cur + 1"
      "au_ActorID a = ls_ExecutorID l"
      "nxt = cur\<lparr>sn_ExecutorLease := Some l, sn_LeaseGeneration := sn_LeaseGeneration cur + 1\<rparr>"
    by (auto simp: acquire_lease_Inr)
  then have "sn_LeaseGeneration cur + 1 \<noteq> 0"
    by (simp add: validate_lease_def)
  with l that [of a "ls_LeaseID l"] show thesis
    by (simp add: abs_snapshot_def unat_succ)
qed

lemma abs_executor:
  assumes "require_current_executor cur v = Inr u"
  obtains a where "ev_Auth v = Some a" "held_by (abs_snapshot cur) (au_ActorID a)"
  using assms by (auto simp: require_current_executor_Inr held_by_def abs_snapshot_def)

lemma abs_checkpoint:
  assumes "update_checkpoint cur cp = Inr nxt"
  obtains n where "savepoint (abs_snapshot cur) \<le> n" "abs_snapshot nxt = (abs_snapshot cur)\<lparr>savepoint := n\<rparr>"
proof -
  have "savepoint (abs_snapshot cur) \<le> savepoint (abs_snapshot nxt) \<and>
      abs_snapshot nxt = (abs_snapshot cur)\<lparr>savepoint := savepoint (abs_snapshot nxt)\<rparr>"
    using assms
    by (auto simp: update_checkpoint_Inr abs_snapshot_def word_less_nat_alt split: option.splits)
  with that show thesis by blast
qed

lemma abs_update [simp]:
  "abs_snapshot (s\<lparr>sn_State := p\<rparr>) = (abs_snapshot s)\<lparr>phase := p\<rparr>"
  "abs_snapshot (s\<lparr>sn_ExecutorLease := x\<rparr>) =
    (abs_snapshot s)\<lparr>holder := map_option (\<lambda>l. (ls_LeaseID l, ls_ExecutorID l)) x\<rparr>"
  "abs_snapshot (s\<lparr>sn_ResumeCondition := c\<rparr>) = abs_snapshot s"
  "abs_snapshot (s\<lparr>sn_Reconciliation := r\<rparr>) = abs_snapshot s"
  "abs_snapshot (s\<lparr>sn_RecoveryAttempts := n\<rparr>) = (abs_snapshot s)\<lparr>takeovers := unat n\<rparr>"
  "abs_snapshot (s\<lparr>sn_Outcome := oc\<rparr>) = (abs_snapshot s)\<lparr>verdict := map_option oc_Status oc\<rparr>"
  by (simp_all add: abs_snapshot_def)

lemma phase_abs [simp]: "phase (abs_snapshot s) = sn_State s"
  by (simp add: abs_snapshot_def)

lemma takeovers_abs:
  "takeovers (abs_snapshot s) = unat (sn_RecoveryAttempts s)"
  "budget (abs_snapshot s) = unat (rp_MaxAttempts (sn_RecoveryPolicy s))"
  by (simp_all add: abs_snapshot_def)

text \<open>The kinds that grant a lease, the kinds only the lease holder may use, and the others.\<close>

lemma simulated_grant:
  assumes "k \<in> {EventStart, EventResume, EventTakeover}" and "apply_kind k cur v = Inr nxt"
    and "ev_Auth v = Some a"
  shows "lifecycle_step (abs_snapshot cur) (k, Some (au_ActorID a))
      ((abs_snapshot nxt)\<lparr>version := Suc (version (abs_snapshot cur))\<rparr>)"
proof -
  from assms obtain mid where mid: "acquire_lease cur v (sn_LeaseGeneration cur + 1) = Inr mid"
    by (auto simp: apply_kind_defs and_then_Inr_iff)
  from mid obtain l where a: "abs_snapshot mid =
      (abs_snapshot cur)\<lparr>epoch := epoch (abs_snapshot cur) + 1, holder := Some (l, au_ActorID a)\<rparr>"
    using assms(3) by (auto elim: abs_acquire)
  have n: "sn_RecoveryAttempts mid = sn_RecoveryAttempts cur"
    using mid by (auto simp: acquire_lease_Inr)
  show ?thesis
  proof (cases "k = EventTakeover")
    case True
    with assms mid have "sn_State cur = StateOrphaned"
        "sn_RecoveryAttempts cur < rp_MaxAttempts (sn_RecoveryPolicy cur)"
        "nxt = mid\<lparr>sn_State := StateRunning, sn_RecoveryAttempts := sn_RecoveryAttempts mid + 1\<rparr>"
      by (auto simp: apply_kind_defs and_then_Inr_iff)
    then show ?thesis
      unfolding True
      by (intro lifecycle_step.takeover [where l = l])
        (simp_all add: a n takeovers_abs word_less_nat_alt unat_succ_less)
  next
    case False
    with assms mid have "abs_snapshot nxt = (abs_snapshot mid)\<lparr>phase := StateRunning\<rparr>"
        "k = EventStart \<and> sn_State cur = StateAccepted \<or>
         k = EventResume \<and> (sn_State cur = StateWaiting \<or> sn_State cur = StatePaused)"
      by (auto simp: apply_kind_defs and_then_Inr_iff)
    then show ?thesis
      by (intro lifecycle_step.grant [where l = l]) (simp_all add: a)
  qed
qed

lemma simulated_executor:
  assumes "k \<in> {EventWait, EventComplete, EventFail, EventConfirmCanceled, EventRenewLease}"
    and "apply_kind k cur v = Inr nxt"
    and "ev_Auth v = Some a"
  shows "lifecycle_step (abs_snapshot cur) (k, Some (au_ActorID a))
      ((abs_snapshot nxt)\<lparr>version := Suc (version (abs_snapshot cur))\<rparr>)"
proof -
  from assms have "require_current_executor cur v = Inr ()"
    by (auto simp: apply_kind_defs and_then_Inr_iff)
  then have a: "held_by (abs_snapshot cur) (au_ActorID a)"
    using assms(3) by (auto elim: abs_executor)
  show ?thesis
  proof (cases "k = EventWait")
    case True
    with assms obtain c mid where "sn_State cur = StateRunning" and
        mid: "update_checkpoint cur (ev_Checkpoint v) = Inr mid" and
        nxt: "nxt = mid\<lparr>sn_State := StateWaiting, sn_ExecutorLease := None, sn_ResumeCondition := Some c\<rparr>"
      by (auto simp: apply_kind_defs and_then_Inr_iff split: option.splits)
    from mid obtain n where "savepoint (abs_snapshot cur) \<le> n"
        "abs_snapshot mid = (abs_snapshot cur)\<lparr>savepoint := n\<rparr>"
      by (rule abs_checkpoint)
    with True a \<open>sn_State cur = _\<close> show ?thesis
      by (auto simp: nxt intro!: lifecycle_step.suspend [where n = n] lifecycle.equality)
  next
    case False
    show ?thesis
    proof (cases "k = EventRenewLease")
      case True
      with assms have "requires_executor_lease (sn_State cur)" "abs_snapshot nxt = abs_snapshot cur"
        by (auto simp: apply_kind_defs and_then_Inr_iff abs_snapshot_def split: option.splits)
      with True a show ?thesis
        by (auto intro: lifecycle_step.renew)
    next
      case other: False
      with False assms obtain r where "finishes k (sn_State cur) r"
          "abs_snapshot nxt = (abs_snapshot cur)\<lparr>phase := outcome_state r, holder := None, verdict := Some r\<rparr>"
        by (auto simp: apply_kind_defs and_then_Inr_iff finishes_def requires_executor_lease_def terminal_outcome_def)
      with a show ?thesis
        by (intro lifecycle_step.finish [where r = r]) simp_all
    qed
  qed
qed

lemma simulated_pause:
  assumes "apply_kind EventPause cur v = Inr nxt" and "ev_Auth v = Some a"
  shows "lifecycle_step (abs_snapshot cur) (EventPause, Some (au_ActorID a))
      ((abs_snapshot nxt)\<lparr>version := Suc (version (abs_snapshot cur))\<rparr>)"
proof -
  from assms obtain mid where st: "sn_State cur = StateRunning \<or> sn_State cur = StateWaiting" and
      mid: "update_checkpoint cur (ev_Checkpoint v) = Inr mid" and
      nxt: "nxt = mid\<lparr>sn_State := StatePaused, sn_ExecutorLease := None, sn_ResumeCondition := None\<rparr>" and
      h: "sn_State cur = StateRunning \<Longrightarrow> require_current_executor cur v = Inr ()"
    by (auto simp: apply_kind_defs and_then_Inr_iff)
  from mid obtain n where n: "savepoint (abs_snapshot cur) \<le> n"
      "abs_snapshot mid = (abs_snapshot cur)\<lparr>savepoint := n\<rparr>"
    by (rule abs_checkpoint)
  show ?thesis
  proof (cases "sn_State cur = StateRunning")
    case True
    with h assms(2) have "held_by (abs_snapshot cur) (au_ActorID a)"
      by (auto elim: abs_executor)
    with True n show ?thesis
      by (intro lifecycle_step.suspend [where n = n and p = StatePaused]) (simp_all add: nxt)
  next
    case False
    with n st show ?thesis
      by (intro lifecycle_step.hold [where n = n]) (simp_all add: nxt)
  qed
qed

lemma simulated_cancel:
  assumes "apply_kind EventRequestCancel cur v = Inr nxt"
  shows "lifecycle_step (abs_snapshot cur) (EventRequestCancel, Some x)
      ((abs_snapshot nxt)\<lparr>version := Suc (version (abs_snapshot cur))\<rparr>)"
proof -
  consider "sn_State cur = StateRunning" | "sn_State cur = StateOrphaned" |
      "sn_State cur = StateAccepted \<or> sn_State cur = StateWaiting \<or> sn_State cur = StatePaused"
    using assms by (cases "sn_State cur") (auto simp: apply_kind_defs)
  then show ?thesis
  proof cases
    case 1
    with assms show ?thesis
      by (intro lifecycle_step.cancel_running) (auto simp: apply_kind_defs)
  next
    case 2
    with assms show ?thesis
      by (intro lifecycle_step.cancel_orphaned) (auto simp: apply_kind_defs)
  next
    case 3
    with assms show ?thesis
      by (intro lifecycle_step.cancel_idle) (auto simp: apply_kind_defs terminal_outcome_def)
  qed
qed

lemma simulated_indeterminate:
  assumes "apply_kind EventMarkIndeterminate cur v = Inr nxt" and "ev_Auth v = Some a"
  shows "lifecycle_step (abs_snapshot cur) (EventMarkIndeterminate, Some (au_ActorID a))
      ((abs_snapshot nxt)\<lparr>version := Suc (version (abs_snapshot cur))\<rparr>)"
proof (rule lifecycle_step.lose)
  show "requires_executor_lease (phase (abs_snapshot cur)) \<and> held_by (abs_snapshot cur) (au_ActorID a) \<or>
      phase (abs_snapshot cur) = StateOrphaned"
    using assms
    by (auto simp: apply_kind_defs and_then_Inr_iff requires_executor_lease_def elim!: abs_executor)
qed (use assms in \<open>auto simp: apply_kind_defs and_then_Inr_iff\<close>)

lemma simulated_reconciliation:
  assumes "k \<in> {EventBeginReconciliation, EventResolveReconciliation}" and "apply_kind k cur v = Inr nxt"
  shows "lifecycle_step (abs_snapshot cur) (k, Some x)
      ((abs_snapshot nxt)\<lparr>version := Suc (version (abs_snapshot cur))\<rparr>)"
proof (cases "k = EventBeginReconciliation")
  case True
  with assms show ?thesis
    by (auto simp: apply_kind_defs intro!: lifecycle_step.investigate)
next
  case False
  with assms have st: "k = EventResolveReconciliation" "sn_State cur = StateIndeterminate"
    by (auto simp: apply_kind_defs split: option.splits)
  have "abs_snapshot nxt = (abs_snapshot cur)\<lparr>phase := StatePaused\<rparr> \<or>
      (\<exists>r\<in>{OutcomeSucceeded, OutcomeFailed, OutcomeCanceled}.
        abs_snapshot nxt = (abs_snapshot cur)\<lparr>phase := outcome_state r, verdict := Some r\<rparr>)"
    using assms(2) st
    by (cases "ev_ReconciliationResult v")
      (auto simp: apply_kind_defs terminal_outcome_def Let_def split: option.splits)
  then consider "abs_snapshot nxt = (abs_snapshot cur)\<lparr>phase := StatePaused\<rparr>"
    | r where "r \<in> {OutcomeSucceeded, OutcomeFailed, OutcomeCanceled}"
        "abs_snapshot nxt = (abs_snapshot cur)\<lparr>phase := outcome_state r, verdict := Some r\<rparr>"
    by blast
  then show ?thesis
  proof cases
    case 1
    with st show ?thesis
      by (auto intro: lifecycle_step.settle_no_effect)
  next
    case 2
    then have "state_terminal (outcome_state r)"
      by (auto simp: state_terminal_def)
    with 2 st show ?thesis
      by (auto intro: lifecycle_step.settle [where r = r])
  qed
qed

lemma simulated_expiry:
  assumes "apply_kind EventLeaseExpired cur v = Inr nxt"
  shows "lifecycle_step (abs_snapshot cur) (EventLeaseExpired, None)
      ((abs_snapshot nxt)\<lparr>version := Suc (version (abs_snapshot cur))\<rparr>)"
  using assms by (auto simp: apply_kind_defs split: option.splits intro!: lifecycle_step.expire)

lemma action_step_simulated:
  assumes "action_step s v s'"
  shows "lifecycle_step (abs_snapshot s) (event_label v) (abs_snapshot s')"
proof -
  from assms obtain nxt where ev: "validate_event s v = Inr ()" and nxt: "apply_kind (ev_Kind v) s v = Inr nxt"
      and s': "s' = finish_snapshot s nxt v" "validate_snapshot s'"
    by (auto simp: action_step_iff)
  have rev: "sn_Revision nxt = sn_Revision s"
    using nxt by (rule apply_kind_revision)
  with s' have "sn_Revision s + 1 \<noteq> 0"
    by (simp add: validate_snapshot_def snapshot_header_ok_def finish_snapshot_def)
  with rev s' have abs: "abs_snapshot s' = (abs_snapshot nxt)\<lparr>version := Suc (version (abs_snapshot s))\<rparr>"
    by (simp add: abs_finish)
  show ?thesis
  proof (cases "ev_Kind v = EventLeaseExpired")
    case True
    with ev nxt simulated_expiry [of s v nxt] show ?thesis
      by (simp add: abs event_label_def validate_event_Inr)
  next
    case False
    with ev obtain a where "ev_Auth v = Some a" "ev_Kind v \<noteq> EventAccept" "valid_event_kind (ev_Kind v)"
      by (auto simp: validate_event_Inr)
    with False nxt show ?thesis
      unfolding abs event_label_def
      by (cases "ev_Kind v")
        (auto
          intro: simulated_grant simulated_executor simulated_pause simulated_cancel simulated_indeterminate simulated_reconciliation
          simp del: apply_kind.simps)
  qed
qed

lemma action_step_valid: "action_step s v s' \<Longrightarrow> validate_snapshot s'"
  by (auto simp: action_step_iff)

interpretation lifecycle: simulated action_step validate_snapshot abs_snapshot event_label lifecycle_step
  by unfold_locales (auto intro: action_step_simulated action_step_valid)

end
