(* ===== verification/Action_Progress.thy ===== *)
theory Action_Progress
  imports Action_Lifecycle
begin

text \<open>
  When \<^verbatim>\<open>Apply\<close> succeeds. The validation it runs on its own result is compared with what the
  validated input already gives, group by group; what is left is the exact list of inputs that
  only the final validation refuses. From it follows that an Action can always be brought to an
  end.
\<close>

section \<open>What the final validation adds\<close>

definition ends_action :: "snapshot \<Rightarrow> event \<Rightarrow> bool" where
  "ends_action s v \<longleftrightarrow>
     ev_Kind v = EventComplete \<or> ev_Kind v = EventFail \<or> ev_Kind v = EventConfirmCanceled \<or>
     ev_Kind v = EventRequestCancel \<and>
       (sn_State s = StateAccepted \<or> sn_State s = StateWaiting \<or> sn_State s = StatePaused) \<or>
     ev_Kind v = EventResolveReconciliation \<and> ev_ReconciliationResult v \<noteq> ReconciliationNoEffect"

definition result_ok :: "snapshot \<Rightarrow> event \<Rightarrow> bool" where
  "result_ok s v \<longleftrightarrow>
     sn_Revision s + 1 \<noteq> 0 \<and>
     (ev_Kind v = EventWait \<or> ev_Kind v = EventPause \<longrightarrow>
       (\<forall>c. ev_Checkpoint v = Some c \<longrightarrow> \<not> after (cp_CreatedAt c) (ev_At v))) \<and>
     (ev_Kind v = EventBeginReconciliation \<longrightarrow>
       (\<forall>r. sn_Reconciliation s = Some r \<longrightarrow> rn_Attempt r + 1 \<noteq> 0)) \<and>
     (ev_Kind v = EventResolveReconciliation \<longrightarrow> 5 \<le> sn_Revision s + 1) \<and>
     (ev_Kind v = EventRenewLease \<longrightarrow> (\<forall>l. ev_Lease v = Some l \<longrightarrow> \<not> is_zero (ls_ExpiresAt l))) \<and>
     (ends_action s v \<and> ev_ErrorCode v \<noteq> [] \<longrightarrow> validate_id (ev_ErrorCode v))"

text \<open>What no event changes.\<close>

definition identity_of :: "snapshot \<Rightarrow> string \<times> string \<times> string \<times> string \<times> recovery_policy \<times> gotime" where
  "identity_of s =
     (sn_Schema s, sn_ActionID s, sn_ActionDigest s, sn_OwnerID s, sn_RecoveryPolicy s, sn_CreatedAt s)"

lemma apply_kind_identity: "apply_kind k s v = Inr nxt \<Longrightarrow> identity_of nxt = identity_of s"
  by (cases k) (auto simp: identity_of_def kind_inversion)

lemmas identity_fields = apply_kind_identity [unfolded identity_of_def prod.inject]

lemma apply_kind_edge:
  assumes "apply_kind k s v = Inr nxt"
  shows "transition_allowed k (sn_State s) (sn_State nxt)"
  using assms
  by (cases k)
    (auto simp: kind_inversion requires_executor_lease_def)

lemma transition_allowed_valid:
  "transition_allowed k p q \<Longrightarrow> valid_state p \<and> valid_state q \<and> valid_event_kind k \<and> k \<noteq> EventAccept"
  by (cases k) auto

lemma transition_allowed_ends:
  "transition_allowed k p q \<Longrightarrow> \<not> state_terminal p \<and> q \<noteq> StateAccepted"
  by (cases k) (auto simp: state_terminal_def)

lemma apply_kind_attempts:
  assumes "apply_kind k s v = Inr nxt" and "sn_RecoveryAttempts s \<le> rp_MaxAttempts (sn_RecoveryPolicy s)"
  shows "sn_RecoveryAttempts nxt \<le> rp_MaxAttempts (sn_RecoveryPolicy s)"
proof (cases "k = EventTakeover")
  case True
  with assms show ?thesis
    by (auto simp: kind_inversion word_le_nat_alt unat_succ_less not_le word_less_nat_alt)
next
  case False
  with assms have "sn_RecoveryAttempts nxt = sn_RecoveryAttempts s"
    by (cases k) (auto simp: kind_inversion)
  with assms show ?thesis by simp
qed

lemma header_kept:
  assumes "snapshot_header_ok s" and "validate_event s v = Inr ()" and "apply_kind (ev_Kind v) s v = Inr nxt"
    and "sn_Revision s + 1 \<noteq> 0"
  shows "snapshot_header_ok (finish_snapshot s nxt v)"
proof -
  have "valid_state (sn_State nxt)"
    using apply_kind_edge [OF assms(3)] transition_allowed_valid by blast
  moreover have "\<not> rp_MaxAttempts (sn_RecoveryPolicy s) < sn_RecoveryAttempts nxt"
    using assms(1) apply_kind_attempts [OF assms(3)] by (simp add: snapshot_header_ok_def not_less)
  moreover have "instant (sn_CreatedAt s) \<le> instant (ev_At v)"
    using assms(1,2) by (auto simp: snapshot_header_ok_def validate_event_Inr time_defs)
  ultimately show ?thesis
    using assms identity_fields [OF assms(3)] apply_kind_revision [OF assms(3)]
    by (auto simp: snapshot_header_ok_def finish_snapshot_def validate_event_Inr time_defs)
qed

lemma validate_snapshotD:
  assumes "validate_snapshot s"
  shows "snapshot_header_ok s" "snapshot_lease_ok s" "snapshot_resume_ok s" "snapshot_checkpoint_ok s"
    "snapshot_reconciliation_ok s" "snapshot_outcome_ok s" "snapshot_last_ok s"
  using assms by (simp_all add: validate_snapshot_def)

lemma event_time:
  assumes "validate_event s v = Inr ()" and "snapshot_header_ok s"
  shows "instant (sn_UpdatedAt s) \<le> instant (ev_At v)" "instant (sn_CreatedAt s) \<le> instant (ev_At v)"
    "instant (ev_At v) \<noteq> 0"
  using assms by (auto simp: snapshot_header_ok_def validate_event_Inr time_defs)

lemma finish_select [simp]:
  "sn_State (finish_snapshot s nxt v) = sn_State nxt"
  "sn_ExecutorLease (finish_snapshot s nxt v) = sn_ExecutorLease nxt"
  "sn_LeaseGeneration (finish_snapshot s nxt v) = sn_LeaseGeneration nxt"
  "sn_ResumeCondition (finish_snapshot s nxt v) = sn_ResumeCondition nxt"
  "sn_Checkpoint (finish_snapshot s nxt v) = sn_Checkpoint nxt"
  "sn_Reconciliation (finish_snapshot s nxt v) = sn_Reconciliation nxt"
  "sn_Outcome (finish_snapshot s nxt v) = sn_Outcome nxt"
  "sn_CreatedAt (finish_snapshot s nxt v) = sn_CreatedAt nxt"
  "sn_UpdatedAt (finish_snapshot s nxt v) = utc (ev_At v)"
  "sn_LastTransition (finish_snapshot s nxt v) = make_record s nxt v"
  "sn_Revision (finish_snapshot s nxt v) = sn_Revision nxt + 1"
  by (simp_all add: finish_snapshot_def)

lemma lease_kept:
  assumes "snapshot_lease_ok s" and "instant (sn_CreatedAt s) \<le> instant (ev_At v)"
    and "apply_kind (ev_Kind v) s v = Inr nxt" and "result_ok s v"
  shows "snapshot_lease_ok (finish_snapshot s nxt v)"
proof (cases "sn_ExecutorLease s")
  case None
  with assms show ?thesis
    by (cases "ev_Kind v") (auto simp: snapshot_lease_ok_def kind_inversion requires_executor_lease_def
      validate_lease_def time_defs)
next
  case (Some l)
  with assms show ?thesis
    by (cases "ev_Kind v") (auto simp: snapshot_lease_ok_def kind_inversion requires_executor_lease_def
      validate_lease_def time_defs result_ok_def)
qed

lemma resume_kept:
  assumes "snapshot_resume_ok s" and "apply_kind (ev_Kind v) s v = Inr nxt"
  shows "snapshot_resume_ok (finish_snapshot s nxt v)"
  using assms
  by (cases "ev_Kind v"; cases "sn_ResumeCondition s")
    (auto simp: snapshot_resume_ok_def kind_inversion requires_executor_lease_def)

lemma checkpoint_kept:
  assumes "snapshot_checkpoint_ok s" and "instant (sn_UpdatedAt s) \<le> instant (ev_At v)"
    and "apply_kind (ev_Kind v) s v = Inr nxt" and "result_ok s v"
  shows "snapshot_checkpoint_ok (finish_snapshot s nxt v)"
  using assms
  by (cases "ev_Kind v"; cases "sn_Checkpoint s")
    (auto simp: snapshot_checkpoint_ok_def kind_inversion time_defs result_ok_def)

lemma reconciliation_kept:
  assumes "snapshot_reconciliation_ok s" and "instant (sn_UpdatedAt s) \<le> instant (ev_At v)"
    and "instant (ev_At v) \<noteq> 0" and "ev_EvidenceRef v \<noteq> [] \<Longrightarrow> validate_reference (ev_EvidenceRef v)"
    and "apply_kind (ev_Kind v) s v = Inr nxt" and "result_ok s v"
  shows "snapshot_reconciliation_ok (finish_snapshot s nxt v)"
  using assms
  by (cases "ev_Kind v"; cases "sn_Reconciliation s")
    (auto simp: snapshot_reconciliation_ok_def kind_inversion time_defs result_ok_def
      validate_reconciliation_def required_reconciliation_def requires_executor_lease_def)

lemma outcome_kept:
  assumes "snapshot_outcome_ok s" and "\<not> state_terminal (sn_State s)" and "validate_event s v = Inr ()"
    and "apply_kind (ev_Kind v) s v = Inr nxt" and "result_ok s v"
  shows "snapshot_outcome_ok (finish_snapshot s nxt v)"
proof -
  have "sn_Outcome s = None"
    using assms(1,2) by (simp add: snapshot_outcome_ok_def)
  moreover have "ev_ResultRef v \<noteq> [] \<Longrightarrow> validate_reference (ev_ResultRef v)" "\<not> is_zero (ev_At v)"
    using assms(3) by (auto simp: validate_event_Inr)
  ultimately show ?thesis
    using assms(2,4,5)
    by (cases "ev_Kind v")
      (auto simp: snapshot_outcome_ok_def kind_inversion state_terminal_def terminal_outcome_def
        validate_outcome_def result_ok_def ends_action_def)
qed

lemma succ_mono:
  fixes x :: "'a::len word"
  assumes "unat c < unat x + 1" and "x + 1 \<noteq> 0"
  shows "c \<le> x + 1"
  using assms by (simp add: word_le_nat_alt unat_succ)

lemma revision_lower_bound:
  assumes "snapshot_last_ok s" and "transition_allowed k (sn_State s) q" and "sn_Revision s + 1 \<noteq> 0"
    and "k = EventResolveReconciliation \<Longrightarrow> 5 \<le> sn_Revision s + 1"
  shows "minimum_transition_revision k (sn_State s) \<noteq> 0 \<and>
    minimum_transition_revision k (sn_State s) \<le> sn_Revision s + 1"
proof -
  let ?r = "sn_LastTransition s"
  consider "sn_State s = StateAccepted" "sn_Revision s = 1"
    | "transition_allowed (tr_Kind ?r) (tr_From ?r) (sn_State s)"
      "minimum_transition_revision (tr_Kind ?r) (tr_From ?r) \<le> sn_Revision s"
    using assms(1) by (auto simp: snapshot_last_ok_def Let_def split: if_splits)
  then show ?thesis
  proof cases
    case 1
    with assms(2) show ?thesis
      by (cases k) (auto simp: minimum_transition_revision_def)
  next
    case 2
    with assms(2-4) transition_allowed_ends [OF assms(2)] show ?thesis
      by (cases "k = EventResolveReconciliation"; cases "tr_Kind ?r"; cases "sn_State s")
        (auto simp: minimum_transition_revision_def word_le_nat_alt unat_succ state_terminal_def)
  qed
qed

lemma record_kept:
  assumes "validate_event s v = Inr ()" and "transition_allowed (ev_Kind v) (sn_State s) (sn_State nxt)"
  shows "validate_transition_record (make_record s nxt v)"
  using assms transition_allowed_valid [OF assms(2)]
  by (auto simp: validate_transition_record_def make_record_def validate_event_Inr
      validate_authenticated_operation_Inr split: if_splits)

lemma last_kept:
  assumes "snapshot_last_ok s" and "validate_event s v = Inr ()"
    and "apply_kind (ev_Kind v) s v = Inr nxt" and "result_ok s v"
  shows "snapshot_last_ok (finish_snapshot s nxt v)"
proof -
  note edge = apply_kind_edge [OF assms(3)]
  have "minimum_transition_revision (ev_Kind v) (sn_State s) \<noteq> 0 \<and>
      minimum_transition_revision (ev_Kind v) (sn_State s) \<le> sn_Revision s + 1"
    using assms(1,4) edge by (intro revision_lower_bound) (auto simp: result_ok_def)
  moreover have "ev_Kind v \<noteq> EventAccept" "reason_allowed (ev_Kind v) (rs_Code (ev_Reason v))"
    using assms(2) by (auto simp: validate_event_Inr)
  ultimately show ?thesis
    using record_kept [OF assms(2) edge] edge apply_kind_revision [OF assms(3)]
    by (simp add: snapshot_last_ok_def make_record_def finish_snapshot_def not_less)
qed

lemma result_valid:
  assumes "validate_snapshot s" and "\<not> state_terminal (sn_State s)" and "validate_event s v = Inr ()"
    and "apply_kind (ev_Kind v) s v = Inr nxt" and "result_ok s v"
  shows "validate_snapshot (finish_snapshot s nxt v)"
proof -
  note parts = validate_snapshotD [OF assms(1)]
  note times = event_time [OF assms(3) parts(1)]
  have "sn_Revision s + 1 \<noteq> 0" "ev_EvidenceRef v \<noteq> [] \<Longrightarrow> validate_reference (ev_EvidenceRef v)"
    using assms(3,5) by (auto simp: result_ok_def validate_event_Inr)
  then show ?thesis
    unfolding validate_snapshot_def
    using header_kept [OF parts(1) assms(3,4)] lease_kept [OF parts(2) times(2) assms(4,5)]
      resume_kept [OF parts(3) assms(4)] checkpoint_kept [OF parts(4) times(1) assms(4,5)]
      reconciliation_kept [OF parts(5) times(1,3) _ assms(4,5)] outcome_kept [OF parts(6) assms(2-5)]
      last_kept [OF parts(7) assms(3-5)]
    by blast
qed

lemma result_needed:
  assumes "validate_snapshot (finish_snapshot s nxt v)" and "apply_kind (ev_Kind v) s v = Inr nxt"
  shows "result_ok s v"
proof -
  note parts = validate_snapshotD [OF assms(1)]
  have "sn_Revision s + 1 \<noteq> 0"
    using parts(1) apply_kind_revision [OF assms(2)] by (simp add: snapshot_header_ok_def)
  moreover have "\<not> after (cp_CreatedAt c) (ev_At v)"
    if "ev_Kind v = EventWait \<or> ev_Kind v = EventPause" "ev_Checkpoint v = Some c" for c
    using parts(4) that assms(2) by (auto simp: snapshot_checkpoint_ok_def kind_inversion)
  moreover have "rn_Attempt r + 1 \<noteq> 0" if "ev_Kind v = EventBeginReconciliation" "sn_Reconciliation s = Some r" for r
    using parts(5) that assms(2)
    by (auto simp: snapshot_reconciliation_ok_def validate_reconciliation_def kind_inversion)
  moreover have "5 \<le> sn_Revision s + 1" if "ev_Kind v = EventResolveReconciliation"
    using parts(7) that apply_kind_revision [OF assms(2)]
    by (simp add: snapshot_last_ok_def make_record_def minimum_transition_revision_def not_less)
  moreover have "\<not> is_zero (ls_ExpiresAt l)" if "ev_Kind v = EventRenewLease" "ev_Lease v = Some l" for l
    using parts(2) that assms(2) by (auto simp: snapshot_lease_ok_def validate_lease_def kind_inversion)
  moreover have "validate_id (ev_ErrorCode v)" if "ends_action s v" "ev_ErrorCode v \<noteq> []"
  proof -
    have "state_terminal (sn_State nxt) \<and> map_option oc_ErrorCode (sn_Outcome nxt) = Some (ev_ErrorCode v)"
      using that(1) assms(2)
      by (auto simp: ends_action_def kind_inversion state_terminal_def terminal_outcome_def)
    with parts(6) that(2) show ?thesis
      by (auto simp: snapshot_outcome_ok_def validate_outcome_def)
  qed
  ultimately show ?thesis
    by (simp add: result_ok_def)
qed

lemma apply_action_succeeds:
  "apply_action s v = Inr t \<longleftrightarrow>
     validate_snapshot s \<and> ev_ExpectedRevision v = sn_Revision s \<and> \<not> state_terminal (sn_State s) \<and>
     validate_event s v = Inr () \<and> result_ok s v \<and>
     (\<exists>nxt. apply_kind (ev_Kind v) s v = Inr nxt \<and>
       t = \<lparr>tn_Snapshot = finish_snapshot s nxt v, tn_Record = make_record s nxt v, tn_Auth = None\<rparr>)"
  unfolding apply_action_Inr using result_valid result_needed by blast

section \<open>Constructing events\<close>

text \<open>An event without optional parts, and its authentication by an actor.\<close>

definition bare_event :: "event_kind \<Rightarrow> reason_code \<Rightarrow> snapshot \<Rightarrow> gotime \<Rightarrow> event" where
  "bare_event k r s t =
     \<lparr>ev_ID = ''event'', ev_Kind = k, ev_ExpectedRevision = sn_Revision s, ev_At = t,
      ev_Reason = \<lparr>rs_Code = r, rs_Detail = []\<rparr>, ev_Auth = None, ev_Fence = None, ev_Lease = None,
      ev_ResumeCondition = None, ev_Checkpoint = None, ev_EvidenceRef = [],
      ev_ReconciliationResult = no_result, ev_ResultRef = [], ev_ErrorCode = []\<rparr>"

definition later :: "gotime \<Rightarrow> int \<Rightarrow> gotime" where
  "later t d = t\<lparr>instant := instant t + d\<rparr>"

definition authenticate :: "string \<Rightarrow> snapshot \<Rightarrow> event \<Rightarrow> event" where
  "authenticate x s v = v\<lparr>ev_Auth := Some
     \<lparr>au_ActorID = x, au_AuthorizationID = ''authorization'', au_ProofID = ''proof'',
      au_Operation = ev_Kind v, au_ActionID = sn_ActionID s, au_ActionDigest = sn_ActionDigest s,
      au_MutationDigest = sha256_text (raws (FString MutationRequestSchemaV1 # mutation_fields v)),
      au_VerifierNonce = ''nonce'', au_IssuedAt = ev_At v, au_ExpiresAt = later (ev_At v) 1000\<rparr>\<rparr>"

definition encodable :: "event \<Rightarrow> bool" where
  "encodable v \<longleftrightarrow> fields_ok (FString MutationRequestSchemaV1 # mutation_fields v) \<and>
     length (raws (FString MutationRequestSchemaV1 # mutation_fields v)) \<le> max_transcript_bytes"

lemma mutation_fields_auth: "mutation_fields (v\<lparr>ev_Auth := a\<rparr>) = mutation_fields v"
  by (simp add: mutation_fields_def)

lemma authenticate_select [simp]:
  "ev_ID (authenticate x s v) = ev_ID v" "ev_Kind (authenticate x s v) = ev_Kind v"
  "ev_ExpectedRevision (authenticate x s v) = ev_ExpectedRevision v" "ev_At (authenticate x s v) = ev_At v"
  "ev_Reason (authenticate x s v) = ev_Reason v" "ev_Fence (authenticate x s v) = ev_Fence v"
  "ev_Lease (authenticate x s v) = ev_Lease v" "ev_ResumeCondition (authenticate x s v) = ev_ResumeCondition v"
  "ev_Checkpoint (authenticate x s v) = ev_Checkpoint v" "ev_EvidenceRef (authenticate x s v) = ev_EvidenceRef v"
  "ev_ReconciliationResult (authenticate x s v) = ev_ReconciliationResult v"
  "ev_ResultRef (authenticate x s v) = ev_ResultRef v" "ev_ErrorCode (authenticate x s v) = ev_ErrorCode v"
  "ev_Auth (authenticate x s v) \<noteq> None"
  by (simp_all add: authenticate_def)

lemma validate_id_literals [simp]:
  "validate_id ''event''" "validate_id ''authorization''" "validate_id ''proof''" "validate_id ''nonce''"
  by (simp_all add: validate_id_plain plain_def in_range_def byte_def markup_rune_def max_id_bytes_def)

lemma authenticate_valid:
  assumes "encodable v" and "validate_id x" and "0 < instant (ev_At v)"
  shows "validate_authenticated_operation s (authenticate x s v) (the (ev_Auth (authenticate x s v))) = Inr ()"
proof -
  have "mutation_request_digest (authenticate x s v) =
      Inr (sha256_text (raws (FString MutationRequestSchemaV1 # mutation_fields v)))"
    using assms(1)
    by (simp add: mutation_digest_Inr transcript_Inr_iff authenticate_def mutation_fields_auth encodable_def
        MutationRequestSchemaV1_def del: raws.simps fields_ok.simps)
  with assms show ?thesis
    by (simp add: validate_authenticated_operation_Inr) (simp add: authenticate_def later_def time_defs)
qed

end
