(* ===== verification/Action_Histories.thy ===== *)
theory Action_Histories
  imports Action_Progress
begin

text \<open>
  Histories of \<^verbatim>\<open>pkg/actionlifecycle\<close>: events that bring an Action to an end from every state, what
  acceptance establishes, and a concrete history on which the properties are evaluated.
\<close>

section \<open>Bringing an Action to an end\<close>

definition cancel_event :: "string \<Rightarrow> snapshot \<Rightarrow> gotime \<Rightarrow> event" where
  "cancel_event x s t = authenticate x s (bare_event EventRequestCancel ReasonCancelRequested s t)"

definition begin_event :: "string \<Rightarrow> snapshot \<Rightarrow> gotime \<Rightarrow> event" where
  "begin_event x s t = authenticate x s (bare_event EventBeginReconciliation ReasonReconciliationRequired s t)"

definition resolve_event :: "string \<Rightarrow> snapshot \<Rightarrow> gotime \<Rightarrow> event" where
  "resolve_event x s t = authenticate x s
     ((bare_event EventResolveReconciliation ReasonReconciliationResolved s t)
        \<lparr>ev_EvidenceRef := ''evidence'', ev_ReconciliationResult := ReconciliationCanceled\<rparr>)"

definition expired_event :: "snapshot \<Rightarrow> gotime \<Rightarrow> event" where
  "expired_event s t = bare_event EventLeaseExpired ReasonLeaseExpired s t"

section \<open>A concrete history\<close>

text \<open>
  An Action accepted at \<open>ex_time 0\<close>, started by one executor whose lease runs out, taken over and
  completed by another. Digests are the digests of the transcripts, left symbolic.
\<close>

definition ex_time :: "int \<Rightarrow> gotime" where
  "ex_time n = \<lparr>instant = 63900000000000000000 + n, location = UTC\<rparr>"

definition ex_policy :: recovery_policy where
  "ex_policy = \<lparr>rp_Mode = RecoveryRestartIdempotent, rp_MaxAttempts = 2, rp_IdempotencyKey = ''key''\<rparr>"

definition ex_unsigned :: definition_of_action where
  "ex_unsigned =
     \<lparr>df_EventID = ''accept'', df_ActionID = ''action'', df_ActionDigest = sha256_text ''action'',
      df_OwnerID = ''owner'', df_RecoveryPolicy = ex_policy,
      df_AcceptanceContextDigest = sha256_text ''context'', df_AcceptedAt = ex_time 0, df_Auth = None\<rparr>"

definition ex_auth :: authenticated_operation where
  "ex_auth =
     \<lparr>au_ActorID = ''owner'', au_AuthorizationID = ''authorization'', au_ProofID = ''proof'',
      au_Operation = EventAccept, au_ActionID = ''action'', au_ActionDigest = sha256_text ''action'',
      au_MutationDigest = sha256_text (raws (FString AcceptanceRequestSchemaV1 # acceptance_fields ex_unsigned)),
      au_VerifierNonce = ''nonce'', au_IssuedAt = ex_time 0, au_ExpiresAt = ex_time 1\<rparr>"

definition ex_definition :: definition_of_action where
  "ex_definition = ex_unsigned\<lparr>df_Auth := Some ex_auth\<rparr>"

definition ex_accepted :: snapshot where
  "ex_accepted = accepted_snapshot ex_definition ex_auth"

definition ex_lease :: "string \<Rightarrow> string \<Rightarrow> uint64 \<Rightarrow> int \<Rightarrow> executor_lease" where
  "ex_lease l x g n =
     \<lparr>ls_LeaseID = l, ls_ExecutorID = x, ls_Generation = g, ls_IssuedAt = ex_time n,
      ls_ExpiresAt = ex_time (n + 500)\<rparr>"

definition ex_start :: event where
  "ex_start = authenticate ''alice'' ex_accepted
     ((bare_event EventStart ReasonStarted ex_accepted (ex_time 10))
       \<lparr>ev_Lease := Some (ex_lease ''lease-1'' ''alice'' 1 10)\<rparr>)"

definition ex_running :: snapshot where
  "ex_running = finish_snapshot ex_accepted
     (ex_accepted\<lparr>sn_ExecutorLease := Some (ex_lease ''lease-1'' ''alice'' 1 10),
        sn_LeaseGeneration := 1, sn_State := StateRunning\<rparr>) ex_start"

definition ex_expired :: event where
  "ex_expired = expired_event ex_running (ex_time 510)"

definition ex_orphaned :: snapshot where
  "ex_orphaned = finish_snapshot ex_running
     (ex_running\<lparr>sn_State := StateOrphaned, sn_ExecutorLease := None\<rparr>) ex_expired"

definition ex_takeover :: event where
  "ex_takeover = authenticate ''bob'' ex_orphaned
     ((bare_event EventTakeover ReasonTakenOver ex_orphaned (ex_time 600))
       \<lparr>ev_Lease := Some (ex_lease ''lease-2'' ''bob'' 2 600)\<rparr>)"

definition ex_recovered :: snapshot where
  "ex_recovered = finish_snapshot ex_orphaned
     (ex_orphaned\<lparr>sn_ExecutorLease := Some (ex_lease ''lease-2'' ''bob'' 2 600),
        sn_LeaseGeneration := 2, sn_State := StateRunning, sn_RecoveryAttempts := 1\<rparr>) ex_takeover"

text \<open>A completion report under a given fence, by the actor it names.\<close>

definition ex_complete :: "snapshot \<Rightarrow> lease_fence \<Rightarrow> event" where
  "ex_complete s f = authenticate (lf_ExecutorID f) s
     ((bare_event EventComplete ReasonCompleted s (ex_time 700))\<lparr>ev_Fence := Some f\<rparr>)"

definition ex_fence1 :: lease_fence where
  "ex_fence1 = \<lparr>lf_LeaseID = ''lease-1'', lf_ExecutorID = ''alice'', lf_Generation = 1\<rparr>"

definition ex_fence2 :: lease_fence where
  "ex_fence2 = \<lparr>lf_LeaseID = ''lease-2'', lf_ExecutorID = ''bob'', lf_Generation = 2\<rparr>"

definition ex_done :: snapshot where
  "ex_done = finish_snapshot ex_recovered
     (ex_recovered\<lparr>sn_State := StateSucceeded, sn_ExecutorLease := None,
        sn_Outcome := Some (terminal_outcome OutcomeSucceeded (ex_complete ex_recovered ex_fence2) (ex_time 700))\<rparr>)
     (ex_complete ex_recovered ex_fence2)"

definition ex_history :: "event list" where
  "ex_history = [ex_start, ex_expired, ex_takeover]"

section \<open>Lemmas\<close>

lemma string_ok_printable: "printable s \<Longrightarrow> length s \<le> max_uint16 \<Longrightarrow> string_ok s"
  by (simp add: string_ok_def valid_utf8_ascii printable_ascii)

lemmas literal_defs = printable_def in_range_def byte_def max_uint16_def

lemma bare_select [simp]:
  "ev_ID (bare_event k r s t) = ''event''" "ev_Kind (bare_event k r s t) = k"
  "ev_ExpectedRevision (bare_event k r s t) = sn_Revision s" "ev_At (bare_event k r s t) = t"
  "ev_Reason (bare_event k r s t) = \<lparr>rs_Code = r, rs_Detail = []\<rparr>" "ev_Auth (bare_event k r s t) = None"
  "ev_Fence (bare_event k r s t) = None" "ev_Lease (bare_event k r s t) = None"
  "ev_ResumeCondition (bare_event k r s t) = None" "ev_Checkpoint (bare_event k r s t) = None"
  "ev_EvidenceRef (bare_event k r s t) = []" "ev_ReconciliationResult (bare_event k r s t) = no_result"
  "ev_ResultRef (bare_event k r s t) = []" "ev_ErrorCode (bare_event k r s t) = []"
  by (simp_all add: bare_event_def)

lemma ending_encodable:
  assumes "time_ok t"
  shows "encodable (bare_event EventRequestCancel ReasonCancelRequested s t)"
    "encodable (bare_event EventBeginReconciliation ReasonReconciliationRequired s t)"
    "encodable ((bare_event EventResolveReconciliation ReasonReconciliationResolved s t)
        \<lparr>ev_EvidenceRef := ''evidence'', ev_ReconciliationResult := ReconciliationCanceled\<rparr>)"
  using assms
  by (simp_all add: encodable_def mutation_fields_def MutationRequestSchemaV1_def put_string_def
      time_bytes_def max_transcript_bytes_def string_ok_printable literal_defs)

lemma authenticate_event_valid:
  assumes "encodable v" and "validate_id x" and "0 < instant (ev_At v)" and "\<not> before (ev_At v) (sn_UpdatedAt s)"
    and "ev_ID v = ''event''" and "valid_event_kind (ev_Kind v)" and "ev_Kind v \<noteq> EventAccept"
    and "ev_Kind v \<noteq> EventLeaseExpired" and "reason_allowed (ev_Kind v) (rs_Code (ev_Reason v))"
    and "validate_reason (ev_Reason v)" and "ev_EvidenceRef v = [] \<or> validate_reference (ev_EvidenceRef v)"
    and "ev_ResultRef v = []"
  shows "validate_event s (authenticate x s v) = Inr ()"
proof -
  obtain a where "ev_Auth (authenticate x s v) = Some a"
    by (simp add: authenticate_def)
  with authenticate_valid [OF assms(1-3), of s] assms(3-12) show ?thesis
    by (auto simp: validate_event_Inr is_zero_def)
qed

lemma event_step:
  assumes "validate_snapshot s" and "ev_ExpectedRevision v = sn_Revision s" and "\<not> state_terminal (sn_State s)"
    and "validate_event s v = Inr ()" and "apply_kind (ev_Kind v) s v = Inr nxt" and "result_ok s v"
  shows "action_step s v (finish_snapshot s nxt v)" "validate_snapshot (finish_snapshot s nxt v)"
    "sn_Revision (finish_snapshot s nxt v) = sn_Revision s + 1"
  using assms result_valid [OF assms(1,3-6)] apply_kind_revision [OF assms(5)]
  by (auto simp: action_step_def apply_action_succeeds)

lemma evidence_reference [simp]: "validate_reference ''evidence''"
  by (simp add: validate_reference_plain plain_def in_range_def byte_def markup_rune_def max_reference_bytes_def)

lemma cancel_step:
  assumes "validate_snapshot s" and "sn_Revision s + 1 \<noteq> 0" and "validate_id x" and "time_ok t"
    and "0 < instant t" and "\<not> before t (sn_UpdatedAt s)"
    and "apply_request_cancel s (cancel_event x s t) = Inr nxt"
  shows "\<exists>v s'. action_step s v s' \<and> validate_snapshot s' \<and> sn_Revision s' = sn_Revision s + 1 \<and>
    sn_UpdatedAt s' = utc t \<and> sn_State s' = sn_State nxt \<and> sn_Reconciliation s' = sn_Reconciliation nxt"
proof (intro exI conjI)
  let ?v = "cancel_event x s t"
  let ?s' = "finish_snapshot s nxt ?v"
  have "validate_event s ?v = Inr ()"
    unfolding cancel_event_def using assms
    by (intro authenticate_event_valid) (simp_all add: ending_encodable validate_reason_def)
  moreover have "result_ok s ?v" "\<not> state_terminal (sn_State s)"
    using assms(2,7) by (auto simp: result_ok_def cancel_event_def apply_request_cancel_Inr state_terminal_def)
  ultimately show "action_step s ?v ?s'" "validate_snapshot ?s'" "sn_Revision ?s' = sn_Revision s + 1"
    using assms(1,7) event_step [of s ?v nxt] by (simp_all add: cancel_event_def)
qed (simp_all add: cancel_event_def)

lemma begin_step:
  assumes "validate_snapshot s" and "sn_Revision s + 1 \<noteq> 0" and "validate_id x" and "time_ok t"
    and "0 < instant t" and "\<not> before t (sn_UpdatedAt s)" and "sn_State s = StateIndeterminate"
    and "\<And>r. sn_Reconciliation s = Some r \<Longrightarrow> rn_Attempt r + 1 \<noteq> 0"
  shows "\<exists>v s'. action_step s v s' \<and> validate_snapshot s' \<and> sn_Revision s' = sn_Revision s + 1 \<and>
    sn_UpdatedAt s' = utc t \<and> sn_State s' = StateIndeterminate \<and>
    (\<exists>r. sn_Reconciliation s' = Some r \<and> rn_Status r = ReconciliationRunning) \<and> 4 \<le> sn_Revision s'"
proof -
  let ?v = "begin_event x s t"
  obtain nxt where nxt: "apply_begin_reconciliation s ?v = Inr nxt"
    using assms(7) by (auto simp: apply_begin_reconciliation_def)
  have "validate_event s ?v = Inr ()"
    unfolding begin_event_def using assms
    by (intro authenticate_event_valid) (simp_all add: ending_encodable validate_reason_def)
  moreover have "result_ok s ?v" "\<not> state_terminal (sn_State s)"
    using assms(2,7,8) by (auto simp: result_ok_def begin_event_def ends_action_def state_terminal_def)
  ultimately have "action_step s ?v (finish_snapshot s nxt ?v)" "validate_snapshot (finish_snapshot s nxt ?v)"
      "sn_Revision (finish_snapshot s nxt ?v) = sn_Revision s + 1"
    using assms(1) nxt event_step [of s ?v nxt] by (simp_all add: begin_event_def)
  moreover from this have "4 \<le> sn_Revision (finish_snapshot s nxt ?v)"
    using revision_lower_bound [OF validate_snapshotD(7) [OF assms(1)], of EventBeginReconciliation] assms(2,7)
    by (simp add: minimum_transition_revision_def)
  ultimately show ?thesis
    using nxt by (intro exI [of _ ?v] exI [of _ "finish_snapshot s nxt ?v"])
      (auto simp: apply_begin_reconciliation_Inr begin_event_def)
qed

lemma resolve_step:
  assumes "validate_snapshot s" and "sn_Revision s + 1 \<noteq> 0" and "validate_id x" and "time_ok t"
    and "0 < instant t" and "\<not> before t (sn_UpdatedAt s)" and "sn_State s = StateIndeterminate"
    and "sn_Reconciliation s = Some r" and "rn_Status r = ReconciliationRunning" and "4 \<le> sn_Revision s"
  shows "\<exists>v s'. action_step s v s' \<and> sn_State s' = StateCanceled"
proof -
  let ?v = "resolve_event x s t"
  obtain nxt where nxt: "apply_resolve_reconciliation s ?v = Inr nxt" "sn_State nxt = StateCanceled"
    using assms(7-9)
    by (auto simp: apply_resolve_reconciliation_def resolve_event_def state_terminal_def Let_def)
  have "validate_event s ?v = Inr ()"
    unfolding resolve_event_def using assms
    by (intro authenticate_event_valid) (simp_all add: ending_encodable validate_reason_def)
  moreover have "result_ok s ?v" "\<not> state_terminal (sn_State s)"
    using assms(2,7,10)
    by (auto simp: result_ok_def resolve_event_def state_terminal_def word_le_nat_alt unat_succ)
  ultimately have "action_step s ?v (finish_snapshot s nxt ?v)"
    using assms(1) nxt(1) event_step [of s ?v nxt] by (simp add: resolve_event_def)
  with nxt(2) show ?thesis
    by (metis finish_select(1))
qed

lemma expire_step:
  assumes "validate_snapshot s" and "sn_Revision s + 1 \<noteq> 0" and "0 < instant t"
    and "\<not> before t (sn_UpdatedAt s)" and "requires_executor_lease (sn_State s)"
    and "sn_ExecutorLease s = Some l" and "\<not> before t (ls_ExpiresAt l)"
  shows "\<exists>v s'. action_step s v s' \<and> validate_snapshot s' \<and> sn_Revision s' = sn_Revision s + 1 \<and>
    sn_UpdatedAt s' = utc t \<and> sn_State s' = StateOrphaned"
proof -
  let ?v = "expired_event s t"
  obtain nxt where nxt: "apply_lease_expired s ?v = Inr nxt" "sn_State nxt = StateOrphaned"
    using assms(5-7) by (auto simp: apply_lease_expired_def expired_event_def)
  have "validate_event s ?v = Inr ()"
    using assms(3,4) by (simp add: validate_event_Inr expired_event_def validate_reason_def is_zero_def)
  moreover have "result_ok s ?v" "\<not> state_terminal (sn_State s)"
    using assms(2,5)
    by (auto simp: result_ok_def expired_event_def ends_action_def state_terminal_def requires_executor_lease_def)
  ultimately have "action_step s ?v (finish_snapshot s nxt ?v)" "validate_snapshot (finish_snapshot s nxt ?v)"
      "sn_Revision (finish_snapshot s nxt ?v) = sn_Revision s + 1"
    using assms(1) nxt(1) event_step [of s ?v nxt] by (simp_all add: expired_event_def)
  with nxt(2) show ?thesis
    by (intro exI [of _ ?v] exI [of _ "finish_snapshot s nxt ?v"]) (simp add: expired_event_def)
qed

lemma unat_succ_bounded:
  fixes w :: uint64
  assumes "unat w + n < 2 ^ 64" and "0 < n"
  shows "w + 1 \<noteq> 0" "unat (w + 1) + (n - 1) < 2 ^ 64"
proof -
  have "unat (w + 1) = unat w + 1"
    using assms by (simp add: unat_word_ariths)
  then show "w + 1 \<noteq> 0" "unat (w + 1) + (n - 1) < 2 ^ 64"
    using assms by (auto simp flip: word_pos_iff)
qed

lemma indeterminate_can_end:
  assumes "validate_snapshot s" and "unat (sn_Revision s) + 2 < 2 ^ 64" and "validate_id x" and "time_ok t"
    and "0 < instant t" and "\<not> before t (sn_UpdatedAt s)" and "sn_State s = StateIndeterminate"
    and "\<And>r. sn_Reconciliation s = Some r \<Longrightarrow> rn_Attempt r + 1 \<noteq> 0"
  shows "\<exists>vs s'. run action_step s vs s' \<and> state_terminal (sn_State s') \<and> length vs = 2"
proof -
  note bounds = unat_succ_bounded [OF assms(2)]
  obtain v1 s1 r where 1: "action_step s v1 s1" "validate_snapshot s1" "sn_Revision s1 = sn_Revision s + 1"
      "sn_UpdatedAt s1 = utc t" "sn_State s1 = StateIndeterminate" "sn_Reconciliation s1 = Some r"
      "rn_Status r = ReconciliationRunning" "4 \<le> sn_Revision s1"
    using begin_step [OF assms(1) _ assms(3-8)] bounds(1) by auto
  have "sn_Revision s1 + 1 \<noteq> 0"
    using bounds(2) 1(3) by (intro unat_succ_bounded(1) [of _ 1]) simp_all
  moreover have "\<not> before t (sn_UpdatedAt s1)"
    by (simp add: 1(4))
  ultimately obtain v2 s2 where "action_step s1 v2 s2" "sn_State s2 = StateCanceled"
    using resolve_step [OF 1(2) _ assms(3-5) _ 1(5-8)] by blast
  with 1(1) show ?thesis
    by (intro exI [of _ "[v1, v2]"] exI [of _ s2]) (auto simp: state_terminal_def)
qed

lemma orphaned_can_end:
  assumes "validate_snapshot s" and "unat (sn_Revision s) + 3 < 2 ^ 64" and "validate_id x" and "time_ok t"
    and "0 < instant t" and "\<not> before t (sn_UpdatedAt s)" and "sn_State s = StateOrphaned"
  shows "\<exists>vs s'. run action_step s vs s' \<and> state_terminal (sn_State s') \<and> length vs = 3"
proof -
  note bounds = unat_succ_bounded [OF assms(2)]
  obtain nxt where nxt: "apply_request_cancel s (cancel_event x s t) = Inr nxt" "sn_State nxt = StateIndeterminate"
      "sn_Reconciliation nxt = Some (required_reconciliation (utc t))"
    using assms(7) by (auto simp: apply_request_cancel_Inr cancel_event_def)
  obtain v1 s1 where 1: "action_step s v1 s1" "validate_snapshot s1" "sn_Revision s1 = sn_Revision s + 1"
      "sn_UpdatedAt s1 = utc t" "sn_State s1 = StateIndeterminate"
      "sn_Reconciliation s1 = Some (required_reconciliation (utc t))"
    using cancel_step [OF assms(1) _ assms(3-6) nxt(1)] bounds(1) nxt(2,3) by auto
  have "unat (sn_Revision s1) + 2 < 2 ^ 64"
    using bounds(2) 1(3) by simp
  then obtain vs s' where "run action_step s1 vs s'" "state_terminal (sn_State s')" "length vs = 2"
    using indeterminate_can_end [OF 1(2) _ assms(3-5) _ 1(5)] 1(4,6)
    by (auto simp: required_reconciliation_def)
  with 1(1) show ?thesis
    by (intro exI [of _ "v1 # vs"] exI [of _ s']) auto
qed

lemma running_can_end:
  assumes "validate_snapshot s" and "unat (sn_Revision s) + 4 < 2 ^ 64" and "validate_id x" and "time_ok t"
    and "0 < instant t" and "\<not> before t (sn_UpdatedAt s)" and "requires_executor_lease (sn_State s)"
    and "\<And>l. sn_ExecutorLease s = Some l \<Longrightarrow> \<not> before t (ls_ExpiresAt l)"
  shows "\<exists>vs s'. run action_step s vs s' \<and> state_terminal (sn_State s') \<and> length vs = 4"
proof -
  note bounds = unat_succ_bounded [OF assms(2)]
  obtain l where l: "sn_ExecutorLease s = Some l"
    using validate_snapshotD(2) [OF assms(1)] assms(7) by (auto simp: snapshot_lease_ok_def split: option.splits)
  obtain v1 s1 where 1: "action_step s v1 s1" "validate_snapshot s1" "sn_Revision s1 = sn_Revision s + 1"
      "sn_UpdatedAt s1 = utc t" "sn_State s1 = StateOrphaned"
    using expire_step [OF assms(1) _ assms(5-7) l assms(8) [OF l]] bounds(1) by auto
  have "unat (sn_Revision s1) + 3 < 2 ^ 64"
    using bounds(2) 1(3) by simp
  then obtain vs s' where "run action_step s1 vs s'" "state_terminal (sn_State s')" "length vs = 3"
    using orphaned_can_end [OF 1(2) _ assms(3-5) _ 1(5)] 1(4) by auto
  with 1(1) show ?thesis
    by (intro exI [of _ "v1 # vs"] exI [of _ s']) auto
qed

lemma idle_can_end:
  assumes "validate_snapshot s" and "sn_Revision s + 1 \<noteq> 0" and "validate_id x" and "time_ok t"
    and "0 < instant t" and "\<not> before t (sn_UpdatedAt s)"
    and "sn_State s = StateAccepted \<or> sn_State s = StateWaiting \<or> sn_State s = StatePaused"
  shows "\<exists>vs s'. run action_step s vs s' \<and> state_terminal (sn_State s') \<and> length vs = 1"
proof -
  obtain nxt where nxt: "apply_request_cancel s (cancel_event x s t) = Inr nxt" "state_terminal (sn_State nxt)"
    using assms(7) by (auto simp: apply_request_cancel_Inr state_terminal_def)
  obtain v s' where "action_step s v s'" "sn_State s' = sn_State nxt"
    using cancel_step [OF assms(1-6) nxt(1)] by blast
  with nxt(2) show ?thesis
    by (intro exI [of _ "[v]"] exI [of _ s']) auto
qed

section \<open>Acceptance\<close>

lemma acceptance_digest_cong:
  "acceptance_request_digest (d\<lparr>df_AcceptedAt := t, df_Auth := a\<rparr>) = acceptance_request_digest d"
  by (simp add: acceptance_request_digest_def acceptance_request_transcript_def)

lemma snapshot_acceptance_accepted:
  "acceptance_request_digest (snapshot_acceptance (accepted_snapshot d a)) = acceptance_request_digest d"
proof -
  have "snapshot_acceptance (accepted_snapshot d a) = d\<lparr>df_AcceptedAt := zero_time, df_Auth := None\<rparr>"
    by (simp add: snapshot_acceptance_def accepted_snapshot_def acceptance_record_def)
  then show ?thesis by (simp add: acceptance_digest_cong)
qed

lemma validate_authenticated_acceptance_Inr:
  "validate_authenticated_acceptance d a = Inr u \<longleftrightarrow>
     list_all validate_id [au_ActorID a, au_AuthorizationID a, au_ProofID a, au_VerifierNonce a] \<and>
     au_Operation a = EventAccept \<and> au_ActionID a = df_ActionID d \<and> au_ActionDigest a = df_ActionDigest d \<and>
     validate_digest (au_MutationDigest a) \<and> acceptance_request_digest d = Inr (au_MutationDigest a) \<and>
     \<not> is_zero (au_IssuedAt a) \<and> \<not> is_zero (au_ExpiresAt a) \<and>
     \<not> after (au_IssuedAt a) (df_AcceptedAt d) \<and> after (au_ExpiresAt a) (df_AcceptedAt d)"
  unfolding validate_authenticated_acceptance_def by (simp add: and_then_Inr_iff) blast

lemma accepted_valid:
  assumes "validate_authenticated_acceptance d a = Inr ()" and "\<not> is_zero (df_AcceptedAt d)"
  shows "validate_snapshot (accepted_snapshot d a)"
proof -
  have auth: "list_all validate_id [au_ActorID a, au_AuthorizationID a, au_ProofID a]"
      "validate_digest (au_MutationDigest a)" and digest: "acceptance_request_digest d = Inr (au_MutationDigest a)"
    using assms(1) by (simp_all add: validate_authenticated_acceptance_Inr)
  have request: "validate_id (df_EventID d)" "validate_id (df_ActionID d)" "validate_digest (df_ActionDigest d)"
      "validate_id (df_OwnerID d)" "validate_recovery_policy (df_RecoveryPolicy d)"
      "validate_digest (df_AcceptanceContextDigest d)"
    using digest by (auto simp: acceptance_digest_Inr acceptance_transcript_eq)
  have reason: "validate_reason \<lparr>rs_Code = ReasonAccepted, rs_Detail = []\<rparr>"
    by (simp add: validate_reason_def)
  have "validate_transition_record (acceptance_record d a)"
    using auth request assms(2) reason by (auto simp: validate_transition_record_def acceptance_record_def)
  then have "snapshot_last_ok (accepted_snapshot d a)"
    using digest snapshot_acceptance_accepted [of d a]
    by (simp add: snapshot_last_ok_def) (simp add: accepted_snapshot_def acceptance_record_def)
  then show ?thesis
    unfolding validate_snapshot_def
    using request reason assms(2)
    by (simp add: snapshot_header_ok_def snapshot_lease_ok_def snapshot_resume_ok_def snapshot_checkpoint_ok_def
        snapshot_reconciliation_ok_def snapshot_outcome_ok_def accepted_snapshot_def state_terminal_def
        requires_executor_lease_def)
qed

section \<open>The concrete history\<close>

lemma ex_literals [simp]:
  "validate_id ''accept''" "validate_id ''action''" "validate_id ''owner''" "validate_id ''alice''"
  "validate_id ''bob''" "validate_id ''lease-1''" "validate_id ''lease-2''" "validate_reference ''key''"
  by (simp_all add: validate_id_plain validate_reference_plain plain_def in_range_def byte_def markup_rune_def
      max_id_bytes_def max_reference_bytes_def)

lemma ex_time_simps [simp]:
  "instant (ex_time n) = 63900000000000000000 + n" "utc (ex_time n) = ex_time n"
  "is_zero (ex_time n) \<longleftrightarrow> n = -63900000000000000000"
  "before (ex_time m) (ex_time n) \<longleftrightarrow> m < n" "after (ex_time m) (ex_time n) \<longleftrightarrow> n < m"
  "equal_time (ex_time m) (ex_time n) \<longleftrightarrow> m = n" "later (ex_time m) n = ex_time (m + n)"
  by (auto simp: ex_time_def utc_def time_defs later_def)

lemma ex_time_ok [simp]: "0 \<le> n \<Longrightarrow> n < 10000 \<Longrightarrow> time_ok (ex_time n)"
  by (simp add: time_ok_def marshals_text_def min_durable_def max_durable_def ns_per_sec_def)

lemma ex_digest: "acceptance_request_digest ex_definition = Inr (au_MutationDigest ex_auth)"
proof -
  have f: "acceptance_fields ex_definition = acceptance_fields ex_unsigned"
    by (simp add: acceptance_fields_def ex_definition_def)
  have "string_ok (sha256_text m)" for m
    using sha256_text_printable [of m] by (simp add: string_ok_printable max_uint16_def)
  then have "transcript AcceptanceRequestSchemaV1 (acceptance_fields ex_unsigned) =
      Inr (raws (FString AcceptanceRequestSchemaV1 # acceptance_fields ex_unsigned))"
    by (simp add: transcript_Inr_iff acceptance_fields_def ex_unsigned_def ex_policy_def AcceptanceRequestSchemaV1_def
        put_string_def max_transcript_bytes_def string_ok_printable literal_defs)
  then show ?thesis
    by (simp add: acceptance_digest_Inr acceptance_transcript_eq f ex_auth_def del: raws.simps)
      (simp add: ex_definition_def ex_unsigned_def ex_policy_def validate_recovery_policy_def)
qed

lemma ex_acceptance: "validate_authenticated_acceptance ex_definition ex_auth = Inr ()"
  using ex_digest
  by (simp add: validate_authenticated_acceptance_Inr)
    (simp add: ex_auth_def ex_definition_def ex_unsigned_def)

lemma ex_accepted_valid: "validate_snapshot ex_accepted"
  unfolding ex_accepted_def
  by (rule accepted_valid [OF ex_acceptance]) (simp add: ex_definition_def ex_unsigned_def)

lemma ex_accepted_select [simp]:
  "sn_State ex_accepted = StateAccepted" "sn_Revision ex_accepted = 1" "sn_LeaseGeneration ex_accepted = 0"
  "sn_UpdatedAt ex_accepted = ex_time 0" "sn_RecoveryAttempts ex_accepted = 0"
  "sn_RecoveryPolicy ex_accepted = ex_policy" "sn_Checkpoint ex_accepted = None"
  by (simp_all add: ex_accepted_def accepted_snapshot_def ex_definition_def ex_unsigned_def)

lemma ex_authenticated:
  assumes "v = authenticate x s w" and "encodable w" and "validate_id x" and "0 < instant (ev_At w)"
    and "\<not> before (ev_At w) (sn_UpdatedAt s)" and "w = (bare_event k r s t)\<lparr>ev_Lease := l, ev_Fence := f\<rparr>"
    and "valid_event_kind k" "k \<noteq> EventAccept" "k \<noteq> EventLeaseExpired" "reason_allowed k r" "valid_reason r"
  shows "validate_event s v = Inr ()"
  unfolding assms(1) using assms(2-)
  by (intro authenticate_event_valid) (simp_all add: validate_reason_def)

lemmas ex_encoding = encodable_def mutation_fields_def MutationRequestSchemaV1_def put_string_def
  time_bytes_def max_transcript_bytes_def string_ok_printable literal_defs

lemma ex_start_step: "action_step ex_accepted ex_start ex_running" "validate_snapshot ex_running"
  "sn_Revision ex_running = 2"
proof -
  have "validate_event ex_accepted ex_start = Inr ()"
    by (rule ex_authenticated [OF ex_start_def, where l = "Some (ex_lease ''lease-1'' ''alice'' 1 10)"
        and f = None and k = EventStart and r = ReasonStarted and t = "ex_time 10"])
      (simp_all add: ex_encoding ex_lease_def bare_event_def)
  moreover have "apply_kind (ev_Kind ex_start) ex_accepted ex_start =
      Inr (ex_accepted\<lparr>sn_ExecutorLease := Some (ex_lease ''lease-1'' ''alice'' 1 10),
        sn_LeaseGeneration := 1, sn_State := StateRunning\<rparr>)"
    by (simp add: ex_start_def apply_start_def acquire_lease_def)
      (simp add: authenticate_def ex_lease_def validate_lease_def)
  moreover have "result_ok ex_accepted ex_start"
    by (simp add: result_ok_def ex_start_def ends_action_def)
  ultimately show "action_step ex_accepted ex_start ex_running" "validate_snapshot ex_running"
      "sn_Revision ex_running = 2"
    using event_step [OF ex_accepted_valid] unfolding ex_running_def
    by (simp_all add: ex_start_def state_terminal_def)
qed

lemma ex_running_select [simp]:
  "sn_State ex_running = StateRunning" "sn_LeaseGeneration ex_running = 1"
  "sn_ExecutorLease ex_running = Some (ex_lease ''lease-1'' ''alice'' 1 10)"
  "sn_UpdatedAt ex_running = ex_time 10" "sn_RecoveryAttempts ex_running = 0"
  "sn_RecoveryPolicy ex_running = ex_policy" "sn_Revision ex_running = 2"
  using ex_start_step(3) by (simp_all add: ex_running_def finish_snapshot_def ex_start_def)

lemma ex_expired_step: "action_step ex_running ex_expired ex_orphaned" "validate_snapshot ex_orphaned"
  "sn_Revision ex_orphaned = 3"
proof -
  have "validate_event ex_running ex_expired = Inr ()"
    by (simp add: validate_event_Inr ex_expired_def expired_event_def validate_reason_def)
  moreover have "apply_kind (ev_Kind ex_expired) ex_running ex_expired =
      Inr (ex_running\<lparr>sn_State := StateOrphaned, sn_ExecutorLease := None\<rparr>)"
    by (simp add: ex_expired_def expired_event_def apply_lease_expired_Inr requires_executor_lease_def ex_lease_def)
  moreover have "result_ok ex_running ex_expired"
    by (simp add: result_ok_def ex_expired_def expired_event_def ends_action_def)
  ultimately show "action_step ex_running ex_expired ex_orphaned" "validate_snapshot ex_orphaned"
      "sn_Revision ex_orphaned = 3"
    using event_step [OF ex_start_step(2)] unfolding ex_orphaned_def
    by (simp_all add: ex_expired_def expired_event_def state_terminal_def)
qed

lemma ex_orphaned_select [simp]:
  "sn_State ex_orphaned = StateOrphaned" "sn_LeaseGeneration ex_orphaned = 1"
  "sn_ExecutorLease ex_orphaned = None"
  "sn_UpdatedAt ex_orphaned = ex_time 510" "sn_RecoveryAttempts ex_orphaned = 0"
  "sn_RecoveryPolicy ex_orphaned = ex_policy" "sn_Revision ex_orphaned = 3"
  using ex_expired_step(3) by (simp_all add: ex_orphaned_def finish_snapshot_def ex_expired_def expired_event_def)

lemma ex_takeover_step: "action_step ex_orphaned ex_takeover ex_recovered" "validate_snapshot ex_recovered"
  "sn_Revision ex_recovered = 4"
proof -
  have "validate_event ex_orphaned ex_takeover = Inr ()"
    by (rule ex_authenticated [OF ex_takeover_def, where l = "Some (ex_lease ''lease-2'' ''bob'' 2 600)"
        and f = None and k = EventTakeover and r = ReasonTakenOver and t = "ex_time 600"])
      (simp_all add: ex_encoding ex_lease_def bare_event_def)
  moreover have "apply_kind (ev_Kind ex_takeover) ex_orphaned ex_takeover =
      Inr (ex_orphaned\<lparr>sn_ExecutorLease := Some (ex_lease ''lease-2'' ''bob'' 2 600),
        sn_LeaseGeneration := 2, sn_State := StateRunning, sn_RecoveryAttempts := 1\<rparr>)"
    by (simp add: ex_takeover_def apply_takeover_def acquire_lease_def takeover_permitted_def ex_policy_def)
      (simp add: authenticate_def ex_lease_def validate_lease_def)
  moreover have "result_ok ex_orphaned ex_takeover"
    by (simp add: result_ok_def ex_takeover_def ends_action_def)
  ultimately show "action_step ex_orphaned ex_takeover ex_recovered" "validate_snapshot ex_recovered"
      "sn_Revision ex_recovered = 4"
    using event_step [OF ex_expired_step(2)] unfolding ex_recovered_def
    by (simp_all add: ex_takeover_def state_terminal_def)
qed

lemma ex_recovered_select [simp]:
  "sn_State ex_recovered = StateRunning" "sn_LeaseGeneration ex_recovered = 2"
  "sn_ExecutorLease ex_recovered = Some (ex_lease ''lease-2'' ''bob'' 2 600)"
  "sn_UpdatedAt ex_recovered = ex_time 600" "sn_RecoveryAttempts ex_recovered = 1"
  "sn_RecoveryPolicy ex_recovered = ex_policy" "sn_Revision ex_recovered = 4"
  using ex_takeover_step(3) by (simp_all add: ex_recovered_def finish_snapshot_def ex_takeover_def)

lemma ex_complete_step: "action_step ex_recovered (ex_complete ex_recovered ex_fence2) ex_done"
  "validate_snapshot ex_done" "sn_Revision ex_done = 5"
proof -
  let ?v = "ex_complete ex_recovered ex_fence2"
  have "validate_event ex_recovered ?v = Inr ()"
    by (rule ex_authenticated [OF ex_complete_def, where l = None and f = "Some ex_fence2"
        and k = EventComplete and r = ReasonCompleted and t = "ex_time 700"])
      (simp_all add: ex_encoding ex_fence2_def bare_event_def)
  moreover have "apply_kind (ev_Kind ?v) ex_recovered ?v =
      Inr (ex_recovered\<lparr>sn_State := StateSucceeded, sn_ExecutorLease := None,
        sn_Outcome := Some (terminal_outcome OutcomeSucceeded ?v (ex_time 700))\<rparr>)"
    by (simp add: ex_complete_def apply_complete_def require_current_executor_def)
      (simp add: authenticate_def ex_lease_def ex_fence2_def)
  moreover have "result_ok ex_recovered ?v"
    by (simp add: result_ok_def ex_complete_def)
  ultimately show "action_step ex_recovered ?v ex_done" "validate_snapshot ex_done" "sn_Revision ex_done = 5"
    using event_step [OF ex_takeover_step(2)] unfolding ex_done_def
    by (simp_all add: ex_complete_def state_terminal_def)
qed

lemma ex_done_select [simp]:
  "sn_State ex_done = StateSucceeded" "sn_LeaseGeneration ex_done = 2" "sn_RecoveryAttempts ex_done = 1"
  "sn_Revision ex_done = 5"
  using ex_complete_step(3) by (simp_all add: ex_done_def finish_snapshot_def)

lemma ex_run: "run action_step ex_accepted ex_history ex_recovered"
  using ex_start_step(1) ex_expired_step(1) ex_takeover_step(1) by (auto simp: ex_history_def)

end
