(* ===== verification/Action_Properties.thy ===== *)
theory Action_Properties
  imports Action_Histories
begin

text \<open>
  The properties of \<^verbatim>\<open>pkg/actionlifecycle\<close>: what every successful transition and every history of
  transitions guarantees.
\<close>

text \<open>The events that only the current executor may send, in the states where the code asks for it.\<close>

definition executor_gated :: "snapshot \<Rightarrow> event \<Rightarrow> bool" where
  "executor_gated s v \<longleftrightarrow>
     ev_Kind v \<in> {EventWait, EventComplete, EventFail, EventConfirmCanceled, EventRenewLease} \<or>
     ev_Kind v = EventPause \<and> sn_State s = StateRunning \<or>
     ev_Kind v = EventMarkIndeterminate \<and> requires_executor_lease (sn_State s)"

text \<open>The actor of an event holds the lease of the Action, which has not expired.\<close>

definition by_holder :: "snapshot \<Rightarrow> event \<Rightarrow> bool" where
  "by_holder s v \<longleftrightarrow> (\<exists>l a. sn_ExecutorLease s = Some l \<and> ev_Auth v = Some a \<and> au_ActorID a = ls_ExecutorID l \<and>
     before (ev_At v) (ls_ExpiresAt l))"

text \<open>Which events may decide an Action, in which state, and how.\<close>

definition decides :: "snapshot \<Rightarrow> event \<Rightarrow> outcome_status \<Rightarrow> bool" where
  "decides s v r \<longleftrightarrow>
     sn_State s \<in> {StateRunning, StateCanceling} \<and> by_holder s v \<and>
       (ev_Kind v, r) \<in> {(EventComplete, OutcomeSucceeded), (EventFail, OutcomeFailed)} \<or>
     sn_State s = StateCanceling \<and> by_holder s v \<and> (ev_Kind v, r) = (EventConfirmCanceled, OutcomeCanceled) \<or>
     sn_State s \<in> {StateAccepted, StateWaiting, StatePaused} \<and> (ev_Kind v, r) = (EventRequestCancel, OutcomeCanceled) \<or>
     sn_State s = StateIndeterminate \<and> ev_Kind v = EventResolveReconciliation \<and> ev_EvidenceRef v \<noteq> [] \<and>
       (ev_ReconciliationResult v, r) \<in> {(ReconciliationSucceeded, OutcomeSucceeded),
         (ReconciliationFailed, OutcomeFailed), (ReconciliationCanceled, OutcomeCanceled)}"

definition takeover_count :: "event list \<Rightarrow> nat" where
  "takeover_count vs = length (filter (\<lambda>v. ev_Kind v = EventTakeover) vs)"

text \<open>The running Action of the concrete history, after its owner asked for cancellation.\<close>

definition ex_cancel :: event where
  "ex_cancel = cancel_event ''owner'' ex_running (ex_time 20)"

definition ex_canceling :: snapshot where
  "ex_canceling = finish_snapshot ex_running (ex_running\<lparr>sn_State := StateCanceling\<rparr>) ex_cancel"

section \<open>Facts about the specification\<close>

lemma lifecycle_epoch: "lifecycle_step a lbl b \<Longrightarrow> epoch a \<le> epoch b"
  by (erule lifecycle_stepE) auto

lemma lifecycle_version: "lifecycle_step a lbl b \<Longrightarrow> version b = version a + 1"
  by (erule lifecycle_stepE) auto

lemma lifecycle_savepoint: "lifecycle_step a lbl b \<Longrightarrow> savepoint a \<le> savepoint b"
  by (erule lifecycle_stepE) auto

lemma lifecycle_takeovers:
  "lifecycle_step a lbl b \<Longrightarrow>
     budget b = budget a \<and> takeovers b = takeovers a + (if fst lbl = EventTakeover then 1 else 0)"
  by (erule lifecycle_stepE) (auto simp: finishes_def)

lemma lifecycle_holder:
  "lifecycle_step a lbl b \<Longrightarrow> epoch a < epoch b \<or> holder b = holder a \<or> holder b = None"
  by (erule lifecycle_stepE) auto

interpretation epochs: increasing lifecycle_step "\<lambda>_. True" epoch
  by unfold_locales (auto intro: lifecycle_epoch)

interpretation savepoints: increasing lifecycle_step "\<lambda>_. True" savepoint
  by unfold_locales (auto intro: lifecycle_savepoint)

lemma run_holder:
  "run lifecycle_step a ls b \<Longrightarrow> epoch a < epoch b \<or> holder b = holder a \<or> holder b = None"
proof (induction rule: run.induct)
  case (run_Cons a lbl a' ls b)
  have "epoch a' \<le> epoch b"
    using epochs.run_grows [OF run_Cons.hyps(2)] by simp
  with run_Cons.IH lifecycle_holder [OF run_Cons.hyps(1)] lifecycle_epoch [OF run_Cons.hyps(1)] show ?case
    by auto
qed simp

lemma run_version: "run lifecycle_step a ls b \<Longrightarrow> version b = version a + length ls"
  by (induction rule: run.induct) (auto dest: lifecycle_version)

lemma run_takeovers:
  "run lifecycle_step a ls b \<Longrightarrow> budget b = budget a \<and>
     takeovers b = takeovers a + length (filter (\<lambda>l. fst l = EventTakeover) ls)"
  by (induction rule: run.induct) (auto dest: lifecycle_takeovers)

lemma takeover_count_labels:
  "length (filter (\<lambda>l. fst l = EventTakeover) (map event_label vs)) = takeover_count vs"
  by (simp add: takeover_count_def filter_map o_def event_label_def)

lemma gated_executor:
  assumes "executor_gated s v" and "apply_kind (ev_Kind v) s v = Inr nxt"
  shows "require_current_executor s v = Inr ()"
  using assms by (auto simp: executor_gated_def case_inversion requires_executor_lease_def)

interpretation clock: increasing action_step validate_snapshot "\<lambda>s. instant (sn_UpdatedAt s)"
  by unfold_locales (auto simp: action_step_iff validate_event_Inr time_defs)

interpretation identity: preserved action_step "\<lambda>s. identity_of s = i" for i
proof unfold_locales
  fix s v s'
  assume "identity_of s = i" and "action_step s v s'"
  then obtain nxt where "apply_kind (ev_Kind v) s v = Inr nxt" "s' = finish_snapshot s nxt v"
    by (auto simp: action_step_iff)
  then have "identity_of s' = identity_of s"
    using apply_kind_identity by (simp add: finish_snapshot_def identity_of_def)
  with \<open>identity_of s = i\<close> show "identity_of s' = i" by simp
qed

lemma ex_cancel_step: "action_step ex_running ex_cancel ex_canceling"
proof -
  have "validate_event ex_running ex_cancel = Inr ()"
    unfolding ex_cancel_def cancel_event_def
    by (intro authenticate_event_valid) (simp_all add: ending_encodable validate_reason_def)
  moreover have "result_ok ex_running ex_cancel"
    by (simp add: result_ok_def ex_cancel_def cancel_event_def)
  ultimately show ?thesis
    using event_step(1) [OF ex_start_step(2), of ex_cancel] unfolding ex_canceling_def
    by (simp add: ex_cancel_def cancel_event_def state_terminal_def apply_request_cancel_def)
qed

lemma ex_resolve_step: "\<exists>s v s'. action_step s v s' \<and> sn_State s = StateIndeterminate \<and> sn_State s' = StateCanceled"
proof -
  have x: "validate_id ''owner''" "time_ok (ex_time 600)" "0 < instant (ex_time 600)"
      "\<not> before (ex_time 600) (sn_UpdatedAt ex_orphaned)" "sn_Revision ex_orphaned + 1 \<noteq> 0"
    by simp_all
  obtain nxt where nxt: "apply_request_cancel ex_orphaned (cancel_event ''owner'' ex_orphaned (ex_time 600)) = Inr nxt"
      "sn_State nxt = StateIndeterminate" "sn_Reconciliation nxt = Some (required_reconciliation (ex_time 600))"
    by (simp add: apply_request_cancel_def cancel_event_def)
  obtain s1 where 1: "validate_snapshot s1" "sn_Revision s1 = 4" "sn_UpdatedAt s1 = ex_time 600"
      "sn_State s1 = StateIndeterminate" "sn_Reconciliation s1 = Some (required_reconciliation (ex_time 600))"
    using cancel_step [OF ex_expired_step(2) x(5) x(1-4) nxt(1)] nxt(2,3) by auto
  then have "sn_Revision s1 + 1 \<noteq> 0" "\<not> before (ex_time 600) (sn_UpdatedAt s1)"
      "\<And>r. sn_Reconciliation s1 = Some r \<Longrightarrow> rn_Attempt r + 1 \<noteq> 0"
    by (simp_all add: required_reconciliation_def)
  from begin_step [OF 1(1) this(1) x(1-3) this(2) 1(4) this(3)] 1(2) obtain s2 r where 2:
      "validate_snapshot s2" "sn_Revision s2 = 5" "sn_UpdatedAt s2 = ex_time 600"
      "sn_State s2 = StateIndeterminate" "sn_Reconciliation s2 = Some r" "rn_Status r = ReconciliationRunning"
    by auto
  then have "sn_Revision s2 + 1 \<noteq> 0" "\<not> before (ex_time 600) (sn_UpdatedAt s2)" "4 \<le> sn_Revision s2"
    by simp_all
  from resolve_step [OF 2(1) this(1) x(1-3) this(2) 2(4-6) this(3)] 2(4) show ?thesis
    by blast
qed

lemma acceptance_digest_time:
  "acceptance_request_digest (d\<lparr>df_AcceptedAt := t\<rparr>) = acceptance_request_digest d"
  by (simp add: acceptance_request_digest_def acceptance_request_transcript_def)

lemma ex_definition_checks:
  "validate_id (df_EventID ex_definition)" "validate_id (df_ActionID ex_definition)"
  "validate_digest (df_ActionDigest ex_definition)" "validate_id (df_OwnerID ex_definition)"
  "validate_recovery_policy (df_RecoveryPolicy ex_definition)"
  using ex_digest by (auto simp: acceptance_digest_Inr acceptance_transcript_eq)

lemma and_then_Inl_iff: "and_then r f = Inl e \<longleftrightarrow> r = Inl e \<or> (\<exists>x. r = Inr x \<and> f x = Inl e)"
  by (cases r) auto

lemma event_no_panic: "validate_event s v \<noteq> Inl PanicNilDereference"
  by (auto simp: validate_event_def validate_authenticated_operation_def split: option.splits sum.splits)

lemmas no_panic_defs = apply_kind_defs acquire_lease_def require_current_executor_def update_checkpoint_def
  resume_satisfied_def and_then_Inl_iff Let_def

lemma kind_no_panic:
  assumes "snapshot_lease_ok s" and "snapshot_resume_ok s"
  shows "apply_kind k s v \<noteq> Inl PanicNilDereference"
  using assms
  by (cases k)
    (auto simp: no_panic_defs snapshot_lease_ok_def snapshot_resume_ok_def
      split: option.splits state.splits if_splits recovery_mode.splits reconciliation_result.splits)

section \<open>Histories\<close>

text \<open>
  C1. Refinement: every history of successful \<^verbatim>\<open>Apply\<close> calls from a valid snapshot is a history of the
  lifecycle specification, with the event kinds and the authenticated actors as its labels.
\<close>

theorem apply_refines_lifecycle:
  assumes "validate_snapshot s" and "run action_step s vs s'"
  shows "run lifecycle_step (abs_snapshot s) (map event_label vs) (abs_snapshot s') \<and> validate_snapshot s'"
  using lifecycle.run_simulated [OF assms(2,1)] lifecycle.run_keeps [OF assms(2,1)] by simp

theorem apply_refines_lifecycle_witness:
  "run lifecycle_step (abs_snapshot ex_accepted) (map event_label ex_history) (abs_snapshot ex_recovered) \<and>
   validate_snapshot ex_recovered"
  by (rule apply_refines_lifecycle [OF ex_accepted_valid ex_run])

text \<open>
  C8. Fencing: once the lease generation has moved on, no event that the code reserves to the
  current executor succeeds under a fence of an earlier generation, whoever signs it.
\<close>

theorem stale_fence_rejected:
  assumes "validate_snapshot s" and "run action_step s vs s'"
    and "sn_LeaseGeneration s < sn_LeaseGeneration s'"
    and "executor_gated s' v" and "ev_Fence v = Some f" and "lf_Generation f \<le> sn_LeaseGeneration s"
  shows "\<not> (\<exists>t. apply_action s' v = Inr t)"
proof
  assume "\<exists>t. apply_action s' v = Inr t"
  then obtain nxt where "validate_snapshot s'" "apply_kind (ev_Kind v) s' v = Inr nxt"
    by (auto simp: apply_action_Inr)
  with gated_executor [OF assms(4)] have "require_current_executor s' v = Inr ()" "snapshot_lease_ok s'"
    by (auto dest: validate_snapshotD)
  with assms(5) have "lf_Generation f = sn_LeaseGeneration s'"
    by (auto simp: require_current_executor_Inr snapshot_lease_ok_def)
  with assms(3,6) show False
    by simp
qed

theorem stale_fence_rejected_witness:
  "\<not> (\<exists>t. apply_action ex_recovered (ex_complete ex_recovered ex_fence1) = Inr t)"
proof -
  have "run action_step ex_running [ex_expired, ex_takeover] ex_recovered"
    using ex_expired_step(1) ex_takeover_step(1) by auto
  then show ?thesis
    by (rule stale_fence_rejected [OF ex_start_step(2), where f = ex_fence1])
      (simp_all add: executor_gated_def ex_complete_def ex_fence1_def)
qed

text \<open>
  C22. One holder per generation: at two points of a history, snapshots with leases of the same
  generation name the same lease and the same executor.
\<close>

theorem lease_generation_unique:
  assumes "validate_snapshot s" and "run action_step s vs s'"
    and "sn_ExecutorLease s = Some l" and "sn_ExecutorLease s' = Some l'"
    and "ls_Generation l = ls_Generation l'"
  shows "ls_LeaseID l = ls_LeaseID l' \<and> ls_ExecutorID l = ls_ExecutorID l'"
proof -
  have "validate_snapshot s'"
    by (rule lifecycle.run_keeps [OF assms(2,1)])
  with assms have "epoch (abs_snapshot s) = epoch (abs_snapshot s')"
    by (auto simp: abs_snapshot_def snapshot_lease_ok_def dest!: validate_snapshotD(2))
  with run_holder [OF lifecycle.run_simulated [OF assms(2,1)]] assms(3,4) show ?thesis
    by (simp add: abs_snapshot_def)
qed

theorem lease_generation_unique_witness:
  "action_step ex_running ex_cancel ex_canceling \<and>
   ls_LeaseID (ex_lease ''lease-1'' ''alice'' 1 10) = ls_LeaseID (ex_lease ''lease-1'' ''alice'' 1 10) \<and>
   ls_ExecutorID (ex_lease ''lease-1'' ''alice'' 1 10) = ls_ExecutorID (ex_lease ''lease-1'' ''alice'' 1 10)"
proof (rule conjI [OF ex_cancel_step])
  show "ls_LeaseID (ex_lease ''lease-1'' ''alice'' 1 10) = ls_LeaseID (ex_lease ''lease-1'' ''alice'' 1 10) \<and>
      ls_ExecutorID (ex_lease ''lease-1'' ''alice'' 1 10) = ls_ExecutorID (ex_lease ''lease-1'' ''alice'' 1 10)"
    using ex_cancel_step
    by (intro lease_generation_unique [OF ex_start_step(2), of "[ex_cancel]" ex_canceling])
      (auto simp: ex_canceling_def)
qed

text \<open>
  The revision counts the transitions: after a history of n events it is larger by exactly n,
  as a natural number, so the 64-bit counter never wraps, and the recorded time never goes back.
\<close>

theorem revision_counts:
  assumes "validate_snapshot s" and "run action_step s vs s'"
  shows "unat (sn_Revision s') = unat (sn_Revision s) + length vs \<and>
    instant (sn_UpdatedAt s) \<le> instant (sn_UpdatedAt s')"
  using run_version [OF lifecycle.run_simulated [OF assms(2,1)]] clock.run_grows [OF assms(2,1)]
  by (simp add: abs_snapshot_def)

theorem revision_counts_witness:
  "unat (sn_Revision ex_recovered) = unat (sn_Revision ex_accepted) + length ex_history \<and>
   instant (sn_UpdatedAt ex_accepted) \<le> instant (sn_UpdatedAt ex_recovered)"
  by (rule revision_counts [OF ex_accepted_valid ex_run])

text \<open>
  C21. Bounded recovery: along a history the recovery attempts grow by exactly the number of
  takeovers, and never pass the limit of the policy that was accepted.
\<close>

theorem takeovers_bounded:
  assumes "validate_snapshot s" and "run action_step s vs s'"
  shows "unat (sn_RecoveryAttempts s') = unat (sn_RecoveryAttempts s) + takeover_count vs \<and>
    unat (sn_RecoveryAttempts s) + takeover_count vs \<le> unat (rp_MaxAttempts (sn_RecoveryPolicy s))"
proof -
  have "snapshot_header_ok s'"
    using lifecycle.run_keeps [OF assms(2,1)] by (rule validate_snapshotD)
  with run_takeovers [OF lifecycle.run_simulated [OF assms(2,1)], unfolded takeover_count_labels] show ?thesis
    by (simp add: takeovers_abs snapshot_header_ok_def not_less word_le_nat_alt)
qed

theorem takeovers_bounded_witness:
  "unat (sn_RecoveryAttempts ex_recovered) = unat (sn_RecoveryAttempts ex_accepted) + takeover_count ex_history \<and>
   unat (sn_RecoveryAttempts ex_accepted) + takeover_count ex_history \<le>
     unat (rp_MaxAttempts (sn_RecoveryPolicy ex_accepted))"
  by (rule takeovers_bounded [OF ex_accepted_valid ex_run])

text \<open>
  No history changes the schema, the Action's identity and digest, its owner, its recovery
  policy or its creation time, and the checkpoint sequence never decreases.
\<close>

theorem identity_immutable:
  assumes "validate_snapshot s" and "run action_step s vs s'"
  shows "identity_of s' = identity_of s \<and>
    savepoint (abs_snapshot s) \<le> savepoint (abs_snapshot s')"
  using identity.run_keeps [OF assms(2) refl] savepoints.run_grows [OF lifecycle.run_simulated [OF assms(2,1)]]
  by simp

theorem identity_immutable_witness:
  "identity_of ex_recovered = identity_of ex_accepted \<and>
   savepoint (abs_snapshot ex_accepted) \<le> savepoint (abs_snapshot ex_recovered)"
  by (rule identity_immutable [OF ex_accepted_valid ex_run])

text \<open>
  C20. Liveness: from every valid, non-terminal snapshot at most four events lead to a terminal
  state, at any durable time that is not before the last update or the expiry of the lease,
  unless a counter is about to overflow.
\<close>

theorem action_can_end:
  assumes "validate_snapshot s" and "unat (sn_Revision s) + 4 < 2 ^ 64"
    and "\<And>r. sn_Reconciliation s = Some r \<Longrightarrow> rn_Attempt r + 1 \<noteq> 0"
    and "time_ok t" and "0 < instant t" and "\<not> before t (sn_UpdatedAt s)"
    and "\<And>l. sn_ExecutorLease s = Some l \<Longrightarrow> \<not> before t (ls_ExpiresAt l)"
  shows "\<exists>vs s'. run action_step s vs s' \<and> state_terminal (sn_State s') \<and> length vs \<le> 4"
proof -
  have x: "validate_id ''event''" by simp
  have rev: "unat (sn_Revision s) + 3 < 2 ^ 64" "unat (sn_Revision s) + 2 < 2 ^ 64" "sn_Revision s + 1 \<noteq> 0"
    using assms(2) unat_succ_bounded(1) [of "sn_Revision s" 4] by simp_all
  have "valid_state (sn_State s)"
    using assms(1) by (simp add: validate_snapshot_def snapshot_header_ok_def)
  then consider "state_terminal (sn_State s)" | "requires_executor_lease (sn_State s)"
    | "sn_State s = StateOrphaned" | "sn_State s = StateIndeterminate"
    | "sn_State s = StateAccepted \<or> sn_State s = StateWaiting \<or> sn_State s = StatePaused"
    by (cases "sn_State s") (auto simp: state_terminal_def requires_executor_lease_def)
  then show ?thesis
  proof cases
    case 1
    then show ?thesis by (intro exI [of _ "[]"] exI [of _ s]) simp
  next
    case 2
    then show ?thesis using running_can_end [OF assms(1,2) x assms(4-6)] assms(7) by fastforce
  next
    case 3
    then show ?thesis using orphaned_can_end [OF assms(1) rev(1) x assms(4-6)] by fastforce
  next
    case 4
    then show ?thesis using indeterminate_can_end [OF assms(1) rev(2) x assms(4-6)] assms(3) by fastforce
  next
    case 5
    then show ?thesis using idle_can_end [OF assms(1) rev(3) x assms(4-6)] by fastforce
  qed
qed

theorem action_can_end_witness:
  "\<exists>vs s'. run action_step ex_running vs s' \<and> state_terminal (sn_State s') \<and> length vs \<le> 4"
proof (rule action_can_end [OF ex_start_step(2), of "ex_time 510"])
  show "rn_Attempt r + 1 \<noteq> 0" if "sn_Reconciliation ex_running = Some r" for r
    using that by (simp add: ex_running_def finish_snapshot_def ex_accepted_def accepted_snapshot_def)
qed (simp_all add: ex_lease_def)

section \<open>Single transitions\<close>

text \<open>
  C17. When \<^verbatim>\<open>Apply\<close> succeeds, exactly: the snapshot is valid and not terminal, the expected revision
  matches, the event checks and the case of its kind pass, and the six conditions of
  \<^const>\<open>result_ok\<close> hold. They are all that the validation of the result adds.
\<close>

theorem apply_succeeds_iff:
  "(\<exists>t. apply_action s v = Inr t) \<longleftrightarrow>
     validate_snapshot s \<and> ev_ExpectedRevision v = sn_Revision s \<and> \<not> state_terminal (sn_State s) \<and>
     validate_event s v = Inr () \<and> (\<exists>nxt. apply_kind (ev_Kind v) s v = Inr nxt) \<and> result_ok s v"
  using apply_action_succeeds by auto

text \<open>
  C33. Authentication: a transition other than a lease expiry succeeds only with an authenticated
  operation of the same kind, for this Action and digest, whose mutation digest is the digest of
  this very request and whose validity window contains the event time, and the record names its
  actor. A lease expiry succeeds only without one, after the lease has run out.
\<close>

theorem apply_authenticated:
  assumes "apply_action s v = Inr t"
  shows "if ev_Kind v = EventLeaseExpired
    then ev_Auth v = None \<and> tr_ActorID (tn_Record t) = [] \<and>
      (\<exists>l. sn_ExecutorLease s = Some l \<and> \<not> before (ev_At v) (ls_ExpiresAt l))
    else \<exists>a. ev_Auth v = Some a \<and> au_Operation a = ev_Kind v \<and> au_ActionID a = sn_ActionID s \<and>
      au_ActionDigest a = sn_ActionDigest s \<and> mutation_request_digest v = Inr (au_MutationDigest a) \<and>
      \<not> before (ev_At v) (au_IssuedAt a) \<and> before (ev_At v) (au_ExpiresAt a) \<and>
      tr_ActorID (tn_Record t) = au_ActorID a \<and> tr_MutationDigest (tn_Record t) = au_MutationDigest a"
proof -
  from assms obtain nxt where "validate_event s v = Inr ()" "apply_kind (ev_Kind v) s v = Inr nxt"
      "tn_Record t = make_record s nxt v"
    by (auto simp: apply_action_Inr)
  then show ?thesis
    by (auto simp: validate_event_Inr validate_authenticated_operation_Inr make_record_def time_defs
        apply_lease_expired_Inr)
qed

theorem apply_authenticated_witness:
  "\<exists>t a. apply_action ex_accepted ex_start = Inr t \<and> ev_Auth ex_start = Some a \<and>
     mutation_request_digest ex_start = Inr (au_MutationDigest a) \<and> tr_ActorID (tn_Record t) = au_ActorID a"
proof -
  obtain t where t: "apply_action ex_accepted ex_start = Inr t"
    using ex_start_step(1) by (auto simp: action_step_def)
  moreover have "ev_Kind ex_start = EventStart"
    by (simp add: ex_start_def)
  ultimately show ?thesis
    using apply_authenticated [OF t] by auto
qed

text \<open>
  C32. A captured authorization is useless for another request: if two events that carry the same
  mutation digest both succeed (with authentication), they are the same request, or their
  transcripts are an explicit SHA-256 collision.
\<close>

theorem authorization_binds_request:
  assumes "apply_action s v = Inr t" and "apply_action s2 w = Inr t2"
    and "ev_Auth v = Some a" and "ev_Auth w = Some b" and "au_MutationDigest a = au_MutationDigest b"
  shows "same_mutation v w \<or>
    (\<exists>m m'. mutation_request_transcript v = Inr m \<and> mutation_request_transcript w = Inr m' \<and>
      sha256_collision m m')"
proof (rule mutation_digest_unique)
  show "mutation_request_digest v = Inr (au_MutationDigest a)"
    using assms(1,3) by (auto simp: apply_action_Inr validate_event_Inr validate_authenticated_operation_Inr
        split: if_splits)
  show "mutation_request_digest w = Inr (au_MutationDigest a)"
    unfolding assms(5)
    using assms(2,4) by (auto simp: apply_action_Inr validate_event_Inr validate_authenticated_operation_Inr
        split: if_splits)
qed

theorem authorization_binds_request_witness:
  "\<exists>a. ev_Auth ex_start = Some a \<and> au_ActorID a = ''alice'' \<and>
    (same_mutation ex_start ex_start \<or>
     (\<exists>m m'. mutation_request_transcript ex_start = Inr m \<and> mutation_request_transcript ex_start = Inr m' \<and>
       sha256_collision m m'))"
proof -
  obtain t where t: "apply_action ex_accepted ex_start = Inr t"
    using ex_start_step(1) by (auto simp: action_step_def)
  obtain a where a: "ev_Auth ex_start = Some a" "au_ActorID a = ''alice''"
    by (simp add: ex_start_def authenticate_def)
  show ?thesis
    by (intro exI conjI) (rule a, rule a, rule authorization_binds_request [OF t t a(1) a(1) refl])
qed

text \<open>
  Replay: an event that has succeeded fails with the revision conflict on the snapshot it
  produced.
\<close>

theorem replay_rejected:
  assumes "apply_action s v = Inr t"
  shows "apply_action (tn_Snapshot t) v = Inl ErrRevisionConflict"
proof -
  from assms obtain nxt where "ev_ExpectedRevision v = sn_Revision s" "apply_kind (ev_Kind v) s v = Inr nxt"
      "validate_snapshot (tn_Snapshot t)" "tn_Snapshot t = finish_snapshot s nxt v"
    by (auto simp: apply_action_Inr)
  then show ?thesis
    by (simp add: apply_action_def apply_kind_revision)
qed

theorem replay_rejected_witness:
  "\<exists>t. apply_action ex_accepted ex_start = Inr t \<and> apply_action (tn_Snapshot t) ex_start = Inl ErrRevisionConflict"
proof -
  obtain t where "apply_action ex_accepted ex_start = Inr t"
    using ex_start_step(1) by (auto simp: action_step_def)
  with replay_rejected [OF this] show ?thesis by blast
qed

text \<open>Only a deciding event records an outcome, and it records what it decides.\<close>

lemma decided_by:
  assumes "action_step s v s'" and "sn_Outcome s = None" and "sn_Outcome s' = Some o'"
  shows "decides s v (oc_Status o')" and "oc_ResultRef o' = ev_ResultRef v" and "oc_RecordedAt o' = utc (ev_At v)"
    and "(oc_Status o', sn_State s') \<in>
      {(OutcomeSucceeded, StateSucceeded), (OutcomeFailed, StateFailed), (OutcomeCanceled, StateCanceled)}"
proof -
  from assms obtain nxt where k: "apply_kind (ev_Kind v) s v = Inr nxt" and o: "sn_Outcome nxt = Some o'" "sn_State s' = sn_State nxt"
    by (auto simp: action_step_iff finish_snapshot_def)
  have "decides s v (oc_Status o') \<and> oc_ResultRef o' = ev_ResultRef v \<and> oc_RecordedAt o' = utc (ev_At v) \<and>
      (oc_Status o', sn_State nxt) \<in>
        {(OutcomeSucceeded, StateSucceeded), (OutcomeFailed, StateFailed), (OutcomeCanceled, StateCanceled)}"
    using k o(1) assms(2)
    by (cases "ev_Kind v")
      (auto simp: kind_inversion require_current_executor_Inr requires_executor_lease_def terminal_outcome_def decides_def by_holder_def)
  then show "decides s v (oc_Status o')" "oc_ResultRef o' = ev_ResultRef v" "oc_RecordedAt o' = utc (ev_At v)"
    "(oc_Status o', sn_State s') \<in>
      {(OutcomeSucceeded, StateSucceeded), (OutcomeFailed, StateFailed), (OutcomeCanceled, StateCanceled)}"
    unfolding o(2) by blast+
qed

lemma undecided_iff: "validate_snapshot s \<Longrightarrow> sn_Outcome s = None \<longleftrightarrow> \<not> state_terminal (sn_State s)"
  by (auto simp: snapshot_outcome_ok_def dest: validate_snapshotD split: if_splits option.splits)

lemma decided_ends:
  assumes "validate_snapshot s" and "sn_Outcome s = Some o'"
  shows "\<not> action_step s v s'"
  using undecided_iff [OF assms(1)] assms(2) by (simp add: action_step_iff)

text \<open>
  C38. An Action is decided once, by its last event, and by the right party: in every history that ends with an
  outcome, no event before the last recorded one and no event can follow. The last event is a completion or failure
  by the holder of a live lease, a cancellation it confirms, a cancellation asked for while no executor runs, or a
  resolved reconciliation with evidence; the outcome is the one that event stands for, with its result and time, and
  the Action is in the state of that name.
\<close>

theorem outcome_decided_once:
  assumes "validate_snapshot s" and "sn_Outcome s = None" and "run action_step s vs s'" and "sn_Outcome s' = Some o'"
  shows "(\<exists>us v u. vs = us @ [v] \<and> run action_step s us u \<and> sn_Outcome u = None \<and> decides u v (oc_Status o') \<and>
      oc_ResultRef o' = ev_ResultRef v \<and> oc_RecordedAt o' = utc (ev_At v)) \<and>
    (oc_Status o', sn_State s') \<in>
      {(OutcomeSucceeded, StateSucceeded), (OutcomeFailed, StateFailed), (OutcomeCanceled, StateCanceled)} \<and>
    (\<forall>w t. apply_action s' w \<noteq> Inr t)"
proof (cases vs rule: rev_cases)
  case Nil
  with assms show ?thesis by simp
next
  case (snoc us v)
  with assms(3) obtain u where u: "run action_step s us u" "action_step u v s'" by auto
  have valid: "validate_snapshot u" "validate_snapshot s'"
    using lifecycle.run_keeps [OF u(1) assms(1)] lifecycle.run_keeps [OF assms(3,1)] by simp_all
  have "sn_Outcome u = None" using decided_ends [OF valid(1)] u(2) by (cases "sn_Outcome u") auto
  moreover note decided_by [OF u(2) this assms(4)]
  moreover have "apply_action s' w \<noteq> Inr t" for w t
    using decided_ends [OF valid(2) assms(4), of w "tn_Snapshot t"] by (auto simp: action_step_def)
  ultimately show ?thesis using snoc u(1) by blast
qed

theorem outcome_decided_once_witness:
  "\<exists>us v u. validate_snapshot ex_recovered \<and> sn_Outcome ex_recovered = None \<and>
     run action_step ex_recovered [ex_complete ex_recovered ex_fence2] ex_done \<and>
     [ex_complete ex_recovered ex_fence2] = us @ [v] \<and> run action_step ex_recovered us u \<and> decides u v OutcomeSucceeded \<and>
     sn_State ex_done = StateSucceeded"
proof -
  have r: "run action_step ex_recovered [ex_complete ex_recovered ex_fence2] ex_done" using ex_complete_step(1) by auto
  have n: "sn_Outcome ex_recovered = None"
    using undecided_iff [OF ex_takeover_step(2)] by (simp add: state_terminal_def)
  have o: "sn_Outcome ex_done = Some (terminal_outcome OutcomeSucceeded (ex_complete ex_recovered ex_fence2) (ex_time 700))"
    by (simp add: ex_done_def finish_snapshot_def)
  from outcome_decided_once [OF ex_takeover_step(2) n r o] r n ex_takeover_step(2) show ?thesis
    by (simp add: terminal_outcome_def)
qed

text \<open>
  An indeterminate Action leaves that state only through the resolution of a running
  reconciliation, with an evidence reference, to the state its result names.
\<close>

theorem indeterminate_needs_evidence:
  assumes "apply_action s v = Inr t" and "sn_State s = StateIndeterminate"
    and "sn_State (tn_Snapshot t) \<noteq> StateIndeterminate"
  shows "ev_Kind v = EventResolveReconciliation \<and> ev_EvidenceRef v \<noteq> [] \<and>
    (\<exists>r. sn_Reconciliation s = Some r \<and> rn_Status r = ReconciliationRunning) \<and>
    (ev_ReconciliationResult v, sn_State (tn_Snapshot t)) \<in>
      {(ReconciliationNoEffect, StatePaused), (ReconciliationSucceeded, StateSucceeded),
       (ReconciliationFailed, StateFailed), (ReconciliationCanceled, StateCanceled)}"
proof -
  from assms(1) obtain nxt where nxt: "apply_kind (ev_Kind v) s v = Inr nxt" "sn_State (tn_Snapshot t) = sn_State nxt"
    by (auto simp: apply_action_Inr)
  have "ev_Kind v = EventResolveReconciliation"
    using apply_kind_edge [OF nxt(1)] assms(2,3) nxt(2) by (cases "ev_Kind v") auto
  with nxt show ?thesis
    by (auto simp: apply_resolve_reconciliation_Inr)
qed

theorem indeterminate_needs_evidence_witness:
  "\<exists>s v t. apply_action s v = Inr t \<and> sn_State s = StateIndeterminate \<and> sn_State (tn_Snapshot t) = StateCanceled \<and>
     ev_Kind v = EventResolveReconciliation \<and> ev_EvidenceRef v \<noteq> []"
proof -
  obtain s v s' where "action_step s v s'" "sn_State s = StateIndeterminate" "sn_State s' = StateCanceled"
    using ex_resolve_step by blast
  then obtain t where t: "apply_action s v = Inr t" "sn_State s = StateIndeterminate"
      "sn_State (tn_Snapshot t) = StateCanceled"
    by (auto simp: action_step_def)
  with indeterminate_needs_evidence [OF t(1,2)] show ?thesis by auto
qed

text \<open>
  C39. \<^verbatim>\<open>Apply\<close> never dereferences a nil pointer: neither the resume condition of a waiting Action
  nor the lease of a running one is missing when it is read.
\<close>

theorem apply_no_panic: "apply_action s v \<noteq> Inl PanicNilDereference"
proof
  assume "apply_action s v = Inl PanicNilDereference"
  then have "validate_snapshot s" and
      "validate_event s v = Inl PanicNilDereference \<or> apply_kind (ev_Kind v) s v = Inl PanicNilDereference"
    by (auto simp: apply_action_def Let_def and_then_Inl_iff split: if_splits)
  then show False
    using event_no_panic kind_no_panic validate_snapshotD(2,3) by blast
qed

section \<open>Acceptance\<close>

text \<open>
  \<^verbatim>\<open>NewSnapshot\<close> succeeds exactly on an authenticated acceptance at a non-zero time; its own
  checks of the definition and the validation of its result refuse nothing more, and the result
  is a valid snapshot at revision 1 in state ACCEPTED.
\<close>

theorem new_snapshot_iff:
  "new_snapshot d = Inr t \<longleftrightarrow>
     \<not> is_zero (df_AcceptedAt d) \<and>
     (\<exists>a. df_Auth d = Some a \<and> validate_authenticated_acceptance d a = Inr () \<and>
       validate_snapshot (accepted_snapshot d a) \<and> sn_Revision (accepted_snapshot d a) = 1 \<and>
       t = \<lparr>tn_Snapshot = accepted_snapshot d a, tn_Record = acceptance_record d a, tn_Auth = Some a\<rparr>)"
proof -
  have "validate_id (df_EventID d) \<and> validate_id (df_ActionID d) \<and> validate_digest (df_ActionDigest d) \<and>
      validate_id (df_OwnerID d) \<and> validate_recovery_policy (df_RecoveryPolicy d)"
    if "validate_authenticated_acceptance d a = Inr ()" for a
    using that by (auto simp: validate_authenticated_acceptance_Inr acceptance_digest_Inr acceptance_transcript_eq)
  moreover have "sn_Revision (accepted_snapshot d a) = 1" for a
    by (simp add: accepted_snapshot_def)
  ultimately show ?thesis
    using accepted_valid [of d] by (auto simp: new_snapshot_def and_then_Inr_iff split: option.splits)
qed

text \<open>
  An acceptance authorization is bound to its request: two definitions accepted under the
  same mutation digest agree on the event, the Action, its digest, the owner, the recovery policy
  and the acceptance context, or their transcripts are an explicit SHA-256 collision. (The
  acceptance time is not bound.)
\<close>

theorem acceptance_binds_request:
  assumes "new_snapshot d = Inr t" and "new_snapshot e = Inr u"
    and "tr_MutationDigest (tn_Record t) = tr_MutationDigest (tn_Record u)"
  shows "same_acceptance d e \<or>
    (\<exists>m m'. acceptance_request_transcript d = Inr m \<and> acceptance_request_transcript e = Inr m' \<and>
      sha256_collision m m')"
proof (rule acceptance_digest_unique)
  have digest: "acceptance_request_digest x = Inr (tr_MutationDigest (tn_Record y))" if "new_snapshot x = Inr y" for x y
    using that by (auto simp: new_snapshot_def and_then_Inr_iff validate_authenticated_acceptance_Inr
        acceptance_record_def split: option.splits)
  show "acceptance_request_digest d = Inr (tr_MutationDigest (tn_Record t))"
    by (rule digest [OF assms(1)])
  show "acceptance_request_digest e = Inr (tr_MutationDigest (tn_Record t))"
    unfolding assms(3) by (rule digest [OF assms(2)])
qed

theorem acceptance_binds_request_witness:
  "\<exists>t u e. new_snapshot ex_definition = Inr t \<and> new_snapshot e = Inr u \<and> df_AcceptedAt e \<noteq> df_AcceptedAt ex_definition \<and>
     (same_acceptance ex_definition e \<or>
      (\<exists>m m'. acceptance_request_transcript ex_definition = Inr m \<and> acceptance_request_transcript e = Inr m' \<and>
        sha256_collision m m'))"
proof -
  define e where "e = ex_definition\<lparr>df_AcceptedAt := (ex_time 0)\<lparr>location := Zone 1 3600\<rparr>\<rparr>"
  have auth: "df_Auth ex_definition = Some ex_auth" "df_AcceptedAt ex_definition = ex_time 0"
    by (simp_all add: ex_definition_def ex_unsigned_def)
  have "validate_authenticated_acceptance e ex_auth = Inr ()"
    using ex_acceptance
    by (simp add: validate_authenticated_acceptance_Inr e_def time_defs auth acceptance_digest_time)
  then obtain t u where t: "new_snapshot ex_definition = Inr t" "new_snapshot e = Inr u"
      "tr_MutationDigest (tn_Record t) = tr_MutationDigest (tn_Record u)"
    using ex_acceptance accepted_valid [OF ex_acceptance] accepted_valid [of e ex_auth]
      ex_definition_checks
    by (simp add: new_snapshot_def auth e_def acceptance_record_def is_zero_def)
  show ?thesis
    by (intro exI conjI, rule t(1), rule t(2), simp add: e_def auth ex_time_def,
        rule acceptance_binds_request [OF t])
qed

end
