(* ===== verification/Task_Model.thy ===== *)
theory Task_Model
  imports Go_Time Go_Strings SHA256
begin

text \<open>
  Package \<^verbatim>\<open>pkg/taskcoord\<close>, data and validation: \<^verbatim>\<open>model.go\<close>, \<^verbatim>\<open>assurance.go\<close>, \<^verbatim>\<open>validation.go\<close>, the
  dependency edges of \<^verbatim>\<open>dependency.go\<close>, the records of \<^verbatim>\<open>discovery.go\<close> and the reference checks of
  \<^verbatim>\<open>reachability.go\<close>.

  Enumerations, pointers, errors and field names follow the conventions of the Action theories. A
  \<^verbatim>\<open>Validate\<close> method with one sentinel is a predicate. \<^verbatim>\<open>url.Parse\<close> is an argument \<open>parse_url\<close> of the
  checks that call it: its answer on malformed authorities depends on the Go release, and nothing
  below depends on it.
\<close>

section \<open>Errors and enumerations\<close>

datatype task_error =
    ErrInvalidParticipant | ErrInvalidAssignment | ErrInvalidTaskEvent | ErrInvalidTaskTransition
  | ErrInvalidDelegation | ErrInvalidInteraction | ErrInvalidDiscovery | ErrHumanNotDiscoverable
  | ErrTaskRevisionConflict | ErrNotFound | ErrAlreadyExists | ErrEventConflict
  | ErrTaskAuthenticationRequired | ErrParticipantUnavailable | ErrDelegationNotPermitted

datatype participant_kind =
    ParticipantHuman | ParticipantAgent | ParticipantAutomatedService | ParticipantKindOther string

datatype participant_status =
    ParticipantActive | ParticipantSuspended | ParticipantRevoked | ParticipantStatusOther string

datatype assignment_role = RoleOwner | RoleAssignee | RoleReviewer | RoleOther string

datatype assignment_status =
    AssignmentOffered | AssignmentAccepted | AssignmentDeclined | AssignmentReleased
  | AssignmentRevoked | AssignmentFulfilled
  | AssignmentStatusOther string

definition assignment_terminal :: "assignment_status \<Rightarrow> bool" where
  "assignment_terminal s \<longleftrightarrow> s = AssignmentDeclined \<or> s = AssignmentReleased \<or> s = AssignmentRevoked \<or>
     s = AssignmentFulfilled"

datatype operation_kind =
    OperationOffer | OperationAccept | OperationDecline | OperationRelease | OperationRevoke
  | OperationFulfill | OperationDelegate
  | OperationOther string

datatype interaction_kind =
    InteractionQuestion | InteractionResponse | InteractionCorrection | InteractionWithdrawal
  | InteractionOther string

datatype response_finality = ResponseInterim | ResponseFinal | FinalityOther string

datatype human_assurance_level =
    HumanAssuranceGatewayAssertedForHuman | HumanAssuranceAuthenticatedHumanEvidence
  | HumanAssuranceHumanHeldKeyExactRequest
  | AssuranceOther string

datatype dependency_mode = DependencyAll | DependencyAny | DependencyQuorum | DependencyModeOther string

abbreviation no_status :: assignment_status where
  "no_status \<equiv> AssignmentStatusOther []"

abbreviation no_finality :: response_finality where
  "no_finality \<equiv> FinalityOther []"

section \<open>Structures\<close>

definition ParticipantSchemaV1 :: string where
  "ParticipantSchemaV1 = ''asb.task-participant/v1''"

definition AssignmentSchemaV1 :: string where
  "AssignmentSchemaV1 = ''asb.task-assignment/v1''"

definition DependencySchemaV1 :: string where
  "DependencySchemaV1 = ''asb.task-dependency/v1''"

definition InteractionEventSchemaV1 :: string where
  "InteractionEventSchemaV1 = ''asb.task-interaction-event/v1''"

definition HumanRequestProfileV1 :: string where
  "HumanRequestProfileV1 = ''asb.taskcoord-human-request/v1''"

definition AgentDiscoveryRecordSchemaV1 :: string where
  "AgentDiscoveryRecordSchemaV1 = ''asb.agent-discovery-record/v1''"

record participant =
  pt_Schema :: string
  pt_ParticipantID :: string
  pt_Kind :: participant_kind
  pt_IdentityRef :: string
  pt_Status :: participant_status
  pt_MayDelegate :: bool
  pt_RegisteredAt :: gotime

record assurance_provenance =
  ap_ProfileID :: string
  ap_AssuranceLevel :: human_assurance_level

record task_reason =
  kn_Code :: operation_kind
  kn_Detail :: string

record task_auth =
  ta_ActorID :: string
  ta_ParticipantID :: string
  ta_AuthorizationID :: string
  ta_ProofID :: string
  ta_Operation :: operation_kind
  ta_TaskID :: string
  ta_AssignmentID :: string
  ta_TargetTaskID :: string
  ta_TargetAssignmentID :: string
  ta_TargetParticipantID :: string
  ta_VerifierNonce :: string
  ta_IssuedAt :: gotime
  ta_ExpiresAt :: gotime
  ta_Assurance :: "assurance_provenance option"

record task_record =
  kr_EventID :: string
  kr_AssignmentID :: string
  kr_TaskID :: string
  kr_Revision :: uint64
  kr_Kind :: operation_kind
  kr_From :: assignment_status
  kr_To :: assignment_status
  kr_Reason :: task_reason
  kr_At :: gotime
  kr_ActorID :: string
  kr_ParticipantID :: string
  kr_AuthorizationID :: string
  kr_ProofID :: string
  kr_EvidenceRef :: string
  kr_Assurance :: "assurance_provenance option"

record assignment =
  an_Schema :: string
  an_AssignmentID :: string
  an_TaskID :: string
  an_ParticipantID :: string
  an_OfferedByParticipantID :: string
  an_Role :: assignment_role
  an_AuthorityDigest :: string
  an_ParentAssignmentID :: string
  an_Revision :: uint64
  an_Status :: assignment_status
  an_AcceptedAt :: "gotime option"
  an_DueAt :: "gotime option"
  an_LastTransition :: task_record
  an_CreatedAt :: gotime
  an_UpdatedAt :: gotime

record assignment_definition =
  ad_EventID :: string
  ad_AssignmentID :: string
  ad_TaskID :: string
  ad_ParticipantID :: string
  ad_Role :: assignment_role
  ad_AuthorityDigest :: string
  ad_ParentAssignmentID :: string
  ad_OfferedAt :: gotime
  ad_DueAt :: "gotime option"

record task_event =
  te_ID :: string
  te_Kind :: operation_kind
  te_ExpectedRevision :: uint64
  te_At :: gotime
  te_Detail :: string
  te_EvidenceRef :: string
  te_Auth :: task_auth

record interaction_definition =
  it_EventID :: string
  it_InteractionID :: string
  it_TaskID :: string
  it_AssignmentID :: string
  it_Kind :: interaction_kind
  it_InReplyTo :: string
  it_Supersedes :: string
  it_Finality :: response_finality
  it_ContentRef :: string
  it_ContentDigest :: string
  it_EvidenceRef :: string
  it_At :: gotime

record interaction_auth =
  ia_ActorID :: string
  ia_ParticipantID :: string
  ia_AuthorizationID :: string
  ia_ProofID :: string
  ia_EventID :: string
  ia_InteractionID :: string
  ia_TaskID :: string
  ia_AssignmentID :: string
  ia_Kind :: interaction_kind
  ia_InReplyTo :: string
  ia_Supersedes :: string
  ia_Finality :: response_finality
  ia_ContentRef :: string
  ia_ContentDigest :: string
  ia_EvidenceRef :: string
  ia_At :: gotime
  ia_VerifierNonce :: string
  ia_IssuedAt :: gotime
  ia_ExpiresAt :: gotime
  ia_Assurance :: "assurance_provenance option"

record interaction_event =
  ie_Schema :: string
  ie_EventID :: string
  ie_InteractionID :: string
  ie_TaskID :: string
  ie_AssignmentID :: string
  ie_Kind :: interaction_kind
  ie_InReplyTo :: string
  ie_Supersedes :: string
  ie_Finality :: response_finality
  ie_ContentRef :: string
  ie_ContentDigest :: string
  ie_At :: gotime
  ie_ActorID :: string
  ie_ParticipantID :: string
  ie_AuthorizationID :: string
  ie_ProofID :: string
  ie_EvidenceRef :: string
  ie_Assurance :: "assurance_provenance option"

record task_transition =
  tt_Assignment :: assignment
  tt_Record :: task_record

record verified_delegation =
  vd_DecisionID :: string
  vd_ParentAssignmentID :: string
  vd_ChildAssignmentID :: string
  vd_FromParticipantID :: string
  vd_ToParticipantID :: string
  vd_ParentAuthorityDigest :: string
  vd_ChildAuthorityDigest :: string
  vd_PolicyRef :: string
  vd_EvidenceRef :: string
  vd_VerifiedAt :: gotime

record delegation_record =
  dr_EventID :: string
  dr_DecisionID :: string
  dr_ParentAssignmentID :: string
  dr_ChildAssignmentID :: string
  dr_ParentTaskID :: string
  dr_ChildTaskID :: string
  dr_FromParticipantID :: string
  dr_ToParticipantID :: string
  dr_ParentAuthorityDigest :: string
  dr_ChildAuthorityDigest :: string
  dr_PolicyRef :: string
  dr_EvidenceRef :: string
  dr_At :: gotime
  dr_Assurance :: "assurance_provenance option"

record delegation_transition =
  dt_Parent :: assignment
  dt_ParentRecord :: task_record
  dt_Child :: assignment
  dt_ChildRecord :: task_record
  dt_Delegation :: delegation_record

record dependency =
  dp_Schema :: string
  dp_DependencyID :: string
  dp_FromTaskID :: string
  dp_ToTaskID :: string
  dp_GroupID :: string
  dp_Mode :: dependency_mode
  dp_Quorum :: uint32
  dp_Active :: bool
  dp_Satisfied :: bool

record discovery_definition =
  dd_RecordID :: string
  dd_Capability :: string
  dd_InvocationRef :: string
  dd_PublishedAt :: gotime
  dd_ExpiresAt :: gotime

record discovery_record =
  ds_Schema :: string
  ds_RecordID :: string
  ds_ParticipantID :: string
  ds_Kind :: participant_kind
  ds_Capability :: string
  ds_InvocationRef :: string
  ds_PublishedAt :: gotime
  ds_ExpiresAt :: gotime

record search_query =
  sq_Capability :: string
  sq_Limit :: uint32

text \<open>What the program reads of a parsed URL; \<open>ur_User\<close> says whether there is userinfo.\<close>

record url =
  ur_Scheme :: string
  ur_User :: bool
  ur_Host :: string
  ur_RawQuery :: string
  ur_Fragment :: string

type_synonym url_parser = "string \<Rightarrow> url option"

end
