(* ===== verification/Task_Validation.thy ===== *)
theory Task_Validation
  imports Task_Model
begin

text \<open>
  Package \<^verbatim>\<open>pkg/taskcoord\<close>: the \<^verbatim>\<open>Validate\<close> methods and string checks of \<^verbatim>\<open>validation.go\<close>, \<^verbatim>\<open>assurance.go\<close>,
  \<^verbatim>\<open>dependency.go\<close> and \<^verbatim>\<open>discovery.go\<close>, and the reference checks of \<^verbatim>\<open>reachability.go\<close>. The names carry
  the prefix \<open>task_\<close> where the Action theories have the same name for another check.
\<close>

section \<open>Strings\<close>

definition task_max_id_bytes :: nat where
  "task_max_id_bytes = 256"

definition task_max_detail_bytes :: nat where
  "task_max_detail_bytes = 1024"

definition task_max_reference_bytes :: nat where
  "task_max_reference_bytes = 2048"

definition task_validate_id :: "string \<Rightarrow> bool" where
  "task_validate_id v \<longleftrightarrow> v \<noteq> [] \<and> valid_utf8 v \<and> length v \<le> task_max_id_bytes \<and> trim_space v = v \<and>
     list_all (\<lambda>p. \<not> is_control (fst p)) (runes v)"

definition task_validate_digest :: "string \<Rightarrow> bool" where
  "task_validate_digest v \<longleftrightarrow> length v = 64 \<and> to_lower v = v \<and> hex_decodes v"

definition task_validate_reference :: "string \<Rightarrow> bool" where
  "task_validate_reference v \<longleftrightarrow> v \<noteq> [] \<and> valid_utf8 v \<and> length v \<le> task_max_reference_bytes \<and>
     list_all (\<lambda>p. \<not> is_control (fst p)) (runes v)"

definition validate_detail :: "string \<Rightarrow> bool" where
  "validate_detail v \<longleftrightarrow> valid_utf8 v \<and> length v \<le> task_max_detail_bytes \<and>
     list_all (\<lambda>p. \<not> (is_control (fst p) \<and> fst p \<noteq> 10 \<and> fst p \<noteq> 9)) (runes v)"

definition validate_https_reference :: "url_parser \<Rightarrow> string \<Rightarrow> bool" where
  "validate_https_reference parse_url v \<longleftrightarrow> task_validate_reference v \<and>
     (case parse_url v of
        None \<Rightarrow> False
      | Some u \<Rightarrow> ur_Scheme u = ''https'' \<and> ur_Host u \<noteq> [] \<and>
          \<not> ur_User u \<and> ur_RawQuery u = [] \<and> ur_Fragment u = [])"

definition is_direct_contact_reference :: "url_parser \<Rightarrow> string \<Rightarrow> bool" where
  "is_direct_contact_reference parse_url v =
     (case parse_url (trim_space v) of
        None \<Rightarrow> False
      | Some u \<Rightarrow> to_lower (ur_Scheme u) \<in> {''mailto'', ''tel'', ''sms'', ''sip'', ''sips''})"

definition is_public_or_direct_contact_reference :: "url_parser \<Rightarrow> string \<Rightarrow> bool" where
  "is_public_or_direct_contact_reference parse_url v =
     (case parse_url (trim_space v) of
        None \<Rightarrow> False
      | Some u \<Rightarrow> is_direct_contact_reference parse_url v \<or>
          ur_Scheme u = ''http'' \<or> ur_Scheme u = ''https'')"

section \<open>Enumerations\<close>

fun valid_assignment_status :: "assignment_status \<Rightarrow> bool" where
  "valid_assignment_status (AssignmentStatusOther s) = False"
| "valid_assignment_status s = True"

fun valid_operation :: "operation_kind \<Rightarrow> bool" where
  "valid_operation (OperationOther s) = False"
| "valid_operation k = True"

definition valid_response_finality :: "response_finality \<Rightarrow> bool" where
  "valid_response_finality f \<longleftrightarrow> f = ResponseInterim \<or> f = ResponseFinal"

definition valid_role :: "assignment_role \<Rightarrow> bool" where
  "valid_role r \<longleftrightarrow> r = RoleOwner \<or> r = RoleAssignee \<or> r = RoleReviewer"

definition allowed_transition :: "assignment_status \<Rightarrow> operation_kind \<Rightarrow> assignment_status \<Rightarrow> bool" where
  "allowed_transition from kind to =
     (case from of
        AssignmentOffered \<Rightarrow>
          kind = OperationAccept \<and> to = AssignmentAccepted \<or>
          kind = OperationDecline \<and> to = AssignmentDeclined \<or>
          kind = OperationRevoke \<and> to = AssignmentRevoked
      | AssignmentAccepted \<Rightarrow>
          kind = OperationRelease \<and> to = AssignmentReleased \<or>
          kind = OperationRevoke \<and> to = AssignmentRevoked \<or>
          kind = OperationFulfill \<and> to = AssignmentFulfilled \<or>
          kind = OperationDelegate \<and> to = AssignmentAccepted
      | _ \<Rightarrow> False)"

section \<open>Structures\<close>

definition validate_assurance :: "assurance_provenance \<Rightarrow> bool" where
  "validate_assurance p \<longleftrightarrow> \<not> (ap_ProfileID p \<noteq> HumanRequestProfileV1 \<or>
     ap_AssuranceLevel p \<noteq> HumanAssuranceGatewayAssertedForHuman)"

definition gateway_asserted_for_human_provenance :: "assurance_provenance option" where
  "gateway_asserted_for_human_provenance =
     Some \<lparr>ap_ProfileID = HumanRequestProfileV1, ap_AssuranceLevel = HumanAssuranceGatewayAssertedForHuman\<rparr>"

text \<open>\<^verbatim>\<open>if x.Assurance != nil\<close>: an absent provenance passes.\<close>

definition assurance_ok :: "assurance_provenance option \<Rightarrow> bool" where
  "assurance_ok a = (case a of None \<Rightarrow> True | Some p \<Rightarrow> validate_assurance p)"

definition validate_participant :: "url_parser \<Rightarrow> participant \<Rightarrow> bool" where
  "validate_participant parse_url p \<longleftrightarrow>
     pt_Schema p = ParticipantSchemaV1 \<and> task_validate_id (pt_ParticipantID p) \<and>
     (pt_Kind p = ParticipantHuman \<or> pt_Kind p = ParticipantAgent \<or> pt_Kind p = ParticipantAutomatedService) \<and>
     task_validate_reference (pt_IdentityRef p) \<and>
     \<not> (pt_Kind p = ParticipantHuman \<and> is_public_or_direct_contact_reference parse_url (pt_IdentityRef p)) \<and>
     (pt_Status p = ParticipantActive \<or> pt_Status p = ParticipantSuspended \<or> pt_Status p = ParticipantRevoked) \<and>
     \<not> is_zero (pt_RegisteredAt p)"

definition validate_task_record :: "task_record \<Rightarrow> bool" where
  "validate_task_record r \<longleftrightarrow>
     list_all task_validate_id [kr_EventID r, kr_AssignmentID r, kr_TaskID r, kr_ActorID r,
       kr_ParticipantID r, kr_AuthorizationID r, kr_ProofID r] \<and>
     \<not> (kr_Revision r = 0 \<or> \<not> valid_operation (kr_Kind r) \<or> \<not> valid_assignment_status (kr_To r)) \<and>
     \<not> (kr_From r \<noteq> no_status \<and> \<not> valid_assignment_status (kr_From r)) \<and>
     kn_Code (kr_Reason r) = kr_Kind r \<and> validate_detail (kn_Detail (kr_Reason r)) \<and>
     \<not> is_zero (kr_At r) \<and>
     (kr_EvidenceRef r \<noteq> [] \<longrightarrow> task_validate_reference (kr_EvidenceRef r)) \<and>
     assurance_ok (kr_Assurance r)"

text \<open>\<^verbatim>\<open>Assignment.Validate\<close> in three groups of checks, in the order of the source.\<close>

definition assignment_fields_ok :: "assignment \<Rightarrow> bool" where
  "assignment_fields_ok a \<longleftrightarrow> an_Schema a = AssignmentSchemaV1 \<and>
     list_all task_validate_id [an_AssignmentID a, an_TaskID a, an_ParticipantID a, an_OfferedByParticipantID a] \<and>
     (an_ParentAssignmentID a \<noteq> [] \<longrightarrow>
       task_validate_id (an_ParentAssignmentID a) \<and> an_ParentAssignmentID a \<noteq> an_AssignmentID a) \<and>
     valid_role (an_Role a) \<and> task_validate_digest (an_AuthorityDigest a) \<and> an_Revision a \<noteq> 0 \<and>
     valid_assignment_status (an_Status a)"

definition assignment_times_ok :: "assignment \<Rightarrow> bool" where
  "assignment_times_ok a \<longleftrightarrow>
     \<not> (is_zero (an_CreatedAt a) \<or> is_zero (an_UpdatedAt a) \<or> before (an_UpdatedAt a) (an_CreatedAt a)) \<and>
     (case an_DueAt a of None \<Rightarrow> True | Some t \<Rightarrow> after t (an_CreatedAt a)) \<and>
     (case an_AcceptedAt a of None \<Rightarrow> True
      | Some t \<Rightarrow> \<not> (before t (an_CreatedAt a) \<or> after t (an_UpdatedAt a))) \<and>
     (case an_Status a of
        AssignmentOffered \<Rightarrow> an_AcceptedAt a = None
      | AssignmentDeclined \<Rightarrow> an_AcceptedAt a = None
      | AssignmentAccepted \<Rightarrow> an_AcceptedAt a \<noteq> None
      | AssignmentReleased \<Rightarrow> an_AcceptedAt a \<noteq> None
      | AssignmentFulfilled \<Rightarrow> an_AcceptedAt a \<noteq> None
      | _ \<Rightarrow> True)"

definition assignment_last_ok :: "assignment \<Rightarrow> bool" where
  "assignment_last_ok a \<longleftrightarrow> (let r = an_LastTransition a in
     validate_task_record r \<and>
     kr_AssignmentID r = an_AssignmentID a \<and> kr_TaskID r = an_TaskID a \<and> kr_Revision r = an_Revision a \<and>
     kr_To r = an_Status a \<and> kn_Code (kr_Reason r) = kr_Kind r \<and> equal_time (kr_At r) (an_UpdatedAt a) \<and>
     (if an_Revision a = 1
      then \<not> (kr_Kind r \<noteq> OperationOffer \<or> kr_From r \<noteq> no_status \<or> an_Status a \<noteq> AssignmentOffered)
      else \<not> (kr_Kind r = OperationOffer \<or> kr_From r = no_status) \<and>
        allowed_transition (kr_From r) (kr_Kind r) (kr_To r)) \<and>
     (an_Status a = AssignmentRevoked \<longrightarrow>
       \<not> (kr_From r = AssignmentOffered \<and> an_AcceptedAt a \<noteq> None) \<and>
       \<not> (kr_From r = AssignmentAccepted \<and> an_AcceptedAt a = None)))"

definition validate_assignment :: "assignment \<Rightarrow> bool" where
  "validate_assignment a \<longleftrightarrow> assignment_fields_ok a \<and> assignment_times_ok a \<and> assignment_last_ok a"

definition validate_verified_delegation :: "verified_delegation \<Rightarrow> bool" where
  "validate_verified_delegation d \<longleftrightarrow>
     list_all task_validate_id [vd_DecisionID d, vd_ParentAssignmentID d, vd_ChildAssignmentID d,
       vd_FromParticipantID d, vd_ToParticipantID d] \<and>
     \<not> (vd_ParentAssignmentID d = vd_ChildAssignmentID d \<or> vd_FromParticipantID d = vd_ToParticipantID d) \<and>
     task_validate_digest (vd_ParentAuthorityDigest d) \<and> task_validate_digest (vd_ChildAuthorityDigest d) \<and>
     task_validate_reference (vd_PolicyRef d) \<and> task_validate_reference (vd_EvidenceRef d) \<and>
     \<not> is_zero (vd_VerifiedAt d)"

definition validate_delegation_record :: "delegation_record \<Rightarrow> bool" where
  "validate_delegation_record d \<longleftrightarrow>
     list_all task_validate_id [dr_EventID d, dr_DecisionID d, dr_ParentAssignmentID d, dr_ChildAssignmentID d,
       dr_ParentTaskID d, dr_ChildTaskID d, dr_FromParticipantID d, dr_ToParticipantID d] \<and>
     dr_ParentAssignmentID d \<noteq> dr_ChildAssignmentID d \<and> dr_FromParticipantID d \<noteq> dr_ToParticipantID d \<and>
     task_validate_digest (dr_ParentAuthorityDigest d) \<and> task_validate_digest (dr_ChildAuthorityDigest d) \<and>
     task_validate_reference (dr_PolicyRef d) \<and> task_validate_reference (dr_EvidenceRef d) \<and>
     \<not> is_zero (dr_At d) \<and> assurance_ok (dr_Assurance d)"

definition validate_interaction_content :: "url_parser \<Rightarrow> interaction_event \<Rightarrow> bool" where
  "validate_interaction_content parse_url e \<longleftrightarrow> task_validate_reference (ie_ContentRef e) \<and>
     \<not> is_direct_contact_reference parse_url (ie_ContentRef e) \<and> task_validate_digest (ie_ContentDigest e)"

definition validate_interaction_event :: "url_parser \<Rightarrow> interaction_event \<Rightarrow> bool" where
  "validate_interaction_event parse_url e \<longleftrightarrow> ie_Schema e = InteractionEventSchemaV1 \<and>
     list_all task_validate_id [ie_EventID e, ie_InteractionID e, ie_TaskID e, ie_AssignmentID e,
       ie_ActorID e, ie_ParticipantID e, ie_AuthorizationID e, ie_ProofID e] \<and>
     (ie_InReplyTo e \<noteq> [] \<longrightarrow> task_validate_id (ie_InReplyTo e) \<and> ie_InReplyTo e \<noteq> ie_EventID e) \<and>
     (ie_Supersedes e \<noteq> [] \<longrightarrow> task_validate_id (ie_Supersedes e) \<and> ie_Supersedes e \<noteq> ie_EventID e) \<and>
     \<not> is_zero (ie_At e) \<and>
     (ie_EvidenceRef e \<noteq> [] \<longrightarrow> task_validate_reference (ie_EvidenceRef e)) \<and>
     assurance_ok (ie_Assurance e) \<and>
     (case ie_Kind e of
        InteractionQuestion \<Rightarrow>
          \<not> (ie_Supersedes e \<noteq> [] \<or> ie_Finality e \<noteq> no_finality) \<and> validate_interaction_content parse_url e
      | InteractionResponse \<Rightarrow>
          \<not> (ie_InReplyTo e = [] \<or> ie_Supersedes e \<noteq> [] \<or> \<not> valid_response_finality (ie_Finality e)) \<and>
          validate_interaction_content parse_url e
      | InteractionCorrection \<Rightarrow>
          \<not> (ie_InReplyTo e = [] \<or> ie_Supersedes e = [] \<or> \<not> valid_response_finality (ie_Finality e)) \<and>
          ie_InReplyTo e \<noteq> ie_Supersedes e \<and> validate_interaction_content parse_url e
      | InteractionWithdrawal \<Rightarrow>
          \<not> (ie_InReplyTo e = [] \<or> ie_Supersedes e = []) \<and> ie_InReplyTo e \<noteq> ie_Supersedes e \<and>
          \<not> (ie_Finality e \<noteq> no_finality \<or> ie_ContentRef e \<noteq> [] \<or> ie_ContentDigest e \<noteq> [])
      | InteractionOther s \<Rightarrow> False)"

definition validate_dependency :: "dependency \<Rightarrow> bool" where
  "validate_dependency d \<longleftrightarrow> dp_Schema d = DependencySchemaV1 \<and>
     list_all task_validate_id [dp_DependencyID d, dp_FromTaskID d, dp_ToTaskID d, dp_GroupID d] \<and>
     (case dp_Mode d of
        DependencyAll \<Rightarrow> dp_Quorum d = 0
      | DependencyAny \<Rightarrow> dp_Quorum d = 0
      | DependencyQuorum \<Rightarrow> dp_Quorum d \<noteq> 0
      | DependencyModeOther s \<Rightarrow> False)"

definition max_agent_search_results :: uint32 where
  "max_agent_search_results = 20"

definition validate_discovery_record :: "url_parser \<Rightarrow> discovery_record \<Rightarrow> task_error + unit" where
  "validate_discovery_record parse_url r =
     (if ds_Schema r \<noteq> AgentDiscoveryRecordSchemaV1 then Inl ErrInvalidDiscovery
      else if \<not> task_validate_id (ds_RecordID r) then Inl ErrInvalidDiscovery
      else if \<not> task_validate_id (ds_ParticipantID r) then Inl ErrInvalidDiscovery
      else if ds_Kind r = ParticipantHuman then Inl ErrHumanNotDiscoverable
      else if ds_Kind r \<noteq> ParticipantAgent then Inl ErrInvalidDiscovery
      else if \<not> task_validate_id (ds_Capability r) then Inl ErrInvalidDiscovery
      else if \<not> validate_https_reference parse_url (ds_InvocationRef r) then Inl ErrInvalidDiscovery
      else if is_zero (ds_PublishedAt r) \<or> is_zero (ds_ExpiresAt r) \<or> \<not> after (ds_ExpiresAt r) (ds_PublishedAt r)
        then Inl ErrInvalidDiscovery
      else Inr ())"

definition validate_search_query :: "search_query \<Rightarrow> bool" where
  "validate_search_query q \<longleftrightarrow> task_validate_id (sq_Capability q) \<and>
     \<not> list_ex (\<lambda>c. c = CHR ''*'' \<or> c = CHR ''?'') (sq_Capability q) \<and>
     \<not> (sq_Limit q = 0 \<or> sq_Limit q > max_agent_search_results)"

section \<open>Evaluation of the string checks\<close>

lemma task_validate_id_printable:
  assumes "printable s" and "s \<noteq> []" and "length s \<le> task_max_id_bytes"
  shows "task_validate_id s"
  using assms printable_runes [OF assms(1)]
  by (auto simp: task_validate_id_def valid_utf8_ascii printable_ascii trim_space_printable list_all_iff
      not_control_printable)

lemma task_validate_reference_printable:
  assumes "printable s" and "s \<noteq> []" and "length s \<le> task_max_reference_bytes"
  shows "task_validate_reference s"
  using assms printable_runes [OF assms(1)]
  by (auto simp: task_validate_reference_def valid_utf8_ascii printable_ascii list_all_iff not_control_printable)

lemma validate_detail_Nil [simp]: "validate_detail []"
  by (simp add: validate_detail_def valid_utf8_ascii)

lemma task_validate_id_Nil [simp]: "\<not> task_validate_id []"
  by (simp add: task_validate_id_def)

lemma task_validate_digest_sha256 [simp]: "task_validate_digest (hex_encode (sha256 m))"
  by (simp add: task_validate_digest_def hex_encode_lower hex_encode_decodes)

end
