(* ===== verification/Task_Machine.thy ===== *)
theory Task_Machine
  imports Task_Validation
begin

text \<open>
  Package \<^verbatim>\<open>pkg/taskcoord\<close>: the Assignment state machine of \<^verbatim>\<open>machine.go\<close> (\<^verbatim>\<open>Offer\<close>, \<^verbatim>\<open>Apply\<close>, \<^verbatim>\<open>Delegate\<close>),
  interaction events (\<^verbatim>\<open>interaction.go\<close>) and Agent discovery records (\<^verbatim>\<open>discovery.go\<close>). All are pure:
  a store commits the transition they return.
\<close>

section \<open>Checks\<close>

definition validate_definition :: "assignment_definition \<Rightarrow> bool" where
  "validate_definition d \<longleftrightarrow>
     list_all task_validate_id [ad_EventID d, ad_AssignmentID d, ad_TaskID d, ad_ParticipantID d] \<and>
     (ad_ParentAssignmentID d \<noteq> [] \<longrightarrow>
       task_validate_id (ad_ParentAssignmentID d) \<and> ad_ParentAssignmentID d \<noteq> ad_AssignmentID d) \<and>
     valid_role (ad_Role d) \<and> task_validate_digest (ad_AuthorityDigest d) \<and> \<not> is_zero (ad_OfferedAt d) \<and>
     (case ad_DueAt d of None \<Rightarrow> True | Some t \<Rightarrow> after t (ad_OfferedAt d))"

definition validate_task_event :: "task_event \<Rightarrow> bool" where
  "validate_task_event e \<longleftrightarrow> task_validate_id (te_ID e) \<and> valid_operation (te_Kind e) \<and> \<not> is_zero (te_At e) \<and>
     validate_detail (te_Detail e) \<and>
     (te_EvidenceRef e \<noteq> [] \<longrightarrow> task_validate_reference (te_EvidenceRef e))"

definition validate_operation :: "task_auth \<Rightarrow> operation_kind \<Rightarrow> string \<Rightarrow> string \<Rightarrow> gotime \<Rightarrow> bool" where
  "validate_operation a kind taskID assignmentID at \<longleftrightarrow>
     list_all task_validate_id [ta_ActorID a, ta_ParticipantID a, ta_AuthorizationID a, ta_ProofID a,
       ta_TaskID a, ta_AssignmentID a, ta_VerifierNonce a] \<and>
     \<not> (ta_Operation a \<noteq> kind \<or> ta_TaskID a \<noteq> taskID \<or> ta_AssignmentID a \<noteq> assignmentID) \<and>
     \<not> (is_zero (ta_IssuedAt a) \<or> is_zero (ta_ExpiresAt a) \<or> \<not> after (ta_ExpiresAt a) (ta_IssuedAt a)) \<and>
     \<not> (before at (ta_IssuedAt a) \<or> \<not> before at (ta_ExpiresAt a)) \<and>
     assurance_ok (ta_Assurance a)"

definition require_active_participant :: "url_parser \<Rightarrow> participant \<Rightarrow> string \<Rightarrow> task_error + unit" where
  "require_active_participant parse_url p expected =
     (if \<not> validate_participant parse_url p then Inl ErrInvalidParticipant
      else if pt_ParticipantID p \<noteq> expected then Inl ErrInvalidTaskTransition
      else if pt_Status p \<noteq> ParticipantActive then Inl ErrParticipantUnavailable
      else Inr ())"

definition next_status :: "assignment_status \<Rightarrow> operation_kind \<Rightarrow> task_error + assignment_status" where
  "next_status current kind =
     (case (current, kind) of
        (AssignmentOffered, OperationAccept) \<Rightarrow> Inr AssignmentAccepted
      | (AssignmentOffered, OperationDecline) \<Rightarrow> Inr AssignmentDeclined
      | (AssignmentOffered, OperationRevoke) \<Rightarrow> Inr AssignmentRevoked
      | (AssignmentAccepted, OperationRelease) \<Rightarrow> Inr AssignmentReleased
      | (AssignmentAccepted, OperationRevoke) \<Rightarrow> Inr AssignmentRevoked
      | (AssignmentAccepted, OperationFulfill) \<Rightarrow> Inr AssignmentFulfilled
      | _ \<Rightarrow> Inl ErrInvalidTaskTransition)"

definition operation_requires_assignee :: "operation_kind \<Rightarrow> bool" where
  "operation_requires_assignee k \<longleftrightarrow> k = OperationAccept \<or> k = OperationDecline \<or>
     k = OperationRelease \<or> k = OperationFulfill"

section \<open>Records\<close>

definition initial_offer_record :: "assignment_definition \<Rightarrow> task_auth \<Rightarrow> task_record" where
  "initial_offer_record d a =
     \<lparr>kr_EventID = ad_EventID d, kr_AssignmentID = ad_AssignmentID d, kr_TaskID = ad_TaskID d, kr_Revision = 1,
      kr_Kind = OperationOffer, kr_From = no_status, kr_To = AssignmentOffered,
      kr_Reason = \<lparr>kn_Code = OperationOffer, kn_Detail = []\<rparr>, kr_At = ad_OfferedAt d,
      kr_ActorID = ta_ActorID a, kr_ParticipantID = ta_ParticipantID a,
      kr_AuthorizationID = ta_AuthorizationID a, kr_ProofID = ta_ProofID a, kr_EvidenceRef = [],
      kr_Assurance = ta_Assurance a\<rparr>"

definition task_transition_record :: "assignment \<Rightarrow> assignment \<Rightarrow> task_event \<Rightarrow> task_record" where
  "task_transition_record cur nxt e =
     \<lparr>kr_EventID = te_ID e, kr_AssignmentID = an_AssignmentID cur, kr_TaskID = an_TaskID cur,
      kr_Revision = an_Revision nxt, kr_Kind = te_Kind e, kr_From = an_Status cur, kr_To = an_Status nxt,
      kr_Reason = \<lparr>kn_Code = te_Kind e, kn_Detail = te_Detail e\<rparr>, kr_At = te_At e,
      kr_ActorID = ta_ActorID (te_Auth e), kr_ParticipantID = ta_ParticipantID (te_Auth e),
      kr_AuthorizationID = ta_AuthorizationID (te_Auth e), kr_ProofID = ta_ProofID (te_Auth e),
      kr_EvidenceRef = te_EvidenceRef e, kr_Assurance = ta_Assurance (te_Auth e)\<rparr>"

text \<open>The snapshot of a new offer; \<open>offerer\<close> and \<open>parent\<close> differ between \<^verbatim>\<open>Offer\<close> and \<^verbatim>\<open>Delegate\<close>.\<close>

definition offered_assignment ::
    "assignment_definition \<Rightarrow> string \<Rightarrow> string \<Rightarrow> task_record \<Rightarrow> assignment" where
  "offered_assignment d offerer parent r =
     \<lparr>an_Schema = AssignmentSchemaV1, an_AssignmentID = ad_AssignmentID d, an_TaskID = ad_TaskID d,
      an_ParticipantID = ad_ParticipantID d, an_OfferedByParticipantID = offerer, an_Role = ad_Role d,
      an_AuthorityDigest = ad_AuthorityDigest d, an_ParentAssignmentID = parent, an_Revision = 1,
      an_Status = AssignmentOffered, an_AcceptedAt = None, an_DueAt = ad_DueAt d, an_LastTransition = r,
      an_CreatedAt = ad_OfferedAt d, an_UpdatedAt = ad_OfferedAt d\<rparr>"

section \<open>Operations\<close>

definition offer ::
    "url_parser \<Rightarrow> assignment_definition \<Rightarrow> participant \<Rightarrow> task_auth \<Rightarrow> task_error + task_transition" where
  "offer parse_url d target a =
     (if ad_ParentAssignmentID d \<noteq> [] then Inl ErrInvalidTaskTransition
      else if \<not> validate_definition d then Inl ErrInvalidTaskTransition
      else and_then (require_active_participant parse_url target (ad_ParticipantID d)) (\<lambda>_.
        if \<not> validate_operation a OperationOffer (ad_TaskID d) (ad_AssignmentID d) (ad_OfferedAt d)
          then Inl ErrTaskAuthenticationRequired
        else if ta_TargetParticipantID a \<noteq> ad_ParticipantID d \<or> ta_TargetTaskID a \<noteq> [] \<or>
            ta_TargetAssignmentID a \<noteq> [] then Inl ErrInvalidTaskTransition
        else let r = initial_offer_record d a; n = offered_assignment d (ta_ParticipantID a) [] r in
          if \<not> validate_assignment n then Inl ErrInvalidAssignment
          else Inr \<lparr>tt_Assignment = n, tt_Record = r\<rparr>))"

definition advance_assignment :: "assignment \<Rightarrow> assignment_status \<Rightarrow> task_event \<Rightarrow> assignment" where
  "advance_assignment cur st e =
     (let n = cur\<lparr>an_Revision := an_Revision cur + 1, an_Status := st, an_UpdatedAt := te_At e\<rparr>;
          n' = (if te_Kind e = OperationAccept then n\<lparr>an_AcceptedAt := Some (te_At e)\<rparr> else n)
      in n'\<lparr>an_LastTransition := task_transition_record cur n' e\<rparr>)"

definition apply_task_event :: "assignment \<Rightarrow> task_event \<Rightarrow> task_error + task_transition" where
  "apply_task_event cur e =
     (if \<not> validate_assignment cur then Inl ErrInvalidAssignment
      else if te_Kind e = OperationDelegate \<or> te_Kind e = OperationOffer then Inl ErrInvalidTaskTransition
      else if \<not> validate_task_event e then Inl ErrInvalidTaskEvent
      else if te_ExpectedRevision e \<noteq> an_Revision cur then Inl ErrTaskRevisionConflict
      else if before (te_At e) (an_UpdatedAt cur) then Inl ErrInvalidTaskTransition
      else if assignment_terminal (an_Status cur) then Inl ErrInvalidTaskTransition
      else if \<not> validate_operation (te_Auth e) (te_Kind e) (an_TaskID cur) (an_AssignmentID cur) (te_At e)
        then Inl ErrTaskAuthenticationRequired
      else if ta_TargetTaskID (te_Auth e) \<noteq> [] \<or> ta_TargetAssignmentID (te_Auth e) \<noteq> [] \<or>
          ta_TargetParticipantID (te_Auth e) \<noteq> [] then Inl ErrInvalidTaskTransition
      else and_then (next_status (an_Status cur) (te_Kind e)) (\<lambda>st.
        if operation_requires_assignee (te_Kind e) \<and> ta_ParticipantID (te_Auth e) \<noteq> an_ParticipantID cur
          then Inl ErrInvalidTaskTransition
        else let n = advance_assignment cur st e in
          if \<not> validate_assignment n then Inl ErrInvalidAssignment
          else Inr \<lparr>tt_Assignment = n, tt_Record = an_LastTransition n\<rparr>))"

text \<open>\<^verbatim>\<open>Delegate\<close>: its checks, in the order of the source, and the three values it builds.\<close>

definition delegation_checks ::
    "url_parser \<Rightarrow> assignment \<Rightarrow> participant \<Rightarrow> participant \<Rightarrow> assignment_definition \<Rightarrow> task_event \<Rightarrow>
     verified_delegation \<Rightarrow> task_error + unit" where
  "delegation_checks parse_url parent delegator target child e ver =
     (if \<not> validate_assignment parent then Inl ErrInvalidAssignment
      else if an_Status parent \<noteq> AssignmentAccepted then Inl ErrInvalidTaskTransition
      else and_then (require_active_participant parse_url delegator (an_ParticipantID parent)) (\<lambda>_.
        if \<not> pt_MayDelegate delegator then Inl ErrDelegationNotPermitted
        else and_then (require_active_participant parse_url target (ad_ParticipantID child)) (\<lambda>_.
          if pt_ParticipantID target = an_ParticipantID parent then Inl ErrInvalidDelegation
          else if \<not> validate_definition child then Inl ErrInvalidTaskTransition
          else if ad_ParentAssignmentID child \<noteq> an_AssignmentID parent then Inl ErrInvalidDelegation
          else if ad_EventID child = te_ID e then Inl ErrInvalidDelegation
          else if \<not> equal_time (ad_OfferedAt child) (te_At e) then Inl ErrInvalidDelegation
          else if \<not> validate_task_event e then Inl ErrInvalidTaskEvent
          else if te_Kind e \<noteq> OperationDelegate then Inl ErrInvalidTaskTransition
          else if te_ExpectedRevision e \<noteq> an_Revision parent then Inl ErrTaskRevisionConflict
          else if before (te_At e) (an_UpdatedAt parent) then Inl ErrInvalidTaskTransition
          else if \<not> validate_operation (te_Auth e) OperationDelegate (an_TaskID parent) (an_AssignmentID parent)
              (te_At e) then Inl ErrTaskAuthenticationRequired
          else if ta_ParticipantID (te_Auth e) \<noteq> an_ParticipantID parent \<or>
              ta_TargetTaskID (te_Auth e) \<noteq> ad_TaskID child \<or>
              ta_TargetAssignmentID (te_Auth e) \<noteq> ad_AssignmentID child \<or>
              ta_TargetParticipantID (te_Auth e) \<noteq> ad_ParticipantID child then Inl ErrInvalidDelegation
          else if \<not> validate_verified_delegation ver then Inl ErrInvalidDelegation
          else if after (vd_VerifiedAt ver) (te_At e) then Inl ErrInvalidDelegation
          else if vd_ParentAssignmentID ver \<noteq> an_AssignmentID parent \<or>
              vd_ChildAssignmentID ver \<noteq> ad_AssignmentID child \<or>
              vd_FromParticipantID ver \<noteq> an_ParticipantID parent \<or>
              vd_ToParticipantID ver \<noteq> ad_ParticipantID child \<or>
              vd_ParentAuthorityDigest ver \<noteq> an_AuthorityDigest parent \<or>
              vd_ChildAuthorityDigest ver \<noteq> ad_AuthorityDigest child then Inl ErrInvalidDelegation
          else Inr ())))"

definition delegated_parent :: "assignment \<Rightarrow> task_event \<Rightarrow> assignment" where
  "delegated_parent parent e =
     (let n = parent\<lparr>an_Revision := an_Revision parent + 1, an_UpdatedAt := te_At e\<rparr>
      in n\<lparr>an_LastTransition := task_transition_record parent n e\<rparr>)"

definition delegation_edge ::
    "assignment \<Rightarrow> assignment \<Rightarrow> task_event \<Rightarrow> verified_delegation \<Rightarrow> delegation_record" where
  "delegation_edge parent child e ver =
     \<lparr>dr_EventID = te_ID e, dr_DecisionID = vd_DecisionID ver, dr_ParentAssignmentID = an_AssignmentID parent,
      dr_ChildAssignmentID = an_AssignmentID child, dr_ParentTaskID = an_TaskID parent,
      dr_ChildTaskID = an_TaskID child, dr_FromParticipantID = an_ParticipantID parent,
      dr_ToParticipantID = an_ParticipantID child, dr_ParentAuthorityDigest = an_AuthorityDigest parent,
      dr_ChildAuthorityDigest = an_AuthorityDigest child, dr_PolicyRef = vd_PolicyRef ver,
      dr_EvidenceRef = vd_EvidenceRef ver, dr_At = te_At e, dr_Assurance = ta_Assurance (te_Auth e)\<rparr>"

definition delegate ::
    "url_parser \<Rightarrow> assignment \<Rightarrow> participant \<Rightarrow> participant \<Rightarrow> assignment_definition \<Rightarrow> task_event \<Rightarrow>
     verified_delegation \<Rightarrow> task_error + delegation_transition" where
  "delegate parse_url parent delegator target child e ver =
     and_then (delegation_checks parse_url parent delegator target child e ver) (\<lambda>_.
       let p = delegated_parent parent e;
           r = initial_offer_record child (te_Auth e);
           c = offered_assignment child (an_ParticipantID parent) (an_AssignmentID parent) r;
           d = delegation_edge parent c e ver in
       if \<not> validate_assignment p then Inl ErrInvalidAssignment
       else if \<not> validate_assignment c then Inl ErrInvalidAssignment
       else if \<not> validate_delegation_record d then Inl ErrInvalidDelegation
       else Inr \<lparr>dt_Parent = p, dt_ParentRecord = an_LastTransition p, dt_Child = c, dt_ChildRecord = r,
                 dt_Delegation = d\<rparr>)"

section \<open>Interactions and discovery\<close>

definition validate_interaction_authorization ::
    "interaction_definition \<Rightarrow> interaction_auth \<Rightarrow> gotime \<Rightarrow> bool" where
  "validate_interaction_authorization d a at \<longleftrightarrow>
     list_all task_validate_id [ia_ActorID a, ia_ParticipantID a, ia_AuthorizationID a, ia_ProofID a,
       ia_EventID a, ia_InteractionID a, ia_TaskID a, ia_AssignmentID a, ia_VerifierNonce a] \<and>
     ia_EventID a = it_EventID d \<and> ia_InteractionID a = it_InteractionID d \<and> ia_TaskID a = it_TaskID d \<and>
     ia_AssignmentID a = it_AssignmentID d \<and> ia_Kind a = it_Kind d \<and> ia_InReplyTo a = it_InReplyTo d \<and>
     ia_Supersedes a = it_Supersedes d \<and> ia_Finality a = it_Finality d \<and> ia_ContentRef a = it_ContentRef d \<and>
     ia_ContentDigest a = it_ContentDigest d \<and> ia_EvidenceRef a = it_EvidenceRef d \<and>
     equal_time (ia_At a) (it_At d) \<and>
     \<not> (is_zero (ia_IssuedAt a) \<or> is_zero (ia_ExpiresAt a) \<or> \<not> after (ia_ExpiresAt a) (ia_IssuedAt a)) \<and>
     \<not> (before at (ia_IssuedAt a) \<or> \<not> before at (ia_ExpiresAt a)) \<and>
     assurance_ok (ia_Assurance a)"

definition interaction_of :: "interaction_definition \<Rightarrow> interaction_auth \<Rightarrow> interaction_event" where
  "interaction_of d a =
     \<lparr>ie_Schema = InteractionEventSchemaV1, ie_EventID = it_EventID d, ie_InteractionID = it_InteractionID d,
      ie_TaskID = it_TaskID d, ie_AssignmentID = it_AssignmentID d, ie_Kind = it_Kind d,
      ie_InReplyTo = it_InReplyTo d, ie_Supersedes = it_Supersedes d, ie_Finality = it_Finality d,
      ie_ContentRef = it_ContentRef d, ie_ContentDigest = it_ContentDigest d, ie_At = it_At d,
      ie_ActorID = ia_ActorID a, ie_ParticipantID = ia_ParticipantID a,
      ie_AuthorizationID = ia_AuthorizationID a, ie_ProofID = ia_ProofID a,
      ie_EvidenceRef = it_EvidenceRef d, ie_Assurance = ia_Assurance a\<rparr>"

definition new_interaction_event ::
    "url_parser \<Rightarrow> interaction_definition \<Rightarrow> interaction_auth \<Rightarrow> task_error + interaction_event" where
  "new_interaction_event parse_url d a =
     (if \<not> validate_interaction_authorization d a (it_At d) then Inl ErrTaskAuthenticationRequired
      else if \<not> validate_interaction_event parse_url (interaction_of d a) then Inl ErrInvalidInteraction
      else Inr (interaction_of d a))"

definition new_agent_discovery_record ::
    "url_parser \<Rightarrow> participant \<Rightarrow> discovery_definition \<Rightarrow> task_error + discovery_record" where
  "new_agent_discovery_record parse_url p d =
     (if \<not> validate_participant parse_url p then Inl ErrInvalidParticipant
      else if pt_Kind p = ParticipantHuman then Inl ErrHumanNotDiscoverable
      else if pt_Kind p \<noteq> ParticipantAgent then Inl ErrInvalidDiscovery
      else if pt_Status p \<noteq> ParticipantActive then Inl ErrParticipantUnavailable
      else let r = \<lparr>ds_Schema = AgentDiscoveryRecordSchemaV1, ds_RecordID = dd_RecordID d,
            ds_ParticipantID = pt_ParticipantID p, ds_Kind = pt_Kind p, ds_Capability = dd_Capability d,
            ds_InvocationRef = dd_InvocationRef d, ds_PublishedAt = dd_PublishedAt d,
            ds_ExpiresAt = dd_ExpiresAt d\<rparr> in
        and_then (validate_discovery_record parse_url r) (\<lambda>_. Inr r))"

end
