(* ===== verification/Task_Store.thy ===== *)
theory Task_Store
  imports Task_Machine Runs
begin

text \<open>
  Package \<^verbatim>\<open>pkg/taskcoord\<close>: the commit contract of \<^verbatim>\<open>store_validation.go\<close> and the in-process store of
  \<^verbatim>\<open>memory_store.go\<close>. Each method holds the store's mutex for its whole body, so an operation is a
  function from the state to an error or the next state; a Go map is a partial function. The JSON
  encoder behind \<^verbatim>\<open>assignmentHash\<close> is the argument \<open>marshal\<close>, \<open>None\<close> when it fails.
\<close>

section \<open>State\<close>

record committed_event =
  ce_assignmentID :: string
  ce_revision :: uint64
  ce_snapshotHash :: bytes
  ce_record :: task_record

record memory_store =
  ms_participants :: "string \<rightharpoonup> participant"
  ms_assignments :: "string \<rightharpoonup> assignment"
  ms_delegations :: "string \<rightharpoonup> delegation_record"
  ms_events :: "string \<rightharpoonup> committed_event"
  ms_interactionEvents :: "string \<rightharpoonup> interaction_event"
  ms_interactionOrder :: "string \<rightharpoonup> string list"

type_synonym marshaller = "assignment \<Rightarrow> bytes option"

definition new_memory_store :: memory_store where
  "new_memory_store =
     \<lparr>ms_participants = Map.empty, ms_assignments = Map.empty, ms_delegations = Map.empty,
      ms_events = Map.empty, ms_interactionEvents = Map.empty, ms_interactionOrder = Map.empty\<rparr>"

section \<open>Comparisons\<close>

definition same_assurance_provenance :: "assurance_provenance option \<Rightarrow> assurance_provenance option \<Rightarrow> bool" where
  "same_assurance_provenance l r =
     (case (l, r) of (Some x, Some y) \<Rightarrow> x = y | (None, None) \<Rightarrow> True | _ \<Rightarrow> False)"

definition same_transition_record :: "task_record \<Rightarrow> task_record \<Rightarrow> bool" where
  "same_transition_record l r \<longleftrightarrow> l\<lparr>kr_Assurance := None\<rparr> = r\<lparr>kr_Assurance := None\<rparr> \<and>
     same_assurance_provenance (kr_Assurance l) (kr_Assurance r)"

definition same_delegation_record :: "delegation_record \<Rightarrow> delegation_record \<Rightarrow> bool" where
  "same_delegation_record l r \<longleftrightarrow> l\<lparr>dr_Assurance := None\<rparr> = r\<lparr>dr_Assurance := None\<rparr> \<and>
     same_assurance_provenance (dr_Assurance l) (dr_Assurance r)"

definition same_interaction_context :: "interaction_event \<Rightarrow> interaction_event \<Rightarrow> bool" where
  "same_interaction_context a b \<longleftrightarrow> ie_InteractionID a = ie_InteractionID b \<and> ie_TaskID a = ie_TaskID b \<and>
     ie_AssignmentID a = ie_AssignmentID b"

definition same_interaction_event :: "interaction_event \<Rightarrow> interaction_event \<Rightarrow> bool" where
  "same_interaction_event a b \<longleftrightarrow> ie_Schema a = ie_Schema b \<and> ie_EventID a = ie_EventID b \<and>
     ie_InteractionID a = ie_InteractionID b \<and> ie_TaskID a = ie_TaskID b \<and>
     ie_AssignmentID a = ie_AssignmentID b \<and> ie_Kind a = ie_Kind b \<and> ie_InReplyTo a = ie_InReplyTo b \<and>
     ie_Supersedes a = ie_Supersedes b \<and> ie_Finality a = ie_Finality b \<and>
     ie_ContentRef a = ie_ContentRef b \<and> ie_ContentDigest a = ie_ContentDigest b \<and>
     equal_time (ie_At a) (ie_At b) \<and> ie_ActorID a = ie_ActorID b \<and> ie_ParticipantID a = ie_ParticipantID b \<and>
     ie_AuthorizationID a = ie_AuthorizationID b \<and> ie_ProofID a = ie_ProofID b \<and>
     ie_EvidenceRef a = ie_EvidenceRef b \<and> same_assurance_provenance (ie_Assurance a) (ie_Assurance b)"

definition assignment_hash :: "marshaller \<Rightarrow> assignment \<Rightarrow> task_error + bytes" where
  "assignment_hash marshal a =
     (case marshal a of None \<Rightarrow> Inl ErrInvalidAssignment | Some raw \<Rightarrow> Inr (sha256 raw))"

section \<open>The commit contract\<close>

definition validate_assignment_commit :: "uint64 \<Rightarrow> assignment \<Rightarrow> task_record \<Rightarrow> task_error + unit" where
  "validate_assignment_commit expected nxt r =
     (if \<not> validate_assignment nxt then Inl ErrInvalidAssignment
      else if \<not> validate_task_record r then Inl ErrInvalidTaskTransition
      else if \<not> same_transition_record (an_LastTransition nxt) r then Inl ErrInvalidTaskTransition
      else if an_Revision nxt \<noteq> expected + 1 then Inl ErrInvalidTaskTransition
      else Inr ())"

definition expected_assignment :: "assignment \<Rightarrow> task_record \<Rightarrow> assignment" where
  "expected_assignment cur r =
     (let n = cur\<lparr>an_Revision := an_Revision cur + 1, an_Status := kr_To r, an_UpdatedAt := kr_At r,
                  an_LastTransition := r\<rparr>
      in if kr_Kind r = OperationAccept then n\<lparr>an_AcceptedAt := Some (kr_At r)\<rparr> else n)"

definition validate_assignment_transition ::
    "marshaller \<Rightarrow> assignment \<Rightarrow> assignment \<Rightarrow> task_record \<Rightarrow> task_error + unit" where
  "validate_assignment_transition marshal cur nxt r =
     (if \<not> validate_assignment cur then Inl ErrInvalidAssignment
      else and_then (validate_assignment_commit (an_Revision cur) nxt r) (\<lambda>_.
        if kr_From r \<noteq> an_Status cur then Inl ErrInvalidTaskTransition
        else if before (kr_At r) (an_UpdatedAt cur) then Inl ErrInvalidTaskTransition
        else if operation_requires_assignee (kr_Kind r) \<and> kr_ParticipantID r \<noteq> an_ParticipantID cur
          then Inl ErrInvalidTaskTransition
        else and_then (assignment_hash marshal (expected_assignment cur r)) (\<lambda>eh.
          and_then (assignment_hash marshal nxt) (\<lambda>nh.
            if eh \<noteq> nh then Inl ErrInvalidTaskTransition else Inr ()))))"

definition validate_delegation_transition :: "uint64 \<Rightarrow> delegation_transition \<Rightarrow> task_error + unit" where
  "validate_delegation_transition expected t =
     (let p = dt_Parent t; pr = dt_ParentRecord t; c = dt_Child t; cr = dt_ChildRecord t; d = dt_Delegation t in
      if \<not> validate_assignment p then Inl ErrInvalidAssignment
      else if \<not> validate_assignment c then Inl ErrInvalidAssignment
      else if \<not> validate_task_record pr then Inl ErrInvalidTaskTransition
      else if \<not> validate_task_record cr then Inl ErrInvalidTaskTransition
      else if \<not> validate_delegation_record d then Inl ErrInvalidDelegation
      else if an_Revision p \<noteq> expected + 1 \<or> an_Revision c \<noteq> 1 then Inl ErrInvalidTaskTransition
      else if \<not> same_transition_record (an_LastTransition p) pr \<or>
          \<not> same_transition_record (an_LastTransition c) cr then Inl ErrInvalidTaskTransition
      else if an_Status p \<noteq> AssignmentAccepted \<or> kr_Kind pr \<noteq> OperationDelegate \<or>
          kr_From pr \<noteq> AssignmentAccepted \<or> kr_To pr \<noteq> AssignmentAccepted then Inl ErrInvalidDelegation
      else if an_Status c \<noteq> AssignmentOffered \<or> kr_Kind cr \<noteq> OperationOffer \<or> kr_From cr \<noteq> no_status \<or>
          kr_To cr \<noteq> AssignmentOffered then Inl ErrInvalidDelegation
      else if dr_EventID d \<noteq> kr_EventID pr \<or> dr_ParentAssignmentID d \<noteq> an_AssignmentID p \<or>
          dr_ChildAssignmentID d \<noteq> an_AssignmentID c \<or> an_ParentAssignmentID c \<noteq> an_AssignmentID p \<or>
          dr_ParentTaskID d \<noteq> an_TaskID p \<or> dr_ChildTaskID d \<noteq> an_TaskID c then Inl ErrInvalidDelegation
      else if dr_FromParticipantID d \<noteq> an_ParticipantID p \<or> dr_ToParticipantID d \<noteq> an_ParticipantID c \<or>
          an_OfferedByParticipantID c \<noteq> an_ParticipantID p \<or> kr_ParticipantID pr \<noteq> an_ParticipantID p \<or>
          kr_ParticipantID cr \<noteq> an_ParticipantID p then Inl ErrInvalidDelegation
      else if dr_ParentAuthorityDigest d \<noteq> an_AuthorityDigest p \<or>
          dr_ChildAuthorityDigest d \<noteq> an_AuthorityDigest c then Inl ErrInvalidDelegation
      else if \<not> equal_time (dr_At d) (kr_At pr) \<or> \<not> equal_time (dr_At d) (kr_At cr) \<or>
          \<not> equal_time (dr_At d) (an_UpdatedAt p) \<or> \<not> equal_time (dr_At d) (an_CreatedAt c) \<or>
          \<not> equal_time (dr_At d) (an_UpdatedAt c) then Inl ErrInvalidDelegation
      else if kr_ActorID pr \<noteq> kr_ActorID cr \<or> kr_AuthorizationID pr \<noteq> kr_AuthorizationID cr \<or>
          kr_ProofID pr \<noteq> kr_ProofID cr then Inl ErrInvalidDelegation
      else if \<not> same_assurance_provenance (kr_Assurance pr) (kr_Assurance cr) \<or>
          \<not> same_assurance_provenance (kr_Assurance pr) (dr_Assurance d) then Inl ErrInvalidDelegation
      else if kn_Detail (kr_Reason cr) \<noteq> [] \<or> kr_EvidenceRef cr \<noteq> [] then Inl ErrInvalidDelegation
      else if kr_EventID pr = kr_EventID cr then Inl ErrInvalidDelegation
      else Inr ())"

definition validate_interaction_append ::
    "url_parser \<Rightarrow> interaction_event \<Rightarrow> assignment \<Rightarrow> participant \<Rightarrow> interaction_event option \<Rightarrow>
     interaction_event option \<Rightarrow> task_error + unit" where
  "validate_interaction_append parse_url e a p reply superseded =
     (if \<not> validate_interaction_event parse_url e then Inl ErrInvalidInteraction
      else if \<not> validate_assignment a then Inl ErrInvalidAssignment
      else if an_AssignmentID a \<noteq> ie_AssignmentID e \<or> an_TaskID a \<noteq> ie_TaskID e then Inl ErrInvalidInteraction
      else if \<not> validate_participant parse_url p then Inl ErrInvalidParticipant
      else if pt_ParticipantID p \<noteq> ie_ParticipantID e then Inl ErrInvalidInteraction
      else if pt_Status p \<noteq> ParticipantActive then Inl ErrParticipantUnavailable
      else if ie_Kind e = InteractionQuestion \<and> ie_InReplyTo e = [] then
        (if reply \<noteq> None \<or> superseded \<noteq> None then Inl ErrInvalidInteraction else Inr ())
      else case reply of
        None \<Rightarrow> Inl ErrInvalidInteraction
      | Some t \<Rightarrow>
          if ie_EventID t \<noteq> ie_InReplyTo e then Inl ErrInvalidInteraction
          else if \<not> same_interaction_context e t then Inl ErrInvalidInteraction
          else if before (ie_At e) (ie_At t) then Inl ErrInvalidInteraction
          else if ie_Kind e = InteractionQuestion then
            (if superseded \<noteq> None \<or> ie_Kind t \<noteq> InteractionResponse \<and> ie_Kind t \<noteq> InteractionCorrection
             then Inl ErrInvalidInteraction else Inr ())
          else if ie_Kind t \<noteq> InteractionQuestion then Inl ErrInvalidInteraction
          else if ie_Kind e = InteractionResponse then
            (if superseded \<noteq> None then Inl ErrInvalidInteraction else Inr ())
          else case superseded of
            None \<Rightarrow> Inl ErrInvalidInteraction
          | Some u \<Rightarrow>
              if ie_EventID u \<noteq> ie_Supersedes e then Inl ErrInvalidInteraction
              else if \<not> same_interaction_context e u \<or> ie_InReplyTo u \<noteq> ie_InReplyTo e
                then Inl ErrInvalidInteraction
              else if before (ie_At e) (ie_At u) then Inl ErrInvalidInteraction
              else if ie_Kind u \<noteq> InteractionResponse \<and> ie_Kind u \<noteq> InteractionCorrection
                then Inl ErrInvalidInteraction
              else if ie_ParticipantID u \<noteq> ie_ParticipantID e then Inl ErrInvalidInteraction
              else Inr ())"

section \<open>The store\<close>

definition register_participant :: "url_parser \<Rightarrow> memory_store \<Rightarrow> participant \<Rightarrow> task_error + memory_store" where
  "register_participant parse_url s p =
     (if \<not> validate_participant parse_url p then Inl ErrInvalidParticipant
      else case ms_participants s (pt_ParticipantID p) of
        Some old \<Rightarrow> if old = p then Inr s else Inl ErrAlreadyExists
      | None \<Rightarrow> Inr (s\<lparr>ms_participants := (ms_participants s)(pt_ParticipantID p \<mapsto> p)\<rparr>))"

definition load_participant :: "memory_store \<Rightarrow> string \<Rightarrow> task_error + participant" where
  "load_participant s i = (case ms_participants s i of None \<Rightarrow> Inl ErrNotFound | Some p \<Rightarrow> Inr p)"

definition load_assignment :: "memory_store \<Rightarrow> string \<Rightarrow> task_error + assignment" where
  "load_assignment s i = (case ms_assignments s i of None \<Rightarrow> Inl ErrNotFound | Some a \<Rightarrow> Inr a)"

definition load_delegation :: "memory_store \<Rightarrow> string \<Rightarrow> task_error + delegation_record" where
  "load_delegation s i = (case ms_delegations s i of None \<Rightarrow> Inl ErrNotFound | Some d \<Rightarrow> Inr d)"

definition load_interaction_event :: "memory_store \<Rightarrow> string \<Rightarrow> task_error + interaction_event" where
  "load_interaction_event s i =
     (case ms_interactionEvents s i of None \<Rightarrow> Inl ErrNotFound | Some e \<Rightarrow> Inr e)"

text \<open>The value Go yields for a missing key of \<^verbatim>\<open>interactionEvents\<close>.\<close>

definition zero_interaction_event :: interaction_event where
  "zero_interaction_event =
     \<lparr>ie_Schema = [], ie_EventID = [], ie_InteractionID = [], ie_TaskID = [], ie_AssignmentID = [],
      ie_Kind = InteractionOther [], ie_InReplyTo = [], ie_Supersedes = [], ie_Finality = no_finality,
      ie_ContentRef = [], ie_ContentDigest = [], ie_At = zero_time, ie_ActorID = [], ie_ParticipantID = [],
      ie_AuthorizationID = [], ie_ProofID = [], ie_EvidenceRef = [], ie_Assurance = None\<rparr>"

definition list_interaction_events :: "memory_store \<Rightarrow> string \<Rightarrow> task_error + interaction_event list" where
  "list_interaction_events s i =
     (if \<not> task_validate_id i then Inl ErrInvalidInteraction
      else case ms_interactionOrder s i of
        None \<Rightarrow> Inl ErrNotFound
      | Some ids \<Rightarrow>
          Inr (map (\<lambda>x. case ms_interactionEvents s x of None \<Rightarrow> zero_interaction_event | Some e \<Rightarrow> e) ids))"

definition interaction_log :: "memory_store \<Rightarrow> string \<Rightarrow> string list" where
  "interaction_log s i = (case ms_interactionOrder s i of None \<Rightarrow> [] | Some ids \<Rightarrow> ids)"

definition validate_interaction_relations :: "memory_store \<Rightarrow> interaction_event \<Rightarrow> task_error + unit" where
  "validate_interaction_relations s e =
     (if ie_Kind e = InteractionQuestion \<and> ie_InReplyTo e = [] then
        (if length (interaction_log s (ie_InteractionID e)) \<noteq> 0 then Inl ErrInvalidInteraction else Inr ())
      else case ms_interactionEvents s (ie_InReplyTo e) of
        None \<Rightarrow> Inl ErrInvalidInteraction
      | Some t \<Rightarrow>
          if \<not> same_interaction_context e t then Inl ErrInvalidInteraction
          else if before (ie_At e) (ie_At t) then Inl ErrInvalidInteraction
          else if ie_Kind e = InteractionQuestion then
            (if ie_Kind t \<noteq> InteractionResponse \<and> ie_Kind t \<noteq> InteractionCorrection
             then Inl ErrInvalidInteraction else Inr ())
          else if ie_Kind t \<noteq> InteractionQuestion then Inl ErrInvalidInteraction
          else if ie_Kind e = InteractionResponse then Inr ()
          else case ms_interactionEvents s (ie_Supersedes e) of
            None \<Rightarrow> Inl ErrInvalidInteraction
          | Some u \<Rightarrow>
              if \<not> same_interaction_context e u \<or> ie_InReplyTo u \<noteq> ie_InReplyTo e
                then Inl ErrInvalidInteraction
              else if before (ie_At e) (ie_At u) then Inl ErrInvalidInteraction
              else if ie_Kind u \<noteq> InteractionResponse \<and> ie_Kind u \<noteq> InteractionCorrection
                then Inl ErrInvalidInteraction
              else if ie_ParticipantID u \<noteq> ie_ParticipantID e then Inl ErrInvalidInteraction
              else Inr ())"

definition append_interaction_event ::
    "url_parser \<Rightarrow> memory_store \<Rightarrow> interaction_event \<Rightarrow> task_error + memory_store" where
  "append_interaction_event parse_url s e =
     (if \<not> validate_interaction_event parse_url e then Inl ErrInvalidInteraction
      else case ms_interactionEvents s (ie_EventID e) of
        Some old \<Rightarrow> if same_interaction_event old e then Inr s else Inl ErrEventConflict
      | None \<Rightarrow>
          if ms_events s (ie_EventID e) \<noteq> None then Inl ErrEventConflict
          else case ms_assignments s (ie_AssignmentID e) of
            None \<Rightarrow> Inl ErrNotFound
          | Some a \<Rightarrow>
              if an_TaskID a \<noteq> ie_TaskID e then Inl ErrInvalidInteraction
              else case ms_participants s (ie_ParticipantID e) of
                None \<Rightarrow> Inl ErrNotFound
              | Some p \<Rightarrow>
                  if pt_Status p \<noteq> ParticipantActive then Inl ErrParticipantUnavailable
                  else and_then (validate_interaction_relations s e) (\<lambda>_.
                    Inr (s\<lparr>ms_interactionEvents := (ms_interactionEvents s)(ie_EventID e \<mapsto> e),
                           ms_interactionOrder := (ms_interactionOrder s)
                             (ie_InteractionID e \<mapsto> interaction_log s (ie_InteractionID e) @ [ie_EventID e])\<rparr>)))"

definition make_committed :: "assignment \<Rightarrow> bytes \<Rightarrow> task_record \<Rightarrow> committed_event" where
  "make_committed a h r =
     \<lparr>ce_assignmentID = an_AssignmentID a, ce_revision = an_Revision a, ce_snapshotHash = h, ce_record = r\<rparr>"

definition committed_matches :: "committed_event \<Rightarrow> assignment \<Rightarrow> bytes \<Rightarrow> task_record \<Rightarrow> bool" where
  "committed_matches c a h r \<longleftrightarrow> ce_assignmentID c = an_AssignmentID a \<and> ce_revision c = an_Revision a \<and>
     ce_snapshotHash c = h \<and> same_transition_record (ce_record c) r"

definition commit_assignment ::
    "marshaller \<Rightarrow> memory_store \<Rightarrow> uint64 \<Rightarrow> assignment \<Rightarrow> task_record \<Rightarrow> task_error + memory_store" where
  "commit_assignment marshal s expected nxt r =
     and_then (validate_assignment_commit expected nxt r) (\<lambda>_.
       if expected \<noteq> 0 \<and> kr_Kind r = OperationDelegate then Inl ErrInvalidTaskTransition
       else and_then (assignment_hash marshal nxt) (\<lambda>h.
         if ms_interactionEvents s (kr_EventID r) \<noteq> None then Inl ErrEventConflict
         else case ms_events s (kr_EventID r) of
           Some c \<Rightarrow> if committed_matches c nxt h r then Inr s else Inl ErrEventConflict
         | None \<Rightarrow>
             and_then
               (case ms_assignments s (an_AssignmentID nxt) of
                  None \<Rightarrow> if expected = 0 then Inr () else Inl ErrTaskRevisionConflict
                | Some cur \<Rightarrow>
                    if expected = 0 then Inl ErrAlreadyExists
                    else if an_Revision cur \<noteq> expected then Inl ErrTaskRevisionConflict
                    else validate_assignment_transition marshal cur nxt r) (\<lambda>_.
               Inr (s\<lparr>ms_assignments := (ms_assignments s)(an_AssignmentID nxt \<mapsto> nxt),
                      ms_events := (ms_events s)(kr_EventID r \<mapsto> make_committed nxt h r)\<rparr>))))"

definition commit_delegation ::
    "marshaller \<Rightarrow> memory_store \<Rightarrow> uint64 \<Rightarrow> delegation_transition \<Rightarrow> task_error + memory_store" where
  "commit_delegation marshal s expected t =
     (let p = dt_Parent t; pr = dt_ParentRecord t; c = dt_Child t; cr = dt_ChildRecord t; d = dt_Delegation t in
      and_then (validate_delegation_transition expected t) (\<lambda>_.
      and_then (assignment_hash marshal p) (\<lambda>ph.
      and_then (assignment_hash marshal c) (\<lambda>ch.
        if ms_interactionEvents s (kr_EventID pr) \<noteq> None then Inl ErrEventConflict
        else if ms_interactionEvents s (kr_EventID cr) \<noteq> None then Inl ErrEventConflict
        else if ms_events s (kr_EventID pr) \<noteq> None \<or> ms_events s (kr_EventID cr) \<noteq> None then
          (case (ms_events s (kr_EventID pr), ms_events s (kr_EventID cr), ms_delegations s (dr_EventID d)) of
             (Some pc, Some cc, Some stored) \<Rightarrow>
               if committed_matches pc p ph pr \<and> committed_matches cc c ch cr \<and> same_delegation_record stored d
               then Inr s else Inl ErrEventConflict
           | _ \<Rightarrow> Inl ErrEventConflict)
        else case ms_assignments s (an_AssignmentID p) of
          None \<Rightarrow> Inl ErrTaskRevisionConflict
        | Some cur \<Rightarrow>
            if an_Revision cur \<noteq> expected then Inl ErrTaskRevisionConflict
            else and_then (validate_assignment_transition marshal cur p pr) (\<lambda>_.
              if ms_assignments s (an_AssignmentID c) \<noteq> None then Inl ErrAlreadyExists
              else if ms_delegations s (dr_EventID d) \<noteq> None then Inl ErrAlreadyExists
              else Inr (s\<lparr>ms_assignments := (ms_assignments s)(an_AssignmentID p \<mapsto> p, an_AssignmentID c \<mapsto> c),
                          ms_delegations := (ms_delegations s)(dr_EventID d \<mapsto> d),
                          ms_events := (ms_events s)(kr_EventID pr \<mapsto> make_committed p ph pr,
                                                     kr_EventID cr \<mapsto> make_committed c ch cr)\<rparr>))))))"

end
