(* ===== verification/Task_Ledger.thy ===== *)
theory Task_Ledger
  imports Task_Store "HOL-Library.Sublist"
begin

text \<open>
  Histories of the in-process Task store: the operations of the \<^verbatim>\<open>Store\<close> interface as one step
  function, the cases in which each succeeds, a refinement of the ledger of Assignment states, and
  what is never lost or changed again.
\<close>

section \<open>Operations as steps\<close>

datatype store_op =
    RegisterParticipant participant
  | CommitAssignment uint64 assignment task_record
  | CommitDelegation uint64 delegation_transition
  | AppendInteraction interaction_event

fun store_apply :: "url_parser \<Rightarrow> marshaller \<Rightarrow> memory_store \<Rightarrow> store_op \<Rightarrow> task_error + memory_store" where
  "store_apply parse_url marshal s (RegisterParticipant p) = register_participant parse_url s p"
| "store_apply parse_url marshal s (CommitAssignment ex n r) = commit_assignment marshal s ex n r"
| "store_apply parse_url marshal s (CommitDelegation ex t) = commit_delegation marshal s ex t"
| "store_apply parse_url marshal s (AppendInteraction e) = append_interaction_event parse_url s e"

definition store_step :: "url_parser \<Rightarrow> marshaller \<Rightarrow> memory_store \<Rightarrow> store_op \<Rightarrow> memory_store \<Rightarrow> bool" where
  "store_step parse_url marshal s op s' \<longleftrightarrow> store_apply parse_url marshal s op = Inr s'"

section \<open>Comparisons\<close>

lemma same_assurance_provenance_iff [simp]: "same_assurance_provenance l r \<longleftrightarrow> l = r"
  by (simp add: same_assurance_provenance_def split: option.splits)

lemma same_transition_record_iff [simp]: "same_transition_record l r \<longleftrightarrow> l = r"
  by (cases l; cases r) (auto simp: same_transition_record_def)

lemma same_delegation_record_iff [simp]: "same_delegation_record l r \<longleftrightarrow> l = r"
  by (cases l; cases r) (auto simp: same_delegation_record_def)

lemma same_interaction_event_refl [simp]: "same_interaction_event e e"
  by (simp add: same_interaction_event_def)

lemma committed_matches_refl [simp]: "committed_matches (make_committed a h r) a h r"
  by (simp add: committed_matches_def make_committed_def)

section \<open>When an operation succeeds\<close>

lemma validate_assignment_commit_Inr:
  "validate_assignment_commit ex n r = Inr u \<longleftrightarrow>
     validate_assignment n \<and> validate_task_record r \<and> an_LastTransition n = r \<and> an_Revision n = ex + 1"
  by (simp add: validate_assignment_commit_def)

lemma assignment_hash_Inr: "assignment_hash m a = Inr h \<longleftrightarrow> (\<exists>raw. m a = Some raw \<and> h = sha256 raw)"
  by (auto simp: assignment_hash_def split: option.splits)

text \<open>An accepted transition: the next snapshot has the digest of the one the record determines.\<close>

definition valid_move :: "marshaller \<Rightarrow> assignment \<Rightarrow> assignment \<Rightarrow> task_record \<Rightarrow> bool" where
  "valid_move m cur n r \<longleftrightarrow> validate_assignment cur \<and> validate_assignment n \<and> validate_task_record r \<and>
     an_LastTransition n = r \<and> an_Revision n = an_Revision cur + 1 \<and> kr_From r = an_Status cur \<and>
     \<not> before (kr_At r) (an_UpdatedAt cur) \<and>
     (operation_requires_assignee (kr_Kind r) \<longrightarrow> kr_ParticipantID r = an_ParticipantID cur) \<and>
     (\<exists>h. assignment_hash m (expected_assignment cur r) = Inr h \<and> assignment_hash m n = Inr h)"

lemma validate_assignment_transition_Inr:
  "validate_assignment_transition m cur n r = Inr u \<longleftrightarrow> valid_move m cur n r"
  by (auto simp: validate_assignment_transition_def valid_move_def and_then_Inr_iff
      validate_assignment_commit_Inr)

lemma validate_assignment_revision:
  assumes "validate_assignment a"
  shows "an_Revision a \<noteq> 0" and "kr_Revision (an_LastTransition a) = an_Revision a"
    and "kr_AssignmentID (an_LastTransition a) = an_AssignmentID a"
    and "kr_To (an_LastTransition a) = an_Status a"
  using assms
  by (simp_all add: validate_assignment_def assignment_fields_ok_def assignment_last_ok_def Let_def)

lemma validate_assignment_first:
  assumes "validate_assignment a" and "an_Revision a = 1"
  shows "an_Status a = AssignmentOffered" and "kr_Kind (an_LastTransition a) = OperationOffer"
    and "kr_From (an_LastTransition a) = no_status"
  using assms by (simp_all add: validate_assignment_def assignment_last_ok_def Let_def)

lemma validate_assignment_later:
  assumes "validate_assignment a" and "an_Revision a \<noteq> 1"
  shows "kr_Kind (an_LastTransition a) \<noteq> OperationOffer"
    and "allowed_transition (kr_From (an_LastTransition a)) (kr_Kind (an_LastTransition a))
      (kr_To (an_LastTransition a))"
  using assms unfolding validate_assignment_def assignment_last_ok_def Let_def by auto

lemma valid_move_status:
  assumes "valid_move m cur n r"
  shows "allowed_transition (an_Status cur) (kr_Kind r) (an_Status n)"
    and "unat (an_Revision n) = unat (an_Revision cur) + 1"
proof -
  have cur: "validate_assignment cur" and n: "validate_assignment n" "an_LastTransition n = r"
      and rev: "an_Revision n = an_Revision cur + 1" and st: "kr_From r = an_Status cur"
    using assms by (auto simp: valid_move_def)
  have "an_Revision n \<noteq> 1"
    using rev validate_assignment_revision(1) [OF cur] by simp
  then show "allowed_transition (an_Status cur) (kr_Kind r) (an_Status n)"
    using validate_assignment_later(2) [OF n(1)] validate_assignment_revision(4) [OF n(1)] n(2) st by simp
  show "unat (an_Revision n) = unat (an_Revision cur) + 1"
    using rev validate_assignment_revision(1) [OF n(1)] by (simp add: unat_succ)
qed

abbreviation put_commit :: "memory_store \<Rightarrow> assignment \<Rightarrow> bytes \<Rightarrow> task_record \<Rightarrow> memory_store" where
  "put_commit s n h r \<equiv> s\<lparr>ms_assignments := (ms_assignments s)(an_AssignmentID n \<mapsto> n),
     ms_events := (ms_events s)(kr_EventID r \<mapsto> make_committed n h r)\<rparr>"

lemma commit_assignment_cases:
  assumes "commit_assignment m s ex n r = Inr s'"
  obtains
    (retry) h c where "assignment_hash m n = Inr h" "ms_events s (kr_EventID r) = Some c"
      "committed_matches c n h r" "ms_interactionEvents s (kr_EventID r) = None" "s' = s"
  | (create) h where "assignment_hash m n = Inr h" "ms_events s (kr_EventID r) = None"
      "ms_interactionEvents s (kr_EventID r) = None" "ms_assignments s (an_AssignmentID n) = None"
      "ex = 0" "validate_assignment n" "validate_task_record r" "an_LastTransition n = r" "an_Revision n = 1"
      "s' = put_commit s n h r"
  | (move) h cur where "assignment_hash m n = Inr h" "ms_events s (kr_EventID r) = None"
      "ms_interactionEvents s (kr_EventID r) = None" "ms_assignments s (an_AssignmentID n) = Some cur"
      "ex \<noteq> 0" "an_Revision cur = ex" "kr_Kind r \<noteq> OperationDelegate" "valid_move m cur n r"
      "s' = put_commit s n h r"
proof -
  from assms obtain h where base: "validate_assignment n" "validate_task_record r" "an_LastTransition n = r"
      "an_Revision n = ex + 1" "\<not> (ex \<noteq> 0 \<and> kr_Kind r = OperationDelegate)" "assignment_hash m n = Inr h"
      "ms_interactionEvents s (kr_EventID r) = None"
    by (auto simp: commit_assignment_def and_then_Inr_iff validate_assignment_commit_Inr)
  note open_commit = assms [unfolded commit_assignment_def and_then_Inr_iff]
  show thesis
  proof (cases "ms_events s (kr_EventID r)")
    case (Some c)
    then show thesis
      using retry [of h c] open_commit base by auto
  next
    case None
    show thesis
    proof (cases "ms_assignments s (an_AssignmentID n)")
      case new: None
      then show thesis
        using create [of h] open_commit base None by (auto simp: and_then_Inr_iff)
    next
      case (Some cur)
      then show thesis
        using move [of h cur] open_commit base None
        by (auto simp: validate_assignment_transition_Inr and_then_Inr_iff)
    qed
  qed
qed


text \<open>The checks of a delegation, as one predicate.\<close>

definition delegation_ok :: "uint64 \<Rightarrow> delegation_transition \<Rightarrow> bool" where
  "delegation_ok ex t \<longleftrightarrow> (let p = dt_Parent t; c = dt_Child t; d = dt_Delegation t in
     validate_assignment p \<and> validate_assignment c \<and> validate_delegation_record d \<and>
     an_LastTransition p = dt_ParentRecord t \<and> an_LastTransition c = dt_ChildRecord t \<and>
     an_Revision p = ex + 1 \<and> an_Revision c = 1 \<and>
     an_Status p = AssignmentAccepted \<and> kr_Kind (dt_ParentRecord t) = OperationDelegate \<and>
     dr_EventID d = kr_EventID (dt_ParentRecord t) \<and> dr_ParentAssignmentID d = an_AssignmentID p \<and>
     dr_ChildAssignmentID d = an_AssignmentID c \<and> an_ParentAssignmentID c = an_AssignmentID p \<and>
     dr_FromParticipantID d = an_ParticipantID p \<and> dr_ToParticipantID d = an_ParticipantID c \<and>
     an_OfferedByParticipantID c = an_ParticipantID p \<and>
     kr_ParticipantID (dt_ParentRecord t) = an_ParticipantID p \<and>
     dr_ParentAuthorityDigest d = an_AuthorityDigest p \<and> dr_ChildAuthorityDigest d = an_AuthorityDigest c \<and>
     kr_EventID (dt_ParentRecord t) \<noteq> kr_EventID (dt_ChildRecord t))"

lemma validate_delegation_transition_InrD:
  "validate_delegation_transition ex t = Inr u \<Longrightarrow> delegation_ok ex t"
  by (simp add: validate_delegation_transition_def delegation_ok_def Let_def)

abbreviation put_delegation :: "memory_store \<Rightarrow> delegation_transition \<Rightarrow> bytes \<Rightarrow> bytes \<Rightarrow> memory_store" where
  "put_delegation s t ph ch \<equiv>
     s\<lparr>ms_assignments := (ms_assignments s)
         (an_AssignmentID (dt_Parent t) \<mapsto> dt_Parent t, an_AssignmentID (dt_Child t) \<mapsto> dt_Child t),
       ms_delegations := (ms_delegations s)(dr_EventID (dt_Delegation t) \<mapsto> dt_Delegation t),
       ms_events := (ms_events s)
         (kr_EventID (dt_ParentRecord t) \<mapsto> make_committed (dt_Parent t) ph (dt_ParentRecord t),
          kr_EventID (dt_ChildRecord t) \<mapsto> make_committed (dt_Child t) ch (dt_ChildRecord t))\<rparr>"

lemma commit_delegation_cases:
  assumes "commit_delegation m s ex t = Inr s'"
  obtains
    (retry) ph ch pc cc where "delegation_ok ex t" "assignment_hash m (dt_Parent t) = Inr ph"
      "assignment_hash m (dt_Child t) = Inr ch"
      "ms_interactionEvents s (kr_EventID (dt_ParentRecord t)) = None"
      "ms_interactionEvents s (kr_EventID (dt_ChildRecord t)) = None"
      "ms_events s (kr_EventID (dt_ParentRecord t)) = Some pc" "committed_matches pc (dt_Parent t) ph (dt_ParentRecord t)"
      "ms_events s (kr_EventID (dt_ChildRecord t)) = Some cc" "committed_matches cc (dt_Child t) ch (dt_ChildRecord t)"
      "ms_delegations s (dr_EventID (dt_Delegation t)) = Some (dt_Delegation t)" "s' = s"
  | (fresh) ph ch cur where "delegation_ok ex t" "assignment_hash m (dt_Parent t) = Inr ph"
      "assignment_hash m (dt_Child t) = Inr ch"
      "ms_interactionEvents s (kr_EventID (dt_ParentRecord t)) = None"
      "ms_interactionEvents s (kr_EventID (dt_ChildRecord t)) = None"
      "ms_events s (kr_EventID (dt_ParentRecord t)) = None" "ms_events s (kr_EventID (dt_ChildRecord t)) = None"
      "ms_assignments s (an_AssignmentID (dt_Parent t)) = Some cur" "an_Revision cur = ex"
      "valid_move m cur (dt_Parent t) (dt_ParentRecord t)"
      "ms_assignments s (an_AssignmentID (dt_Child t)) = None"
      "ms_delegations s (dr_EventID (dt_Delegation t)) = None" "s' = put_delegation s t ph ch"
proof -
  let ?pe = "ms_events s (kr_EventID (dt_ParentRecord t))"
  let ?ce = "ms_events s (kr_EventID (dt_ChildRecord t))"
  from assms obtain ph ch u where base: "validate_delegation_transition ex t = Inr u"
      "assignment_hash m (dt_Parent t) = Inr ph" "assignment_hash m (dt_Child t) = Inr ch"
      "ms_interactionEvents s (kr_EventID (dt_ParentRecord t)) = None"
      "ms_interactionEvents s (kr_EventID (dt_ChildRecord t)) = None"
    by (auto simp: commit_delegation_def and_then_Inr_iff Let_def)
  note ok = validate_delegation_transition_InrD [OF base(1)]
  have rest: "(if ?pe \<noteq> None \<or> ?ce \<noteq> None then
          (case (?pe, ?ce, ms_delegations s (dr_EventID (dt_Delegation t))) of
             (Some pc, Some cc, Some stored) \<Rightarrow>
               if committed_matches pc (dt_Parent t) ph (dt_ParentRecord t) \<and>
                  committed_matches cc (dt_Child t) ch (dt_ChildRecord t) \<and>
                  same_delegation_record stored (dt_Delegation t)
               then Inr s else Inl ErrEventConflict
           | _ \<Rightarrow> Inl ErrEventConflict)
        else case ms_assignments s (an_AssignmentID (dt_Parent t)) of
          None \<Rightarrow> Inl ErrTaskRevisionConflict
        | Some cur \<Rightarrow>
            if an_Revision cur \<noteq> ex then Inl ErrTaskRevisionConflict
            else and_then (validate_assignment_transition m cur (dt_Parent t) (dt_ParentRecord t)) (\<lambda>_.
              if ms_assignments s (an_AssignmentID (dt_Child t)) \<noteq> None then Inl ErrAlreadyExists
              else if ms_delegations s (dr_EventID (dt_Delegation t)) \<noteq> None then Inl ErrAlreadyExists
              else Inr (put_delegation s t ph ch))) = Inr s'"
    using assms base by (simp add: commit_delegation_def Let_def)
  show thesis
  proof (cases "?pe = None \<and> ?ce = None")
    case True
    with rest obtain cur where "ms_assignments s (an_AssignmentID (dt_Parent t)) = Some cur"
        "an_Revision cur = ex" "valid_move m cur (dt_Parent t) (dt_ParentRecord t)"
        "ms_assignments s (an_AssignmentID (dt_Child t)) = None"
        "ms_delegations s (dr_EventID (dt_Delegation t)) = None" "s' = put_delegation s t ph ch"
      by (auto simp: and_then_Inr_iff validate_assignment_transition_Inr split: option.splits)
    with True base ok show thesis by (intro fresh) auto
  next
    case False
    with rest obtain pc cc where "?pe = Some pc" "?ce = Some cc"
        "ms_delegations s (dr_EventID (dt_Delegation t)) = Some (dt_Delegation t)" "s' = s"
        "committed_matches pc (dt_Parent t) ph (dt_ParentRecord t)"
        "committed_matches cc (dt_Child t) ch (dt_ChildRecord t)"
      by (auto split: option.splits if_splits)
    with base ok show thesis by (intro retry)
  qed
qed


lemma register_participant_cases:
  assumes "register_participant pu s p = Inr s'"
  obtains
    (retry) "ms_participants s (pt_ParticipantID p) = Some p" "s' = s"
  | (fresh) "validate_participant pu p" "ms_participants s (pt_ParticipantID p) = None"
      "s' = s\<lparr>ms_participants := (ms_participants s)(pt_ParticipantID p \<mapsto> p)\<rparr>"
  using assms by (auto simp: register_participant_def split: option.splits if_splits)

abbreviation put_interaction :: "memory_store \<Rightarrow> interaction_event \<Rightarrow> memory_store" where
  "put_interaction s e \<equiv> s\<lparr>ms_interactionEvents := (ms_interactionEvents s)(ie_EventID e \<mapsto> e),
     ms_interactionOrder := (ms_interactionOrder s)
       (ie_InteractionID e \<mapsto> interaction_log s (ie_InteractionID e) @ [ie_EventID e])\<rparr>"

lemma append_interaction_cases:
  assumes "append_interaction_event pu s e = Inr s'"
  obtains
    (retry) old where "ms_interactionEvents s (ie_EventID e) = Some old" "same_interaction_event old e" "s' = s"
      "validate_interaction_event pu e"
  | (fresh) a p u where "validate_interaction_event pu e" "ms_interactionEvents s (ie_EventID e) = None"
      "ms_events s (ie_EventID e) = None" "ms_assignments s (ie_AssignmentID e) = Some a"
      "an_TaskID a = ie_TaskID e" "ms_participants s (ie_ParticipantID e) = Some p"
      "pt_Status p = ParticipantActive" "validate_interaction_relations s e = Inr u" "s' = put_interaction s e"
  using assms
  by (auto simp: append_interaction_event_def and_then_Inr_iff split: option.splits if_splits)

section \<open>The ledger of Assignment states\<close>

text \<open>
  What the store promises about Assignments: each is created offered at revision one, and then
  moves one revision at a time along the allowed transitions; a delegation moves its parent and
  creates its child together. A repeated operation changes nothing.
\<close>

type_synonym ledger = "string \<rightharpoonup> assignment_status \<times> nat"

datatype ledger_event = Offered string | Moved string operation_kind | Delegated string string | Elsewhere

inductive ledger_step :: "ledger \<Rightarrow> ledger_event \<Rightarrow> ledger \<Rightarrow> bool" where
  offered: "L i = None \<Longrightarrow> ledger_step L (Offered i) (L(i \<mapsto> (AssignmentOffered, 1)))"
| moved: "L i = Some (st, n) \<Longrightarrow> allowed_transition st k st' \<Longrightarrow> k \<noteq> OperationDelegate \<Longrightarrow>
    ledger_step L (Moved i k) (L(i \<mapsto> (st', Suc n)))"
| delegated: "L p = Some (AssignmentAccepted, n) \<Longrightarrow> L c = None \<Longrightarrow>
    ledger_step L (Delegated p c) (L(p \<mapsto> (AssignmentAccepted, Suc n), c \<mapsto> (AssignmentOffered, 1)))"
| again: "ledger_step L e L"

definition ledger_of :: "memory_store \<Rightarrow> ledger" where
  "ledger_of s = (\<lambda>i. map_option (\<lambda>a. (an_Status a, unat (an_Revision a))) (ms_assignments s i))"

fun op_event :: "store_op \<Rightarrow> ledger_event" where
  "op_event (CommitAssignment ex n r) =
     (if ex = 0 then Offered (an_AssignmentID n) else Moved (an_AssignmentID n) (kr_Kind r))"
| "op_event (CommitDelegation ex t) = Delegated (an_AssignmentID (dt_Parent t)) (an_AssignmentID (dt_Child t))"
| "op_event op = Elsewhere"

lemma ledger_of_update:
  "ledger_of (s\<lparr>ms_assignments := (ms_assignments s)(i \<mapsto> a), ms_events := ev\<rparr>) =
     (ledger_of s)(i \<mapsto> (an_Status a, unat (an_Revision a)))"
  by (auto simp: ledger_of_def)

lemma allowed_delegate: "allowed_transition st OperationDelegate st' \<Longrightarrow> st = AssignmentAccepted \<and> st' = AssignmentAccepted"
  by (auto simp: allowed_transition_def split: assignment_status.splits)

lemma commit_assignment_ledger:
  assumes "commit_assignment m s ex n r = Inr s'"
  shows "ledger_step (ledger_of s) (op_event (CommitAssignment ex n r)) (ledger_of s')"
  using assms
proof (cases rule: commit_assignment_cases)
  case retry
  then show ?thesis by (simp add: again)
next
  case (create h)
  have "ledger_of s' = (ledger_of s)(an_AssignmentID n \<mapsto> (AssignmentOffered, 1))"
    using create validate_assignment_first(1) by (auto simp: ledger_of_def)
  then show ?thesis
    using create offered [of "ledger_of s" "an_AssignmentID n"] by (simp add: ledger_of_def)
next
  case (move h cur)
  note st = valid_move_status [OF move(8)]
  have "ledger_of s' = (ledger_of s)(an_AssignmentID n \<mapsto> (an_Status n, Suc (unat (an_Revision cur))))"
    using move st(2) by (auto simp: ledger_of_def)
  moreover have "ledger_of s (an_AssignmentID n) = Some (an_Status cur, unat (an_Revision cur))"
    using move by (simp add: ledger_of_def)
  ultimately show ?thesis
    using move st(1) by (simp add: moved)
qed

lemma commit_delegation_ledger:
  assumes "commit_delegation m s ex t = Inr s'"
  shows "ledger_step (ledger_of s) (op_event (CommitDelegation ex t)) (ledger_of s')"
  using assms
proof (cases rule: commit_delegation_cases)
  case retry
  then show ?thesis by (simp add: again)
next
  case (fresh ph ch cur)
  have c: "validate_assignment (dt_Child t)" "an_Revision (dt_Child t) = 1"
      and p: "an_Status (dt_Parent t) = AssignmentAccepted" "kr_Kind (dt_ParentRecord t) = OperationDelegate"
    using fresh(1) by (auto simp: delegation_ok_def Let_def)
  note st = valid_move_status [OF fresh(10)]
  have "ledger_of s' = (ledger_of s)
      (an_AssignmentID (dt_Parent t) \<mapsto> (AssignmentAccepted, Suc (unat (an_Revision cur))),
       an_AssignmentID (dt_Child t) \<mapsto> (AssignmentOffered, 1))"
    using fresh(13) st(2) p validate_assignment_first(1) [OF c] c(2) by (auto simp: ledger_of_def)
  moreover have "an_Status cur = AssignmentAccepted"
    using st(1) p(2) allowed_delegate by auto
  then have "ledger_of s (an_AssignmentID (dt_Parent t)) = Some (AssignmentAccepted, unat (an_Revision cur))"
      "ledger_of s (an_AssignmentID (dt_Child t)) = None"
    using fresh by (auto simp: ledger_of_def)
  ultimately show ?thesis
    using delegated [of "ledger_of s" "an_AssignmentID (dt_Parent t)"] by simp
qed

lemma store_step_ledger:
  assumes "store_step pu m s op s'"
  shows "ledger_step (ledger_of s) (op_event op) (ledger_of s')"
proof (cases op)
  case (RegisterParticipant p)
  then have "ledger_of s' = ledger_of s"
    using assms by (auto simp: store_step_def ledger_of_def elim: register_participant_cases)
  then show ?thesis by (simp add: again)
next
  case (AppendInteraction e)
  then have "ledger_of s' = ledger_of s"
    using assms by (auto simp: store_step_def ledger_of_def elim: append_interaction_cases)
  then show ?thesis by (simp add: again)
qed (use assms commit_assignment_ledger commit_delegation_ledger in \<open>auto simp: store_step_def\<close>)

interpretation store_ledger: simulated "store_step pu m" "\<lambda>s. True" ledger_of op_event ledger_step for pu m
  by unfold_locales (simp_all add: store_step_ledger)


section \<open>What a store keeps\<close>

text \<open>
  Records are never lost or overwritten, interactions are only appended, and an identifier used by
  an Assignment event never becomes that of an interaction event.
\<close>

definition extends :: "memory_store \<Rightarrow> memory_store \<Rightarrow> bool" where
  "extends s s' \<longleftrightarrow> ms_participants s \<subseteq>\<^sub>m ms_participants s' \<and> ms_events s \<subseteq>\<^sub>m ms_events s' \<and>
     ms_delegations s \<subseteq>\<^sub>m ms_delegations s' \<and> ms_interactionEvents s \<subseteq>\<^sub>m ms_interactionEvents s' \<and>
     dom (ms_assignments s) \<subseteq> dom (ms_assignments s') \<and>
     (\<forall>i. prefix (interaction_log s i) (interaction_log s' i)) \<and>
     (\<forall>x\<in>dom (ms_events s). ms_interactionEvents s' x = ms_interactionEvents s x)"

lemma extends_refl [simp]: "extends s s"
  by (simp add: extends_def)

lemma extends_trans:
  assumes "extends s s'" and "extends s' s''"
  shows "extends s s''"
proof -
  have "ms_interactionEvents s'' x = ms_interactionEvents s x" if "x \<in> dom (ms_events s)" for x
  proof -
    have "x \<in> dom (ms_events s')"
      using that assms(1) map_le_implies_dom_le [of "ms_events s" "ms_events s'"] by (auto simp: extends_def)
    then show ?thesis
      using that assms by (simp add: extends_def)
  qed
  moreover have "prefix (interaction_log s i) (interaction_log s'' i)" for i
    using assms prefix_order.trans unfolding extends_def by blast
  ultimately show ?thesis
    using assms unfolding extends_def by (meson map_le_trans subset_trans)
qed

lemma map_le_Some: "m \<subseteq>\<^sub>m m' \<Longrightarrow> m x = Some v \<Longrightarrow> m' x = Some v"
  by (force simp: map_le_def)

lemma extends_keeps:
  assumes "extends s s'"
  shows "ms_participants s i = Some p \<Longrightarrow> ms_participants s' i = Some p"
    and "ms_events s x = Some c \<Longrightarrow> ms_events s' x = Some c"
    and "ms_delegations s x = Some d \<Longrightarrow> ms_delegations s' x = Some d"
    and "ms_interactionEvents s x = Some e \<Longrightarrow> ms_interactionEvents s' x = Some e"
    and "ms_events s x = Some c \<Longrightarrow> ms_interactionEvents s' x = ms_interactionEvents s x"
  using assms by (auto simp: extends_def map_le_Some)

lemma map_le_fresh: "m x = None \<Longrightarrow> m \<subseteq>\<^sub>m m(x \<mapsto> v)"
  by (auto simp: map_le_def)

lemma map_le_fresh2: "m x = None \<Longrightarrow> m y = None \<Longrightarrow> m \<subseteq>\<^sub>m m(x \<mapsto> v, y \<mapsto> w)"
  by (auto simp: map_le_def)

lemma interaction_log_other [simp]:
  "interaction_log (s\<lparr>ms_assignments := x\<rparr>) = interaction_log s"
  "interaction_log (s\<lparr>ms_events := e\<rparr>) = interaction_log s"
  "interaction_log (s\<lparr>ms_delegations := d\<rparr>) = interaction_log s"
  "interaction_log (s\<lparr>ms_participants := p\<rparr>) = interaction_log s"
  "interaction_log (s\<lparr>ms_interactionEvents := e'\<rparr>) = interaction_log s"
  by (simp_all add: interaction_log_def fun_eq_iff)

lemma interaction_log_put [simp]:
  "interaction_log (put_interaction s e) i =
     (if i = ie_InteractionID e then interaction_log s i @ [ie_EventID e] else interaction_log s i)"
  by (simp add: interaction_log_def)

lemma store_step_extends:
  assumes "store_step pu m s op s'"
  shows "extends s s'"
proof (cases op)
  case (RegisterParticipant p)
  then have "register_participant pu s p = Inr s'" using assms by (simp add: store_step_def)
  then show ?thesis
    by (cases rule: register_participant_cases) (simp_all add: extends_def map_le_fresh)
next
  case (CommitAssignment ex n r)
  then have "commit_assignment m s ex n r = Inr s'" using assms by (simp add: store_step_def)
  then show ?thesis
    by (cases rule: commit_assignment_cases) (auto simp: extends_def map_le_fresh)
next
  case (CommitDelegation ex t)
  then have "commit_delegation m s ex t = Inr s'" using assms by (simp add: store_step_def)
  then show ?thesis
    by (cases rule: commit_delegation_cases) (auto simp: extends_def map_le_fresh map_le_fresh2)
next
  case (AppendInteraction e)
  then have "append_interaction_event pu s e = Inr s'" using assms by (simp add: store_step_def)
  then show ?thesis
    by (cases rule: append_interaction_cases) (auto simp: extends_def map_le_fresh)
qed

interpretation store_extends: preserved "store_step pu m" "extends s\<^sub>0" for pu m s\<^sub>0
  by unfold_locales (blast intro: extends_trans store_step_extends)

lemma run_extends: "run (store_step pu m) s ops s' \<Longrightarrow> extends s s'"
  using store_extends.run_keeps extends_refl by blast

text \<open>An operation that succeeded succeeds again, without effect, in every later state.\<close>

lemma commit_assignment_again:
  assumes "commit_assignment m s ex n r = Inr s'" and "extends s' s''"
  shows "commit_assignment m s'' ex n r = Inr s''"
proof -
  have "\<exists>h c. assignment_hash m n = Inr h \<and> ms_events s' (kr_EventID r) = Some c \<and> committed_matches c n h r \<and>
      ms_interactionEvents s' (kr_EventID r) = None"
    using assms(1) by (cases rule: commit_assignment_cases) auto
  then obtain h c where hc: "assignment_hash m n = Inr h" "ms_events s' (kr_EventID r) = Some c"
      "committed_matches c n h r" "ms_interactionEvents s' (kr_EventID r) = None"
    by blast
  have "ms_events s'' (kr_EventID r) = Some c" "ms_interactionEvents s'' (kr_EventID r) = None"
    using hc(2,4) extends_keeps [OF assms(2)] by auto
  moreover have "validate_assignment_commit ex n r = Inr ()" "\<not> (ex \<noteq> 0 \<and> kr_Kind r = OperationDelegate)"
    using assms(1) by (auto simp: commit_assignment_def and_then_Inr_iff)
  ultimately show ?thesis
    using hc by (auto simp: commit_assignment_def)
qed

lemma commit_delegation_again:
  assumes "commit_delegation m s ex t = Inr s'" and "extends s' s''"
  shows "commit_delegation m s'' ex t = Inr s''"
proof -
  let ?p = "kr_EventID (dt_ParentRecord t)" and ?c = "kr_EventID (dt_ChildRecord t)"
  have "\<exists>ph ch pc cc. assignment_hash m (dt_Parent t) = Inr ph \<and> assignment_hash m (dt_Child t) = Inr ch \<and>
      ms_events s' ?p = Some pc \<and> ms_events s' ?c = Some cc \<and>
      committed_matches pc (dt_Parent t) ph (dt_ParentRecord t) \<and>
      committed_matches cc (dt_Child t) ch (dt_ChildRecord t) \<and>
      ms_interactionEvents s' ?p = None \<and> ms_interactionEvents s' ?c = None \<and>
      ms_delegations s' (dr_EventID (dt_Delegation t)) = Some (dt_Delegation t)"
    using assms(1)
    by (cases rule: commit_delegation_cases) (auto simp: delegation_ok_def Let_def)
  then obtain ph ch pc cc where hc: "assignment_hash m (dt_Parent t) = Inr ph"
      "assignment_hash m (dt_Child t) = Inr ch" "ms_events s' ?p = Some pc" "ms_events s' ?c = Some cc"
      "committed_matches pc (dt_Parent t) ph (dt_ParentRecord t)"
      "committed_matches cc (dt_Child t) ch (dt_ChildRecord t)"
      "ms_interactionEvents s' ?p = None" "ms_interactionEvents s' ?c = None"
      "ms_delegations s' (dr_EventID (dt_Delegation t)) = Some (dt_Delegation t)"
    by blast
  have "ms_events s'' ?p = Some pc" "ms_events s'' ?c = Some cc" "ms_interactionEvents s'' ?p = None"
      "ms_interactionEvents s'' ?c = None" "ms_delegations s'' (dr_EventID (dt_Delegation t)) = Some (dt_Delegation t)"
    using hc(3,4,7-9) extends_keeps [OF assms(2)] by auto
  moreover obtain u where "validate_delegation_transition ex t = Inr u"
    using assms(1) by (auto simp: commit_delegation_def Let_def and_then_Inr_iff)
  ultimately show ?thesis
    using hc(1,2,5,6) by (simp add: commit_delegation_def Let_def)
qed

lemma store_apply_again:
  assumes "store_apply pu m s op = Inr s'" and "extends s' s''"
  shows "store_apply pu m s'' op = Inr s''"
proof (cases op)
  case (RegisterParticipant p)
  then have ok: "register_participant pu s p = Inr s'" using assms(1) by simp
  then have "ms_participants s' (pt_ParticipantID p) = Some p" "validate_participant pu p"
    by (auto simp: register_participant_def split: option.splits if_splits)
  then have "ms_participants s'' (pt_ParticipantID p) = Some p"
    using extends_keeps(1) [OF assms(2)] by blast
  then show ?thesis
    using \<open>validate_participant pu p\<close> RegisterParticipant by (simp add: register_participant_def)
next
  case (AppendInteraction e)
  then have ok: "append_interaction_event pu s e = Inr s'" using assms(1) by simp
  then obtain old where "ms_interactionEvents s' (ie_EventID e) = Some old" "same_interaction_event old e"
      "validate_interaction_event pu e"
    by (cases rule: append_interaction_cases) auto
  moreover have "ms_interactionEvents s'' (ie_EventID e) = Some old"
    using extends_keeps(4) [OF assms(2)] calculation(1) by blast
  ultimately show ?thesis
    using AppendInteraction by (simp add: append_interaction_event_def)
qed (use assms commit_assignment_again commit_delegation_again in \<open>auto simp: store_step_def\<close>)

end
