(* ===== verification/Task_Audit.thy ===== *)
theory Task_Audit
  imports Task_Ledger
begin

text \<open>
  The audit trail of the in-process Task store: the committed events of an Assignment are exactly
  one per revision, and each starts in the status where the previous one ended.
\<close>

section \<open>The trail of an Assignment\<close>

definition event_known :: "(string \<rightharpoonup> assignment) \<Rightarrow> string \<Rightarrow> committed_event \<Rightarrow> bool" where
  "event_known A x c \<longleftrightarrow> kr_EventID (ce_record c) = x \<and> kr_AssignmentID (ce_record c) = ce_assignmentID c \<and>
     kr_Revision (ce_record c) = ce_revision c \<and>
     (\<exists>a. A (ce_assignmentID c) = Some a \<and> 0 < unat (ce_revision c) \<and> unat (ce_revision c) \<le> unat (an_Revision a))"

definition same_revision :: "committed_event \<Rightarrow> committed_event \<Rightarrow> bool" where
  "same_revision c c' \<longleftrightarrow> ce_assignmentID c = ce_assignmentID c' \<and> ce_revision c = ce_revision c'"

definition next_revision :: "committed_event \<Rightarrow> committed_event \<Rightarrow> bool" where
  "next_revision c c' \<longleftrightarrow> ce_assignmentID c = ce_assignmentID c' \<and> unat (ce_revision c') = Suc (unat (ce_revision c))"

definition trail :: "(string \<rightharpoonup> assignment) \<Rightarrow> (string \<rightharpoonup> committed_event) \<Rightarrow> bool" where
  "trail A E \<longleftrightarrow>
     (\<forall>i a. A i = Some a \<longrightarrow> an_AssignmentID a = i \<and> validate_assignment a \<and>
       (\<exists>c. E (kr_EventID (an_LastTransition a)) = Some c \<and> ce_record c = an_LastTransition a)) \<and>
     (\<forall>x c. E x = Some c \<longrightarrow> event_known A x c) \<and>
     (\<forall>i a k. A i = Some a \<longrightarrow> 0 < k \<longrightarrow> k \<le> unat (an_Revision a) \<longrightarrow>
       (\<exists>x c. E x = Some c \<and> ce_assignmentID c = i \<and> unat (ce_revision c) = k)) \<and>
     (\<forall>x c y c'. E x = Some c \<longrightarrow> E y = Some c' \<longrightarrow> same_revision c c' \<longrightarrow> x = y) \<and>
     (\<forall>x c y c'. E x = Some c \<longrightarrow> E y = Some c' \<longrightarrow> next_revision c c' \<longrightarrow>
       kr_From (ce_record c') = kr_To (ce_record c))"

lemma make_committed_simps [simp]:
  "ce_assignmentID (make_committed a h r) = an_AssignmentID a"
  "ce_revision (make_committed a h r) = an_Revision a"
  "ce_snapshotHash (make_committed a h r) = h"
  "ce_record (make_committed a h r) = r"
  by (simp_all add: make_committed_def)

lemma trailI:
  assumes "\<And>i a. A i = Some a \<Longrightarrow> an_AssignmentID a = i \<and> validate_assignment a \<and>
      (\<exists>c. E (kr_EventID (an_LastTransition a)) = Some c \<and> ce_record c = an_LastTransition a)"
    and "\<And>x c. E x = Some c \<Longrightarrow> event_known A x c"
    and "\<And>i a k. A i = Some a \<Longrightarrow> 0 < k \<Longrightarrow> k \<le> unat (an_Revision a) \<Longrightarrow>
      \<exists>x c. E x = Some c \<and> ce_assignmentID c = i \<and> unat (ce_revision c) = k"
    and "\<And>x c y c'. E x = Some c \<Longrightarrow> E y = Some c' \<Longrightarrow> same_revision c c' \<Longrightarrow> x = y"
    and "\<And>x c y c'. E x = Some c \<Longrightarrow> E y = Some c' \<Longrightarrow> next_revision c c' \<Longrightarrow>
      kr_From (ce_record c') = kr_To (ce_record c)"
  shows "trail A E"
  unfolding trail_def using assms by blast

lemma trailD:
  assumes "trail A E"
  shows "A i = Some a \<Longrightarrow> an_AssignmentID a = i" and "A i = Some a \<Longrightarrow> validate_assignment a"
    and "A i = Some a \<Longrightarrow> \<exists>c. E (kr_EventID (an_LastTransition a)) = Some c \<and> ce_record c = an_LastTransition a"
    and "E x = Some c \<Longrightarrow> event_known A x c"
    and "A i = Some a \<Longrightarrow> 0 < k \<Longrightarrow> k \<le> unat (an_Revision a) \<Longrightarrow>
      \<exists>x c. E x = Some c \<and> ce_assignmentID c = i \<and> unat (ce_revision c) = k"
    and "E x = Some c \<Longrightarrow> E y = Some c' \<Longrightarrow> same_revision c c' \<Longrightarrow> x = y"
    and "E x = Some c \<Longrightarrow> E y = Some c' \<Longrightarrow> next_revision c c' \<Longrightarrow> kr_From (ce_record c') = kr_To (ce_record c)"
  using assms unfolding trail_def by blast+

text \<open>The event of an Assignment's current revision is its last transition.\<close>

lemma trail_current:
  assumes "trail A E" and "A i = Some a" and "E x = Some c" and "ce_assignmentID c = i"
    and "unat (ce_revision c) = unat (an_Revision a)"
  shows "ce_record c = an_LastTransition a"
proof -
  obtain c' where c': "E (kr_EventID (an_LastTransition a)) = Some c'" "ce_record c' = an_LastTransition a"
    using trailD(3) [OF assms(1,2)] by blast
  have "ce_assignmentID c' = i" "ce_revision c' = an_Revision a"
    using trailD(4) [OF assms(1) c'(1)] c'(2) validate_assignment_revision [OF trailD(2) [OF assms(1,2)]]
      trailD(1) [OF assms(1,2)]
    by (auto simp: event_known_def)
  then have "same_revision c c'"
    using assms(4,5) by (simp add: same_revision_def word_unat_eq_iff)
  then show ?thesis
    using trailD(6) [OF assms(1,3) c'(1)] c' assms(3) by simp
qed

text \<open>One more revision of an Assignment, or its first.\<close>

definition continues :: "assignment option \<Rightarrow> assignment \<Rightarrow> bool" where
  "continues prev n = (case prev of
     None \<Rightarrow> an_Revision n = 1
   | Some cur \<Rightarrow> unat (an_Revision n) = Suc (unat (an_Revision cur)) \<and> kr_From (an_LastTransition n) = an_Status cur)"

lemma trail_earlier:
  assumes "trail A E" and "continues (A (an_AssignmentID n)) n" and "E x = Some c"
    and "ce_assignmentID c = an_AssignmentID n"
  obtains cur where "A (an_AssignmentID n) = Some cur" and "unat (ce_revision c) \<le> unat (an_Revision cur)"
    and "unat (an_Revision n) = Suc (unat (an_Revision cur))" and "kr_From (an_LastTransition n) = an_Status cur"
  using trailD(4) [OF assms(1,3)] assms(2,4) by (auto simp: event_known_def continues_def)

lemma trail_put:
  assumes tr: "trail A E" and n: "validate_assignment n" and new: "E (kr_EventID (an_LastTransition n)) = None"
    and cont: "continues (A (an_AssignmentID n)) n"
  shows "trail (A(an_AssignmentID n \<mapsto> n))
    (E(kr_EventID (an_LastTransition n) \<mapsto> make_committed n h (an_LastTransition n)))"
    (is "trail ?A ?E")
proof (rule trailI)
  let ?i = "an_AssignmentID n" and ?x = "kr_EventID (an_LastTransition n)"
  let ?c = "make_committed n h (an_LastTransition n)"
  note rev = validate_assignment_revision [OF n]
  have pos: "0 < unat (an_Revision n)" using rev(1) by (simp add: word_pos_iff)
  have old: "?E y = Some c \<Longrightarrow> y \<noteq> ?x \<Longrightarrow> E y = Some c" for y c by simp
  have less: "unat (ce_revision c) < unat (an_Revision n)" if "E y = Some c" "ce_assignmentID c = ?i" for y c
    using trail_earlier [OF tr cont that] by (metis le_imp_less_Suc)
  {
    fix i a assume "?A i = Some a"
    then show "an_AssignmentID a = i \<and> validate_assignment a \<and>
        (\<exists>c. ?E (kr_EventID (an_LastTransition a)) = Some c \<and> ce_record c = an_LastTransition a)"
      using n trailD(1-3) [OF tr, of i a] new by (auto split: if_splits)
  next
    fix y c assume y: "?E y = Some c"
    show "event_known ?A y c"
    proof (cases "y = ?x")
      case True
      then show ?thesis using y rev pos by (auto simp: event_known_def)
    next
      case False
      with y have "event_known A y c" using trailD(4) [OF tr] by simp
      moreover have "unat (ce_revision c) < unat (an_Revision n)" if "ce_assignmentID c = ?i"
        using less [OF old [OF y False] that] .
      ultimately show ?thesis by (auto simp: event_known_def)
    qed
  next
    fix i a k assume a: "?A i = Some a" and k: "0 < k" "k \<le> unat (an_Revision a)"
    show "\<exists>x c. ?E x = Some c \<and> ce_assignmentID c = i \<and> unat (ce_revision c) = k"
    proof (cases "i = ?i \<and> k = unat (an_Revision n)")
      case True
      then show ?thesis by (intro exI [of _ ?x] exI [of _ ?c]) simp
    next
      case False
      have "\<exists>b. A i = Some b \<and> k \<le> unat (an_Revision b)"
        using False a k cont by (cases "A ?i") (auto simp: continues_def split: if_splits)
      then obtain y c where "E y = Some c" "ce_assignmentID c = i" "unat (ce_revision c) = k"
        using trailD(5) [OF tr] k(1) by blast
      moreover then have "y \<noteq> ?x" using new by auto
      ultimately show ?thesis by (intro exI [of _ y] exI [of _ c]) simp
    qed
  next
    fix y c z c' assume y: "?E y = Some c" and z: "?E z = Some c'" and eq: "same_revision c c'"
    have clash: False if "E v = Some b" "same_revision b ?c" for v b
      using less [OF that(1)] that(2) by (simp add: same_revision_def)
    have sym: "same_revision c' c" using eq by (simp add: same_revision_def)
    show "y = z"
    proof (cases "y = ?x"; cases "z = ?x")
      assume "y = ?x" "z \<noteq> ?x"
      then show ?thesis using clash [of z c'] y z sym by simp
    next
      assume "y \<noteq> ?x" "z = ?x"
      then show ?thesis using clash [of y c] y z eq by simp
    next
      assume "y \<noteq> ?x" "z \<noteq> ?x"
      then show ?thesis using trailD(6) [OF tr _ _ eq] y z by simp
    qed simp
  next
    fix y c z c' assume y: "?E y = Some c" and z: "?E z = Some c'" and nx: "next_revision c c'"
    show "kr_From (ce_record c') = kr_To (ce_record c)"
    proof (cases "y = ?x")
      case True
      then have "c = ?c" using y by simp
      have "z \<noteq> ?x"
      proof
        assume "z = ?x"
        then have "c' = ?c" using z by simp
        with nx \<open>c = ?c\<close> show False by (simp add: next_revision_def)
      qed
      then show ?thesis
        using less [OF old [OF z]] nx \<open>c = ?c\<close> by (simp add: next_revision_def)
    next
      case y_old: False
      show ?thesis
      proof (cases "z = ?x")
        case True
        then have c': "c' = ?c" using z by simp
        then have same: "ce_assignmentID c = ?i" using nx by (simp add: next_revision_def)
        obtain cur where cur: "A ?i = Some cur" "unat (an_Revision n) = Suc (unat (an_Revision cur))"
            "kr_From (an_LastTransition n) = an_Status cur"
          using trail_earlier [OF tr cont old [OF y y_old] same] by metis
        have "ce_record c = an_LastTransition cur"
          using trail_current [OF tr cur(1) old [OF y y_old] same] nx c' cur(2)
          by (simp add: next_revision_def)
        then show ?thesis
          using cur(3) c' validate_assignment_revision(4) [OF trailD(2) [OF tr cur(1)]]
          by simp
      next
        case False
        then show ?thesis using trailD(7) [OF tr old [OF y y_old] old [OF z False] nx] by simp
      qed
    qed
  }
qed


section \<open>Delegations\<close>

text \<open>
  A delegation edge is stored exactly when its parent's event is, names that Assignment and its
  participant, and its child is in the store.
\<close>

definition edge_backed :: "memory_store \<Rightarrow> string \<Rightarrow> delegation_record \<Rightarrow> bool" where
  "edge_backed s x d \<longleftrightarrow> dr_EventID d = x \<and> validate_delegation_record d \<and>
     dr_ChildAssignmentID d \<in> dom (ms_assignments s) \<and>
     (\<exists>c. ms_events s x = Some c \<and> kr_Kind (ce_record c) = OperationDelegate \<and>
       ce_assignmentID c = dr_ParentAssignmentID d \<and> kr_ParticipantID (ce_record c) = dr_FromParticipantID d)"

definition delegations_ok :: "memory_store \<Rightarrow> bool" where
  "delegations_ok s \<longleftrightarrow> (\<forall>x d. ms_delegations s x = Some d \<longrightarrow> edge_backed s x d) \<and>
     (\<forall>x c. ms_events s x = Some c \<longrightarrow> kr_Kind (ce_record c) = OperationDelegate \<longrightarrow> x \<in> dom (ms_delegations s))"

definition audited :: "memory_store \<Rightarrow> bool" where
  "audited s \<longleftrightarrow> trail (ms_assignments s) (ms_events s) \<and> delegations_ok s"

lemma audited_new: "audited new_memory_store"
  by (simp add: audited_def trail_def delegations_ok_def new_memory_store_def)

lemma edge_backed_extends: "edge_backed s x d \<Longrightarrow> extends s s' \<Longrightarrow> edge_backed s' x d"
  using extends_keeps(2) by (fastforce simp: edge_backed_def extends_def)

lemma delegations_ok_extends:
  assumes "delegations_ok s" and "extends s s'" and "ms_delegations s' = ms_delegations s"
    and "\<And>x c. ms_events s' x = Some c \<Longrightarrow> ms_events s x = Some c \<or> kr_Kind (ce_record c) \<noteq> OperationDelegate"
  shows "delegations_ok s'"
  using assms edge_backed_extends [OF _ assms(2)] unfolding delegations_ok_def by metis

lemma valid_move_continues: "valid_move m cur n r \<Longrightarrow> continues (Some cur) n"
  using valid_move_status(2) by (auto simp: continues_def valid_move_def)

lemma commit_assignment_audited:
  assumes "commit_assignment m s ex n r = Inr s'" and "audited s"
  shows "audited s'"
proof -
  have ext: "extends s s'"
    using assms(1) store_step_extends [of undefined m s "CommitAssignment ex n r" s'] by (simp add: store_step_def)
  have tr: "trail (ms_assignments s) (ms_events s)" and del: "delegations_ok s"
    using assms(2) by (auto simp: audited_def)
  from assms(1) show ?thesis
  proof (cases rule: commit_assignment_cases)
    case retry
    then show ?thesis using assms(2) by simp
  next
    case (create h)
    have "kr_Kind r \<noteq> OperationDelegate"
      using validate_assignment_first(2) [OF create(6,9)] create(8) by simp
    then have "delegations_ok s'"
      using create by (intro delegations_ok_extends [OF del ext]) (auto split: if_splits)
    moreover have "trail (ms_assignments s') (ms_events s')"
      using create trail_put [OF tr create(6), of h] by (simp add: continues_def)
    ultimately show ?thesis by (simp add: audited_def)
  next
    case (move h cur)
    have n: "validate_assignment n" "an_LastTransition n = r" using move(8) by (auto simp: valid_move_def)
    have "delegations_ok s'"
      using move by (intro delegations_ok_extends [OF del ext]) (auto split: if_splits)
    moreover have "trail (ms_assignments s') (ms_events s')"
      using move n trail_put [OF tr n(1), of h] valid_move_continues [OF move(8)] by simp
    ultimately show ?thesis by (simp add: audited_def)
  qed
qed

lemma commit_delegation_audited:
  assumes "commit_delegation m s ex t = Inr s'" and "audited s"
  shows "audited s'"
proof -
  have ext: "extends s s'"
    using assms(1) store_step_extends [of undefined m s "CommitDelegation ex t" s'] by (simp add: store_step_def)
  have tr: "trail (ms_assignments s) (ms_events s)" and del: "delegations_ok s"
    using assms(2) by (auto simp: audited_def)
  from assms(1) show ?thesis
  proof (cases rule: commit_delegation_cases)
    case retry
    then show ?thesis using assms(2) by simp
  next
    case (fresh ph ch cur)
    let ?p = "dt_Parent t" and ?c = "dt_Child t" and ?d = "dt_Delegation t"
    have ok: "validate_assignment ?p" "validate_assignment ?c" "an_LastTransition ?p = dt_ParentRecord t"
        "an_LastTransition ?c = dt_ChildRecord t" "an_Revision ?c = 1" "validate_delegation_record ?d"
        "kr_Kind (dt_ParentRecord t) = OperationDelegate" "dr_EventID ?d = kr_EventID (dt_ParentRecord t)"
        "dr_ParentAssignmentID ?d = an_AssignmentID ?p" "dr_ChildAssignmentID ?d = an_AssignmentID ?c"
        "dr_FromParticipantID ?d = an_ParticipantID ?p" "kr_ParticipantID (dt_ParentRecord t) = an_ParticipantID ?p"
        "kr_EventID (dt_ParentRecord t) \<noteq> kr_EventID (dt_ChildRecord t)"
      using fresh(1) unfolding delegation_ok_def Let_def by blast+
    let ?A = "(ms_assignments s)(an_AssignmentID ?p \<mapsto> ?p)"
    let ?E = "(ms_events s)(kr_EventID (dt_ParentRecord t) \<mapsto> make_committed ?p ph (dt_ParentRecord t))"
    have "trail ?A ?E"
      using fresh(6,8) ok(3) trail_put [OF tr ok(1), of ph] valid_move_continues [OF fresh(10)] by simp
    moreover have "an_AssignmentID ?p \<noteq> an_AssignmentID ?c"
      using fresh(8,11) by auto
    ultimately have "trail (ms_assignments s') (ms_events s')"
      using trail_put [of ?A ?E ?c ch] ok(2,4,5,13) fresh(7,11,13) by (simp add: continues_def)
    moreover have "delegations_ok s'"
      unfolding delegations_ok_def
    proof (intro conjI allI impI)
      fix x d assume x: "ms_delegations s' x = Some d"
      show "edge_backed s' x d"
      proof (cases "x = dr_EventID ?d")
        case True
        then have "d = ?d" using x fresh(13) by simp
        with True show ?thesis
          using ok fresh(13) by (simp add: edge_backed_def)
      next
        case False
        then have "ms_delegations s x = Some d" using x fresh(13) by simp
        then show ?thesis
          using del edge_backed_extends [OF _ ext] by (simp add: delegations_ok_def)
      qed
    next
      fix x c assume x: "ms_events s' x = Some c" "kr_Kind (ce_record c) = OperationDelegate"
      have "kr_Kind (dt_ChildRecord t) = OperationOffer"
        using validate_assignment_first(2) [OF ok(2,5)] ok(4) by simp
      then have "x = kr_EventID (dt_ParentRecord t) \<or> ms_events s x = Some c"
        using x fresh(13) by (auto split: if_splits)
      then show "x \<in> dom (ms_delegations s')"
        using del x(2) fresh(13) ok(8) by (auto simp: delegations_ok_def)
    qed
    ultimately show ?thesis by (simp add: audited_def)
  qed
qed

lemma store_step_audited:
  assumes "store_step pu m s op s'" and "audited s"
  shows "audited s'"
proof -
  have frame: "audited s'" if "ms_assignments s' = ms_assignments s" "ms_events s' = ms_events s"
      "ms_delegations s' = ms_delegations s"
    using that assms(2) by (simp add: audited_def delegations_ok_def edge_backed_def)
  show ?thesis
  proof (cases op)
    case (RegisterParticipant p)
    then show ?thesis
      using assms frame by (auto simp: store_step_def elim: register_participant_cases)
  next
    case (AppendInteraction e)
    then show ?thesis
      using assms frame by (auto simp: store_step_def elim!: append_interaction_cases)
  qed (use assms commit_assignment_audited commit_delegation_audited in \<open>auto simp: store_step_def\<close>)
qed

interpretation store_audit: preserved "store_step pu m" audited for pu m
  by unfold_locales (rule store_step_audited)

end
