(* ===== verification/Task_Interactions.thy ===== *)
theory Task_Interactions
  imports Task_Audit
begin

text \<open>
  The interaction log of the in-process Task store: every interaction starts with its one root
  question, and each later event answers an event already in the log.
\<close>

section \<open>Threads\<close>

definition root_question :: "interaction_event \<Rightarrow> bool" where
  "root_question e \<longleftrightarrow> ie_Kind e = InteractionQuestion \<and> ie_InReplyTo e = []"

definition answers_question :: "interaction_kind \<Rightarrow> bool" where
  "answers_question k \<longleftrightarrow> k = InteractionResponse \<or> k = InteractionCorrection"

text \<open>Event \<open>e\<close> relates to earlier events of its own interaction, Task and Assignment.\<close>

definition follows :: "memory_store \<Rightarrow> string list \<Rightarrow> interaction_event \<Rightarrow> bool" where
  "follows s earlier e \<longleftrightarrow>
     (\<exists>t. ms_interactionEvents s (ie_InReplyTo e) = Some t \<and> ie_InReplyTo e \<in> set earlier \<and>
       same_interaction_context e t \<and> \<not> before (ie_At e) (ie_At t) \<and>
       (if ie_Kind e = InteractionQuestion then answers_question (ie_Kind t) else ie_Kind t = InteractionQuestion)) \<and>
     (ie_Kind e = InteractionCorrection \<or> ie_Kind e = InteractionWithdrawal \<longrightarrow>
       (\<exists>u. ms_interactionEvents s (ie_Supersedes e) = Some u \<and> ie_Supersedes e \<in> set earlier \<and>
         same_interaction_context e u \<and> ie_InReplyTo u = ie_InReplyTo e \<and> \<not> before (ie_At e) (ie_At u) \<and>
         answers_question (ie_Kind u) \<and> ie_ParticipantID u = ie_ParticipantID e))"

definition threaded :: "memory_store \<Rightarrow> string list \<Rightarrow> bool" where
  "threaded s ids \<longleftrightarrow> distinct ids \<and> (\<forall>k<length ids. \<exists>e. ms_interactionEvents s (ids ! k) = Some e \<and>
     (if k = 0 then root_question e else \<not> root_question e \<and> follows s (take k ids) e))"

definition interactions_ok :: "url_parser \<Rightarrow> memory_store \<Rightarrow> bool" where
  "interactions_ok parse_url s \<longleftrightarrow>
     (\<forall>x e. ms_interactionEvents s x = Some e \<longrightarrow> ie_EventID e = x \<and> validate_interaction_event parse_url e \<and>
       x \<in> set (interaction_log s (ie_InteractionID e))) \<and>
     (\<forall>i. threaded s (interaction_log s i)) \<and>
     (\<forall>i x e. x \<in> set (interaction_log s i) \<longrightarrow> ms_interactionEvents s x = Some e \<longrightarrow> ie_InteractionID e = i) \<and>
     dom (ms_events s) \<inter> dom (ms_interactionEvents s) = {}"

lemma follows_grows:
  assumes "follows s earlier e" and "extends s s'"
  shows "follows s' earlier e"
  using assms(1) extends_keeps(4) [OF assms(2)] unfolding follows_def by blast

lemma threaded_extends:
  assumes "threaded s ids" and "extends s s'"
  shows "threaded s' ids"
  unfolding threaded_def
proof (intro conjI allI impI)
  show "distinct ids" using assms(1) by (simp add: threaded_def)
  fix k assume "k < length ids"
  then obtain e where e: "ms_interactionEvents s (ids ! k) = Some e"
      "if k = 0 then root_question e else \<not> root_question e \<and> follows s (take k ids) e"
    using assms(1) unfolding threaded_def by blast
  then show "\<exists>e. ms_interactionEvents s' (ids ! k) = Some e \<and>
      (if k = 0 then root_question e else \<not> root_question e \<and> follows s' (take k ids) e)"
    using extends_keeps(4) [OF assms(2) e(1)] follows_grows [OF _ assms(2)] by (auto split: if_splits)
qed

lemma threaded_snoc:
  assumes "threaded s ids" and "x \<notin> set ids" and "ms_interactionEvents s x = Some e"
    and "if ids = [] then root_question e else \<not> root_question e \<and> follows s ids e"
  shows "threaded s (ids @ [x])"
  unfolding threaded_def
proof (intro conjI allI impI)
  show "distinct (ids @ [x])" using assms(1,2) by (simp add: threaded_def)
  fix k assume "k < length (ids @ [x])"
  then consider "k < length ids" | "k = length ids" by fastforce
  then show "\<exists>e. ms_interactionEvents s ((ids @ [x]) ! k) = Some e \<and>
      (if k = 0 then root_question e else \<not> root_question e \<and> follows s (take k (ids @ [x])) e)"
  proof cases
    case 1
    then have "(ids @ [x]) ! k = ids ! k" "take k (ids @ [x]) = take k ids"
      by (simp_all add: nth_append)
    with 1 show ?thesis using assms(1) unfolding threaded_def by metis
  next
    case 2
    then show ?thesis using assms(3,4) by (auto split: if_splits)
  qed
qed

section \<open>Relations\<close>

lemma validate_interaction_relations_Inr:
  assumes "validate_interaction_relations s e = Inr u" and "validate_interaction_event pu e"
  shows "if root_question e then interaction_log s (ie_InteractionID e) = []
    else (\<exists>t. ms_interactionEvents s (ie_InReplyTo e) = Some t \<and>
        same_interaction_context e t \<and> \<not> before (ie_At e) (ie_At t) \<and>
        (if ie_Kind e = InteractionQuestion then answers_question (ie_Kind t)
         else ie_Kind t = InteractionQuestion)) \<and>
      (ie_Kind e = InteractionCorrection \<or> ie_Kind e = InteractionWithdrawal \<longrightarrow>
       (\<exists>u. ms_interactionEvents s (ie_Supersedes e) = Some u \<and> same_interaction_context e u \<and>
         ie_InReplyTo u = ie_InReplyTo e \<and> \<not> before (ie_At e) (ie_At u) \<and>
         answers_question (ie_Kind u) \<and> ie_ParticipantID u = ie_ParticipantID e))"
  using assms(1)
  by (auto simp: validate_interaction_relations_def root_question_def answers_question_def
      split: option.splits if_splits)

lemma append_interactions_ok:
  assumes "append_interaction_event pu s e = Inr s'" and "interactions_ok pu s"
  shows "interactions_ok pu s'"
  using assms(1)
proof (cases rule: append_interaction_cases)
  case retry
  then show ?thesis using assms(2) by simp
next
  case (fresh a p u)
  let ?i = "ie_InteractionID e"
  have ext: "extends s s'"
    using assms(1) store_step_extends [of pu undefined s "AppendInteraction e" s'] by (simp add: store_step_def)
  have known: "\<And>x e. ms_interactionEvents s x = Some e \<Longrightarrow> ie_EventID e = x \<and> validate_interaction_event pu e \<and>
       x \<in> set (interaction_log s (ie_InteractionID e))"
    and logs: "\<And>i. threaded s (interaction_log s i)"
    and own: "\<And>i x e. x \<in> set (interaction_log s i) \<Longrightarrow> ms_interactionEvents s x = Some e \<Longrightarrow> ie_InteractionID e = i"
    and disj: "dom (ms_events s) \<inter> dom (ms_interactionEvents s) = {}"
    using assms(2) unfolding interactions_ok_def by blast+
  have new: "ie_EventID e \<notin> set (interaction_log s i)" for i
    using logs [of i] fresh(2) by (auto simp: threaded_def in_set_conv_nth)
  have thread: "threaded s' (interaction_log s ?i @ [ie_EventID e])"
  proof (rule threaded_snoc)
    show "threaded s' (interaction_log s ?i)" using threaded_extends [OF logs ext] .
    show "ms_interactionEvents s' (ie_EventID e) = Some e" using fresh(9) by simp
    note rel = validate_interaction_relations_Inr [OF fresh(8,1)]
    show "if interaction_log s ?i = [] then root_question e
        else \<not> root_question e \<and> follows s' (interaction_log s ?i) e"
    proof (cases "root_question e")
      case True
      with rel show ?thesis by simp
    next
      case False
      have same: "x \<in> set (interaction_log s ?i)"
        if "ms_interactionEvents s x = Some t" "same_interaction_context e t" for x t
        using known [OF that(1)] that(2) by (simp add: same_interaction_context_def)
      from False rel have "follows s (interaction_log s ?i) e"
        unfolding follows_def using same by (simp only: if_False) blast
      then show ?thesis
        using False follows_grows [OF _ ext] by (auto simp: follows_def)
    qed
  qed (rule new)
  have "interaction_log s' i = (if i = ?i then interaction_log s i @ [ie_EventID e] else interaction_log s i)" for i
    using fresh(9) by simp
  then have log: "set (interaction_log s' i) = set (interaction_log s i) \<union> (if i = ?i then {ie_EventID e} else {})" for i
    by simp
  show ?thesis
    unfolding interactions_ok_def
  proof (intro conjI allI impI)
    fix x e' assume x: "ms_interactionEvents s' x = Some e'"
    have "x = ie_EventID e \<and> e' = e \<or> ms_interactionEvents s x = Some e'"
      using x fresh(9) by (auto split: if_splits)
    then show "ie_EventID e' = x" "validate_interaction_event pu e'"
        "x \<in> set (interaction_log s' (ie_InteractionID e'))"
      using known [of x e'] fresh(1) by (auto simp: log)
  next
    show "threaded s' (interaction_log s' i)" for i
      using thread threaded_extends [OF logs ext] fresh(9) by simp
  next
    fix i x e' assume x: "x \<in> set (interaction_log s' i)" "ms_interactionEvents s' x = Some e'"
    show "ie_InteractionID e' = i"
    proof (cases "x = ie_EventID e")
      case True
      then show ?thesis using x fresh(9) new [of i] by (auto simp: log split: if_splits)
    next
      case False
      then show ?thesis using x fresh(9) own [of x i e'] by (auto simp: log split: if_splits)
    qed
  next
    show "dom (ms_events s') \<inter> dom (ms_interactionEvents s') = {}"
      using disj fresh(3,9) by auto
  qed
qed


lemma commit_interactions_ok:
  assumes "store_step pu m s op s'" and "interactions_ok pu s" and "ms_interactionEvents s' = ms_interactionEvents s"
    and "ms_interactionOrder s' = ms_interactionOrder s" and "dom (ms_events s') \<inter> dom (ms_interactionEvents s) = {}"
  shows "interactions_ok pu s'"
proof -
  have "interaction_log s' = interaction_log s" using assms(4) by (simp add: interaction_log_def fun_eq_iff)
  then show ?thesis
    using assms threaded_extends [OF _ store_step_extends [OF assms(1)]] by (auto simp: interactions_ok_def)
qed

lemma store_step_interactions:
  assumes "store_step pu m s op s'" and "interactions_ok pu s"
  shows "interactions_ok pu s'"
proof -
  have disj: "dom (ms_events s) \<inter> dom (ms_interactionEvents s) = {}"
    using assms(2) by (simp add: interactions_ok_def)
  show ?thesis
  proof (cases op)
    case (RegisterParticipant p)
    then have "register_participant pu s p = Inr s'" using assms by (simp add: store_step_def)
    then show ?thesis
      using commit_interactions_ok [OF assms] disj by (cases rule: register_participant_cases) auto
  next
    case (CommitAssignment ex n r)
    then have "commit_assignment m s ex n r = Inr s'" using assms by (simp add: store_step_def)
    then show ?thesis
      using commit_interactions_ok [OF assms] disj by (cases rule: commit_assignment_cases) auto
  next
    case (CommitDelegation ex t)
    then have "commit_delegation m s ex t = Inr s'" using assms by (simp add: store_step_def)
    then show ?thesis
      using commit_interactions_ok [OF assms] disj by (cases rule: commit_delegation_cases) auto
  next
    case (AppendInteraction e)
    then show ?thesis using assms append_interactions_ok by (simp add: store_step_def)
  qed
qed

lemma interactions_ok_new: "interactions_ok pu new_memory_store"
  by (simp add: interactions_ok_def new_memory_store_def interaction_log_def threaded_def)

section \<open>The whole store\<close>

definition participants_ok :: "url_parser \<Rightarrow> memory_store \<Rightarrow> bool" where
  "participants_ok parse_url s \<longleftrightarrow> (\<forall>i p. ms_participants s i = Some p \<longrightarrow>
     pt_ParticipantID p = i \<and> validate_participant parse_url p)"

lemma store_step_participants:
  assumes "store_step pu m s op s'" and "participants_ok pu s"
  shows "participants_ok pu s'"
proof (cases op)
  case (RegisterParticipant p)
  then have "register_participant pu s p = Inr s'" using assms by (simp add: store_step_def)
  then show ?thesis
    using assms(2) by (cases rule: register_participant_cases) (auto simp: participants_ok_def)
next
  case (CommitAssignment ex n r)
  then have "commit_assignment m s ex n r = Inr s'" using assms by (simp add: store_step_def)
  then show ?thesis
    using assms(2) by (cases rule: commit_assignment_cases) (auto simp: participants_ok_def)
next
  case (CommitDelegation ex t)
  then have "commit_delegation m s ex t = Inr s'" using assms by (simp add: store_step_def)
  then show ?thesis
    using assms(2) by (cases rule: commit_delegation_cases) (auto simp: participants_ok_def)
next
  case (AppendInteraction e)
  then have "append_interaction_event pu s e = Inr s'" using assms by (simp add: store_step_def)
  then show ?thesis
    using assms(2) by (cases rule: append_interaction_cases) (auto simp: participants_ok_def)
qed

definition store_ok :: "url_parser \<Rightarrow> memory_store \<Rightarrow> bool" where
  "store_ok parse_url s \<longleftrightarrow> participants_ok parse_url s \<and> audited s \<and> interactions_ok parse_url s"

lemma store_ok_new: "store_ok pu new_memory_store"
  by (simp add: store_ok_def audited_new interactions_ok_new participants_ok_def) (simp add: new_memory_store_def)

interpretation store_invariant: preserved "store_step pu m" "store_ok pu" for pu m
  by unfold_locales
    (auto simp: store_ok_def intro: store_step_participants store_step_audited store_step_interactions)

section \<open>The two relation checks agree\<close>

lemma interactions_ok_no_empty: "interactions_ok pu s \<Longrightarrow> ms_interactionEvents s [] = None"
  by (cases "ms_interactionEvents s []")
    (fastforce simp: interactions_ok_def validate_interaction_event_def)+

lemma relations_agree:
  assumes ok: "store_ok pu s" and e: "validate_interaction_event pu e"
    and a: "ms_assignments s (ie_AssignmentID e) = Some a" and p: "ms_participants s (ie_ParticipantID e) = Some p"
    and task: "an_TaskID a = ie_TaskID e" and act: "pt_Status p = ParticipantActive"
  shows "validate_interaction_relations s e = Inr () \<longleftrightarrow>
    validate_interaction_append pu e a p (ms_interactionEvents s (ie_InReplyTo e))
      (ms_interactionEvents s (ie_Supersedes e)) = Inr () \<and>
    (root_question e \<longrightarrow> interaction_log s (ie_InteractionID e) = [])"
proof -
  have IE: "\<And>x t. ms_interactionEvents s x = Some t \<Longrightarrow> ie_EventID t = x" and none: "ms_interactionEvents s [] = None"
    using ok interactions_ok_no_empty by (auto simp: store_ok_def interactions_ok_def)
  have va: "validate_assignment a" "an_AssignmentID a = ie_AssignmentID e"
    using ok a trailD(1,2) by (auto simp: store_ok_def audited_def)
  have vp: "validate_participant pu p" "pt_ParticipantID p = ie_ParticipantID e"
    using ok p by (auto simp: store_ok_def participants_ok_def)
  have pre: "validate_interaction_append pu e a p rep sup =
      (if root_question e then (if rep \<noteq> None \<or> sup \<noteq> None then Inl ErrInvalidInteraction else Inr ())
       else validate_interaction_append pu e a p rep sup)" for rep sup
    using e va vp task act by (simp add: validate_interaction_append_def root_question_def)
  show ?thesis
  proof (cases "root_question e")
    case True
    then have "ie_InReplyTo e = []" "ie_Supersedes e = []" "ie_Kind e = InteractionQuestion"
      using e by (auto simp: root_question_def validate_interaction_event_def)
    then show ?thesis
      using True none e va vp task act
      by (simp add: pre validate_interaction_relations_def validate_interaction_append_def)
  next
    case False
    have sup: "ie_Kind e = InteractionQuestion \<or> ie_Kind e = InteractionResponse \<Longrightarrow> ie_Supersedes e = []"
      using e by (auto simp: validate_interaction_event_def)
    show ?thesis
      using False e va vp task act none sup
      by (cases "ms_interactionEvents s (ie_InReplyTo e)"; cases "ms_interactionEvents s (ie_Supersedes e)")
        (auto simp: validate_interaction_relations_def validate_interaction_append_def root_question_def IE)
  qed
qed

end
