(* ===== verification/Task_Progress.thy ===== *)
theory Task_Progress
  imports Task_Interactions
begin

text \<open>
  When the Assignment state machine succeeds, and that the store accepts what it returns: the second
  validation of a computed snapshot can only fail when the revision counter is exhausted.
\<close>

section \<open>Records that the machine builds\<close>

lemma next_status_allowed:
  "next_status st k = Inr st' \<longleftrightarrow> allowed_transition st k st' \<and> k \<noteq> OperationDelegate"
  by (cases st; cases k; cases st') (auto simp: next_status_def allowed_transition_def)

lemma allowed_transition_shape:
  assumes "allowed_transition st k st'"
  shows "valid_assignment_status st" "valid_assignment_status st'" "valid_operation k" "k \<noteq> OperationOffer"
    "st = AssignmentOffered \<or> st = AssignmentAccepted" "st \<noteq> no_status" "st' \<noteq> AssignmentOffered"
  using assms by (cases st; auto simp: allowed_transition_def)+

lemma validate_operation_ids:
  assumes "validate_operation a k t i at"
  shows "task_validate_id (ta_ActorID a)" "task_validate_id (ta_ParticipantID a)"
    "task_validate_id (ta_AuthorizationID a)" "task_validate_id (ta_ProofID a)" "assurance_ok (ta_Assurance a)"
  using assms by (auto simp: validate_operation_def)

lemma validate_assignmentD:
  assumes "validate_assignment a"
  shows "assignment_fields_ok a" "assignment_times_ok a" "assignment_last_ok a"
    "task_validate_id (an_AssignmentID a)" "task_validate_id (an_TaskID a)" "task_validate_id (an_ParticipantID a)"
  using assms by (auto simp: validate_assignment_def assignment_fields_ok_def)

lemma transition_record_valid:
  assumes "validate_assignment cur" and "validate_task_event e"
    and "validate_operation (te_Auth e) (te_Kind e) (an_TaskID cur) (an_AssignmentID cur) (te_At e)"
    and "allowed_transition (an_Status cur) (te_Kind e) (an_Status n)" and "an_Revision n \<noteq> 0"
  shows "validate_task_record (task_transition_record cur n e)"
  using assms(2,5) validate_operation_ids [OF assms(3)] validate_assignmentD(4,5) [OF assms(1)]
    allowed_transition_shape [OF assms(4)]
  by (simp add: validate_task_record_def task_transition_record_def validate_task_event_def)

text \<open>Acceptance times of the snapshot before an allowed transition.\<close>

lemma accepted_at_shape:
  assumes "validate_assignment cur"
  shows "an_Status cur = AssignmentOffered \<Longrightarrow> an_AcceptedAt cur = None"
    and "an_Status cur = AssignmentAccepted \<Longrightarrow> an_AcceptedAt cur \<noteq> None"
  using assms by (auto simp: validate_assignment_def assignment_times_ok_def)

lemma advance_fields:
  "an_Revision (advance_assignment cur st e) = an_Revision cur + 1"
  "an_Status (advance_assignment cur st e) = st"
  "an_UpdatedAt (advance_assignment cur st e) = te_At e"
  "an_CreatedAt (advance_assignment cur st e) = an_CreatedAt cur"
  "an_DueAt (advance_assignment cur st e) = an_DueAt cur"
  "an_AcceptedAt (advance_assignment cur st e) =
     (if te_Kind e = OperationAccept then Some (te_At e) else an_AcceptedAt cur)"
  "an_AssignmentID (advance_assignment cur st e) = an_AssignmentID cur"
  "an_TaskID (advance_assignment cur st e) = an_TaskID cur"
  "an_ParticipantID (advance_assignment cur st e) = an_ParticipantID cur"
  "an_OfferedByParticipantID (advance_assignment cur st e) = an_OfferedByParticipantID cur"
  "an_ParentAssignmentID (advance_assignment cur st e) = an_ParentAssignmentID cur"
  "an_AuthorityDigest (advance_assignment cur st e) = an_AuthorityDigest cur"
  "an_Schema (advance_assignment cur st e) = an_Schema cur"
  "an_Role (advance_assignment cur st e) = an_Role cur"
  "an_LastTransition (advance_assignment cur st e) =
     task_transition_record cur (advance_assignment cur st e) e"
  by (simp_all add: advance_assignment_def Let_def task_transition_record_def)

lemma record_fields:
  "kr_EventID (task_transition_record cur n e) = te_ID e"
  "kr_AssignmentID (task_transition_record cur n e) = an_AssignmentID cur"
  "kr_TaskID (task_transition_record cur n e) = an_TaskID cur"
  "kr_Revision (task_transition_record cur n e) = an_Revision n"
  "kr_Kind (task_transition_record cur n e) = te_Kind e"
  "kr_From (task_transition_record cur n e) = an_Status cur"
  "kr_To (task_transition_record cur n e) = an_Status n"
  "kn_Code (kr_Reason (task_transition_record cur n e)) = te_Kind e"
  "kr_At (task_transition_record cur n e) = te_At e"
  "kr_ParticipantID (task_transition_record cur n e) = ta_ParticipantID (te_Auth e)"
  "kr_ActorID (task_transition_record cur n e) = ta_ActorID (te_Auth e)"
  "kr_AuthorizationID (task_transition_record cur n e) = ta_AuthorizationID (te_Auth e)"
  "kr_ProofID (task_transition_record cur n e) = ta_ProofID (te_Auth e)"
  "kr_Assurance (task_transition_record cur n e) = ta_Assurance (te_Auth e)"
  by (simp_all add: task_transition_record_def)

text \<open>What a transition needs of the machine's inputs.\<close>

definition may_advance :: "assignment \<Rightarrow> task_event \<Rightarrow> assignment_status \<Rightarrow> bool" where
  "may_advance cur e st \<longleftrightarrow> validate_assignment cur \<and> validate_task_event e \<and>
     te_ExpectedRevision e = an_Revision cur \<and> \<not> before (te_At e) (an_UpdatedAt cur) \<and>
     validate_operation (te_Auth e) (te_Kind e) (an_TaskID cur) (an_AssignmentID cur) (te_At e) \<and>
     ta_TargetTaskID (te_Auth e) = [] \<and> ta_TargetAssignmentID (te_Auth e) = [] \<and>
     ta_TargetParticipantID (te_Auth e) = [] \<and>
     allowed_transition (an_Status cur) (te_Kind e) st \<and> te_Kind e \<noteq> OperationDelegate \<and>
     (operation_requires_assignee (te_Kind e) \<longrightarrow> ta_ParticipantID (te_Auth e) = an_ParticipantID cur) \<and>
     an_Revision cur + 1 \<noteq> 0"

lemma allowed_accept: "allowed_transition st k st' \<Longrightarrow> k = OperationAccept \<longleftrightarrow> st = AssignmentOffered \<and> st' = AssignmentAccepted"
  by (cases st) (auto simp: allowed_transition_def)

lemma advance_times:
  assumes "may_advance cur e st"
  shows "assignment_times_ok (advance_assignment cur st e)"
proof -
  have cur: "validate_assignment cur" and at: "\<not> is_zero (te_At e)" "\<not> before (te_At e) (an_UpdatedAt cur)"
      and al: "allowed_transition (an_Status cur) (te_Kind e) st" and nd: "te_Kind e \<noteq> OperationDelegate"
    using assms by (auto simp: may_advance_def validate_task_event_def)
  note t = validate_assignmentD(2) [OF cur, unfolded assignment_times_ok_def]
  have times: "\<not> is_zero (an_CreatedAt cur)" "\<not> before (te_At e) (an_CreatedAt cur)"
      "case an_DueAt cur of None \<Rightarrow> True | Some t \<Rightarrow> after t (an_CreatedAt cur)"
      "case an_AcceptedAt cur of None \<Rightarrow> True
       | Some t \<Rightarrow> \<not> (before t (an_CreatedAt cur) \<or> after t (te_At e))"
    using t at by (auto simp: time_defs split: option.splits)
  moreover have "case st of
        AssignmentOffered \<Rightarrow> an_AcceptedAt (advance_assignment cur st e) = None
      | AssignmentDeclined \<Rightarrow> an_AcceptedAt (advance_assignment cur st e) = None
      | AssignmentAccepted \<Rightarrow> an_AcceptedAt (advance_assignment cur st e) \<noteq> None
      | AssignmentReleased \<Rightarrow> an_AcceptedAt (advance_assignment cur st e) \<noteq> None
      | AssignmentFulfilled \<Rightarrow> an_AcceptedAt (advance_assignment cur st e) \<noteq> None
      | _ \<Rightarrow> True"
    using al nd accepted_at_shape [OF cur]
    by (cases "an_Status cur") (auto simp: allowed_transition_def advance_fields)
  ultimately show ?thesis
    using at unfolding assignment_times_ok_def advance_fields
    by (auto simp: time_defs split: option.splits)
qed

lemma advance_valid:
  assumes "may_advance cur e st"
  shows "validate_assignment (advance_assignment cur st e)"
proof -
  have cur: "validate_assignment cur" and ev: "validate_task_event e"
      and op: "validate_operation (te_Auth e) (te_Kind e) (an_TaskID cur) (an_AssignmentID cur) (te_At e)"
      and al: "allowed_transition (an_Status cur) (te_Kind e) st" and nz: "an_Revision cur + 1 \<noteq> 0"
      and nd: "te_Kind e \<noteq> OperationDelegate"
    using assms by (auto simp: may_advance_def)
  let ?n = "advance_assignment cur st e"
  note shape = allowed_transition_shape [OF al]
  have "assignment_fields_ok ?n"
    using validate_assignmentD(1) [OF cur] nz shape(2) by (simp add: assignment_fields_ok_def advance_fields)
  moreover have "validate_task_record (task_transition_record cur ?n e)"
    by (rule transition_record_valid [OF cur ev op]) (use al nz in \<open>simp_all add: advance_fields\<close>)
  moreover have "an_Revision cur + 1 \<noteq> 1"
    using validate_assignment_revision(1) [OF cur] by simp
  moreover have "st = AssignmentRevoked \<Longrightarrow> te_Kind e = OperationRevoke"
    using al by (cases "an_Status cur") (auto simp: allowed_transition_def)
  ultimately show ?thesis
    using advance_times [OF assms] shape(4,6) al accepted_at_shape [OF cur]
    by (auto simp: validate_assignment_def assignment_last_ok_def advance_fields record_fields Let_def)
qed

lemma apply_task_event_Inr:
  "apply_task_event cur e = Inr t \<longleftrightarrow>
     (\<exists>st. may_advance cur e st \<and>
       t = \<lparr>tt_Assignment = advance_assignment cur st e, tt_Record = an_LastTransition (advance_assignment cur st e)\<rparr>)"
  (is "?L \<longleftrightarrow> ?R")
proof
  assume ?L
  then obtain st where "next_status (an_Status cur) (te_Kind e) = Inr st"
      "validate_assignment (advance_assignment cur st e)"
      and t: "t = \<lparr>tt_Assignment = advance_assignment cur st e, tt_Record = an_LastTransition (advance_assignment cur st e)\<rparr>"
      and c: "validate_assignment cur" "validate_task_event e" "te_ExpectedRevision e = an_Revision cur"
        "\<not> before (te_At e) (an_UpdatedAt cur)"
        "validate_operation (te_Auth e) (te_Kind e) (an_TaskID cur) (an_AssignmentID cur) (te_At e)"
        "ta_TargetTaskID (te_Auth e) = []" "ta_TargetAssignmentID (te_Auth e) = []"
        "ta_TargetParticipantID (te_Auth e) = []"
        "operation_requires_assignee (te_Kind e) \<longrightarrow> ta_ParticipantID (te_Auth e) = an_ParticipantID cur"
    unfolding apply_task_event_def by (auto simp: and_then_Inr_iff Let_def)
  then have "may_advance cur e st"
    using validate_assignment_revision(1) [of "advance_assignment cur st e"]
    by (simp add: may_advance_def next_status_allowed advance_fields)
  with t show ?R by blast
next
  assume ?R
  then obtain st where m: "may_advance cur e st"
      and t: "t = \<lparr>tt_Assignment = advance_assignment cur st e, tt_Record = an_LastTransition (advance_assignment cur st e)\<rparr>"
    by blast
  have al: "allowed_transition (an_Status cur) (te_Kind e) st" using m by (simp add: may_advance_def)
  have "\<not> assignment_terminal (an_Status cur)" "te_Kind e \<noteq> OperationOffer"
    using allowed_transition_shape(4,5) [OF al] by (auto simp: assignment_terminal_def)
  then show ?L
    using m advance_valid [OF m] t next_status_allowed [of "an_Status cur" "te_Kind e" st]
    by (auto simp: apply_task_event_def may_advance_def Let_def)
qed


section \<open>Offers and delegations\<close>

lemma initial_record_valid:
  assumes "validate_definition d" and "validate_operation a k t i at"
  shows "validate_task_record (initial_offer_record d a)"
  using assms(1) validate_operation_ids [OF assms(2)]
  by (simp add: validate_task_record_def initial_offer_record_def validate_definition_def)

lemma offered_valid:
  assumes "validate_definition d" and "validate_operation a k t i at" and "task_validate_id offerer"
    and "parent \<noteq> [] \<longrightarrow> task_validate_id parent \<and> parent \<noteq> ad_AssignmentID d"
  shows "validate_assignment (offered_assignment d offerer parent (initial_offer_record d a))"
proof -
  let ?n = "offered_assignment d offerer parent (initial_offer_record d a)"
  have "assignment_fields_ok ?n"
    using assms by (simp add: assignment_fields_ok_def offered_assignment_def validate_definition_def)
  moreover have "assignment_times_ok ?n"
    using assms(1)
    by (simp add: assignment_times_ok_def offered_assignment_def validate_definition_def split: option.splits)
  moreover have "assignment_last_ok ?n"
    using initial_record_valid [OF assms(1,2)]
    by (simp add: assignment_last_ok_def offered_assignment_def initial_offer_record_def Let_def)
  ultimately show ?thesis by (simp add: validate_assignment_def)
qed

definition may_offer :: "url_parser \<Rightarrow> assignment_definition \<Rightarrow> participant \<Rightarrow> task_auth \<Rightarrow> bool" where
  "may_offer parse_url d target a \<longleftrightarrow> ad_ParentAssignmentID d = [] \<and> validate_definition d \<and>
     require_active_participant parse_url target (ad_ParticipantID d) = Inr () \<and>
     validate_operation a OperationOffer (ad_TaskID d) (ad_AssignmentID d) (ad_OfferedAt d) \<and>
     ta_TargetParticipantID a = ad_ParticipantID d \<and> ta_TargetTaskID a = [] \<and> ta_TargetAssignmentID a = []"

lemma offer_Inr:
  "offer pu d target a = Inr t \<longleftrightarrow> may_offer pu d target a \<and>
     t = \<lparr>tt_Assignment = offered_assignment d (ta_ParticipantID a) [] (initial_offer_record d a),
          tt_Record = initial_offer_record d a\<rparr>"
proof -
  have "validate_assignment (offered_assignment d (ta_ParticipantID a) [] (initial_offer_record d a))"
    if "validate_definition d" "validate_operation a OperationOffer (ad_TaskID d) (ad_AssignmentID d) (ad_OfferedAt d)"
    using offered_valid [OF that] validate_operation_ids(2) [OF that(2)] by simp
  then show ?thesis
    by (auto simp: offer_def may_offer_def Let_def and_then_Inr_iff)
qed

lemma delegation_checks_Inr:
  assumes "delegation_checks pu parent delegator target child e ver = Inr u"
  shows "validate_assignment parent" "an_Status parent = AssignmentAccepted" "pt_MayDelegate delegator"
    "require_active_participant pu delegator (an_ParticipantID parent) = Inr ()"
    "require_active_participant pu target (ad_ParticipantID child) = Inr ()"
    "validate_definition child" "ad_ParentAssignmentID child = an_AssignmentID parent"
    "ad_EventID child \<noteq> te_ID e" "equal_time (ad_OfferedAt child) (te_At e)"
    "validate_task_event e" "te_Kind e = OperationDelegate" "te_ExpectedRevision e = an_Revision parent"
    "\<not> before (te_At e) (an_UpdatedAt parent)"
    "validate_operation (te_Auth e) OperationDelegate (an_TaskID parent) (an_AssignmentID parent) (te_At e)"
    "ta_ParticipantID (te_Auth e) = an_ParticipantID parent" "validate_verified_delegation ver"
    "vd_ParentAssignmentID ver = an_AssignmentID parent" "vd_ChildAssignmentID ver = ad_AssignmentID child"
    "vd_FromParticipantID ver = an_ParticipantID parent" "vd_ToParticipantID ver = ad_ParticipantID child"
    "vd_ParentAuthorityDigest ver = an_AuthorityDigest parent"
    "vd_ChildAuthorityDigest ver = ad_AuthorityDigest child"
  using assms by (simp_all add: delegation_checks_def and_then_Inr_iff)

lemma delegated_parent_valid:
  assumes "delegation_checks pu parent delegator target child e ver = Inr u" and "an_Revision parent + 1 \<noteq> 0"
  shows "validate_assignment (delegated_parent parent e)"
proof -
  note c = delegation_checks_Inr [OF assms(1)]
  let ?n = "delegated_parent parent e"
  have n: "an_Revision ?n = an_Revision parent + 1" "an_Status ?n = AssignmentAccepted"
      "an_LastTransition ?n = task_transition_record parent ?n e"
    using c(2) by (simp_all add: delegated_parent_def Let_def task_transition_record_def)
  have "assignment_fields_ok ?n"
    using validate_assignmentD(1) [OF c(1)] assms(2)
    by (simp add: assignment_fields_ok_def delegated_parent_def Let_def)
  moreover have "assignment_times_ok ?n"
    using validate_assignmentD(2) [OF c(1)] c(2,10,13)
    by (auto simp: assignment_times_ok_def delegated_parent_def Let_def validate_task_event_def time_defs
        split: option.splits)
  moreover have "validate_task_record (task_transition_record parent ?n e)"
    by (rule transition_record_valid [OF c(1,10)]) (use c(2,11,14) n assms(2) in \<open>simp_all add: allowed_transition_def\<close>)
  moreover have "an_Revision parent + 1 \<noteq> 1"
    using validate_assignment_revision(1) [OF c(1)] by simp
  moreover have "an_AssignmentID ?n = an_AssignmentID parent" "an_TaskID ?n = an_TaskID parent" "an_UpdatedAt ?n = te_At e"
    by (simp_all add: delegated_parent_def Let_def)
  ultimately show ?thesis
    using n c(2,11)
    by (simp add: validate_assignment_def assignment_last_ok_def record_fields Let_def allowed_transition_def)
qed

definition delegation_result ::
    "assignment \<Rightarrow> assignment_definition \<Rightarrow> task_event \<Rightarrow> verified_delegation \<Rightarrow> delegation_transition" where
  "delegation_result parent child e ver =
     (let r = initial_offer_record child (te_Auth e);
          c = offered_assignment child (an_ParticipantID parent) (an_AssignmentID parent) r in
      \<lparr>dt_Parent = delegated_parent parent e, dt_ParentRecord = an_LastTransition (delegated_parent parent e),
       dt_Child = c, dt_ChildRecord = r, dt_Delegation = delegation_edge parent c e ver\<rparr>)"

lemma delegated_child_valid:
  assumes "delegation_checks pu parent delegator target child e ver = Inr u"
  shows "validate_assignment (dt_Child (delegation_result parent child e ver))"
    and "validate_delegation_record (dt_Delegation (delegation_result parent child e ver))"
proof -
  note c = delegation_checks_Inr [OF assms(1)]
  have ids: "task_validate_id (an_AssignmentID parent)" "task_validate_id (an_TaskID parent)"
      "task_validate_id (an_ParticipantID parent)"
    using validate_assignmentD [OF c(1)] by auto
  have "an_AssignmentID parent \<noteq> ad_AssignmentID child"
    using c(6,7) ids(1) by (auto simp: validate_definition_def)
  then show "validate_assignment (dt_Child (delegation_result parent child e ver))"
    using offered_valid [OF c(6,14) ids(3), of "an_AssignmentID parent"] ids(1)
    by (simp add: delegation_result_def Let_def)
  show "validate_delegation_record (dt_Delegation (delegation_result parent child e ver))"
    using c(6,10,16-22) ids validate_operation_ids(5) [OF c(14)]
    by (simp add: delegation_result_def delegation_edge_def offered_assignment_def Let_def
        validate_delegation_record_def validate_verified_delegation_def validate_definition_def validate_task_event_def)
qed

lemma delegate_Inr:
  "delegate pu parent delegator target child e ver = Inr t \<longleftrightarrow>
     delegation_checks pu parent delegator target child e ver = Inr () \<and> an_Revision parent + 1 \<noteq> 0 \<and>
     t = delegation_result parent child e ver"
  (is "?L \<longleftrightarrow> ?R")
proof
  assume L: ?L
  then have "validate_assignment (delegated_parent parent e)"
    by (auto simp: delegate_def and_then_Inr_iff Let_def)
  from validate_assignment_revision(1) [OF this] L show ?R
    by (auto simp: delegate_def and_then_Inr_iff Let_def delegation_result_def delegated_parent_def)
next
  assume R: ?R
  then have "delegation_checks pu parent delegator target child e ver = Inr ()" "an_Revision parent + 1 \<noteq> 0"
    by auto
  from R delegated_parent_valid [OF this] delegated_child_valid [OF this(1)] show ?L
    by (simp add: delegate_def delegation_result_def Let_def)
qed


section \<open>The store accepts what the machine returns\<close>

definition unused :: "memory_store \<Rightarrow> string \<Rightarrow> bool" where
  "unused s x \<longleftrightarrow> ms_events s x = None \<and> ms_interactionEvents s x = None"

lemma expected_advance:
  "expected_assignment cur (an_LastTransition (advance_assignment cur st e)) = advance_assignment cur st e"
  by (simp add: expected_assignment_def advance_assignment_def task_transition_record_def Let_def)

lemma expected_delegated:
  assumes "te_Kind e = OperationDelegate"
  shows "expected_assignment parent (an_LastTransition (delegated_parent parent e)) = delegated_parent parent e"
  using assms by (simp add: expected_assignment_def delegated_parent_def task_transition_record_def Let_def)

lemma validate_assignment_record: "validate_assignment a \<Longrightarrow> validate_task_record (an_LastTransition a)"
  by (simp add: validate_assignment_def assignment_last_ok_def Let_def)

lemma commit_applied:
  assumes "apply_task_event cur e = Inr t" and "ms_assignments s (an_AssignmentID cur) = Some cur"
    and "unused s (te_ID e)" and "m (tt_Assignment t) = Some raw"
  shows "commit_assignment m s (an_Revision cur) (tt_Assignment t) (tt_Record t) =
    Inr (put_commit s (tt_Assignment t) (sha256 raw) (tt_Record t))"
proof -
  obtain st where st: "may_advance cur e st" "tt_Assignment t = advance_assignment cur st e"
      "tt_Record t = an_LastTransition (advance_assignment cur st e)"
    using assms(1) by (auto simp: apply_task_event_Inr)
  let ?n = "advance_assignment cur st e"
  note n = advance_valid [OF st(1)]
  have cur: "validate_assignment cur" "te_Kind e \<noteq> OperationDelegate"
      "operation_requires_assignee (te_Kind e) \<longrightarrow> ta_ParticipantID (te_Auth e) = an_ParticipantID cur"
      "\<not> before (te_At e) (an_UpdatedAt cur)"
    using st(1) by (auto simp: may_advance_def)
  have hash: "assignment_hash m ?n = Inr (sha256 raw)"
    using assms(4) st(2) by (simp add: assignment_hash_def)
  have "valid_move m cur ?n (an_LastTransition ?n)"
    using n cur validate_assignment_record [OF n] hash
    by (simp add: valid_move_def expected_advance) (simp add: advance_fields record_fields)
  then have "validate_assignment_transition m cur ?n (an_LastTransition ?n) = Inr ()"
    by (simp add: validate_assignment_transition_Inr)
  moreover have "validate_assignment_commit (an_Revision cur) ?n (an_LastTransition ?n) = Inr ()"
    using n validate_assignment_record [OF n] by (simp add: validate_assignment_commit_Inr advance_fields)
  moreover have "kr_EventID (an_LastTransition ?n) = te_ID e" "kr_Kind (an_LastTransition ?n) = te_Kind e"
      "an_AssignmentID ?n = an_AssignmentID cur"
    by (simp_all add: advance_fields record_fields)
  ultimately show ?thesis
    using assms(2,3) hash cur(2) validate_assignment_revision(1) [OF cur(1)] st
    by (simp add: commit_assignment_def unused_def)
qed

lemma commit_offered:
  assumes "offer pu d target a = Inr t" and "ms_assignments s (ad_AssignmentID d) = None"
    and "unused s (ad_EventID d)" and "m (tt_Assignment t) = Some raw"
  shows "commit_assignment m s 0 (tt_Assignment t) (tt_Record t) =
    Inr (put_commit s (tt_Assignment t) (sha256 raw) (tt_Record t))"
proof -
  have may: "may_offer pu d target a" and t: "tt_Record t = initial_offer_record d a"
      "tt_Assignment t = offered_assignment d (ta_ParticipantID a) [] (initial_offer_record d a)"
    using assms(1) by (simp_all add: offer_Inr)
  have ok: "validate_definition d" "validate_operation a OperationOffer (ad_TaskID d) (ad_AssignmentID d) (ad_OfferedAt d)"
    using may by (simp_all add: may_offer_def)
  have n: "validate_assignment (tt_Assignment t)"
    using offered_valid [OF ok, of "ta_ParticipantID a" "[]"] validate_operation_ids(2) [OF ok(2)] t by simp
  have "an_LastTransition (tt_Assignment t) = tt_Record t" "an_Revision (tt_Assignment t) = 1"
      "an_AssignmentID (tt_Assignment t) = ad_AssignmentID d" "kr_EventID (tt_Record t) = ad_EventID d"
      "kr_Kind (tt_Record t) = OperationOffer"
    by (simp_all add: t offered_assignment_def initial_offer_record_def)
  then show ?thesis
    using assms(2-4) n validate_assignment_record [OF n]
    by (simp add: commit_assignment_def validate_assignment_commit_def assignment_hash_def unused_def)
qed

lemma commit_delegated:
  assumes "delegate pu parent delegator target child e ver = Inr t"
    and "ms_assignments s (an_AssignmentID parent) = Some parent" and "ms_assignments s (ad_AssignmentID child) = None"
    and "unused s (te_ID e)" and "unused s (ad_EventID child)" and "ms_delegations s (te_ID e) = None"
    and "m (dt_Parent t) = Some praw" and "m (dt_Child t) = Some craw"
  shows "commit_delegation m s (an_Revision parent) t = Inr (put_delegation s t (sha256 praw) (sha256 craw))"
proof -
  have chk: "delegation_checks pu parent delegator target child e ver = Inr ()" and nz: "an_Revision parent + 1 \<noteq> 0"
      and t: "t = delegation_result parent child e ver"
    using assms(1) by (simp_all add: delegate_Inr)
  note c = delegation_checks_Inr [OF chk]
  note p = delegated_parent_valid [OF chk nz]
  note ch = delegated_child_valid [OF chk]
  have parts: "dt_Parent t = delegated_parent parent e" "dt_ParentRecord t = an_LastTransition (delegated_parent parent e)"
      "an_LastTransition (dt_Child t) = dt_ChildRecord t" "kr_EventID (dt_ParentRecord t) = te_ID e"
      "kr_EventID (dt_ChildRecord t) = ad_EventID child" "an_AssignmentID (dt_Parent t) = an_AssignmentID parent"
      "an_AssignmentID (dt_Child t) = ad_AssignmentID child" "dr_EventID (dt_Delegation t) = te_ID e"
    by (simp_all add: t delegation_result_def Let_def delegated_parent_def record_fields offered_assignment_def
        initial_offer_record_def delegation_edge_def)
  have sym: "equal_time (te_At e) (ad_OfferedAt child)" using c(9) by (simp add: equal_time_def)
  have "validate_task_record (dt_ParentRecord t)" "validate_task_record (dt_ChildRecord t)"
    using validate_assignment_record [OF p] validate_assignment_record [OF ch(1)] parts t by simp_all
  then have "validate_delegation_transition (an_Revision parent) t = Inr ()"
    using p ch parts c(2,8,11,15) sym
    by (simp add: validate_delegation_transition_def t [symmetric] Let_def)
      (simp add: t delegation_result_def Let_def delegated_parent_def record_fields offered_assignment_def
        initial_offer_record_def delegation_edge_def)
  moreover have hash: "assignment_hash m (dt_Parent t) = Inr (sha256 praw)" "assignment_hash m (dt_Child t) = Inr (sha256 craw)"
    using assms(7,8) by (simp_all add: assignment_hash_def)
  have "valid_move m parent (dt_Parent t) (dt_ParentRecord t)"
    using hash(1) p validate_assignment_record [OF p] c(1,2,11,13)
    by (simp add: parts valid_move_def expected_delegated)
      (simp add: delegated_parent_def Let_def record_fields operation_requires_assignee_def)
  then have "validate_assignment_transition m parent (dt_Parent t) (dt_ParentRecord t) = Inr ()"
    by (simp add: validate_assignment_transition_Inr)
  ultimately show ?thesis
    using assms(2-6) hash parts by (simp add: commit_delegation_def unused_def Let_def)
qed

end
