(* ===== verification/Task_Example.thy ===== *)
theory Task_Example
  imports Task_Progress
begin

text \<open>
  A concrete history of the Task store: Alice is offered an Assignment, accepts it, delegates part of
  it to Bob and asks about it. The reference parser and the encoder are instantiated by simple
  functions; digests stay symbolic.
\<close>

section \<open>Inputs\<close>

definition tx_parse :: url_parser where
  "tx_parse = (\<lambda>_. None)"

definition tx_marshal :: marshaller where
  "tx_marshal = (\<lambda>a. Some (an_AssignmentID a @ an_AuthorityDigest a @ kr_EventID (an_LastTransition a)))"

definition tx_time :: "int \<Rightarrow> gotime" where
  "tx_time n = \<lparr>instant = n, location = UTC\<rparr>"

definition tx_participant :: "string \<Rightarrow> participant" where
  "tx_participant i =
     \<lparr>pt_Schema = ParticipantSchemaV1, pt_ParticipantID = i, pt_Kind = ParticipantAgent,
      pt_IdentityRef = ''spiffe://example/'' @ i, pt_Status = ParticipantActive, pt_MayDelegate = True,
      pt_RegisteredAt = tx_time 1\<rparr>"

definition tx_auth :: "string \<Rightarrow> operation_kind \<Rightarrow> string \<Rightarrow> string \<Rightarrow> task_auth" where
  "tx_auth who kind task assn =
     \<lparr>ta_ActorID = ''gateway'', ta_ParticipantID = who, ta_AuthorizationID = ''grant-1'', ta_ProofID = ''proof-1'',
      ta_Operation = kind, ta_TaskID = task, ta_AssignmentID = assn, ta_TargetTaskID = [],
      ta_TargetAssignmentID = [], ta_TargetParticipantID = [], ta_VerifierNonce = ''nonce-1'',
      ta_IssuedAt = tx_time 5, ta_ExpiresAt = tx_time 100, ta_Assurance = None\<rparr>"

definition tx_definition :: assignment_definition where
  "tx_definition =
     \<lparr>ad_EventID = ''event-1'', ad_AssignmentID = ''assign-1'', ad_TaskID = ''task-1'', ad_ParticipantID = ''alice'',
      ad_Role = RoleAssignee, ad_AuthorityDigest = hex_encode (sha256 ''scope-1''), ad_ParentAssignmentID = [],
      ad_OfferedAt = tx_time 10, ad_DueAt = Some (tx_time 90)\<rparr>"

definition tx_child :: assignment_definition where
  "tx_child =
     \<lparr>ad_EventID = ''event-4'', ad_AssignmentID = ''assign-2'', ad_TaskID = ''task-2'', ad_ParticipantID = ''bob'',
      ad_Role = RoleAssignee, ad_AuthorityDigest = hex_encode (sha256 ''scope-2''), ad_ParentAssignmentID = ''assign-1'',
      ad_OfferedAt = tx_time 30, ad_DueAt = None\<rparr>"

definition tx_offer_auth :: task_auth where
  "tx_offer_auth = (tx_auth ''owner'' OperationOffer ''task-1'' ''assign-1'')\<lparr>ta_TargetParticipantID := ''alice''\<rparr>"

definition tx_accept :: task_event where
  "tx_accept =
     \<lparr>te_ID = ''event-2'', te_Kind = OperationAccept, te_ExpectedRevision = 1, te_At = tx_time 20, te_Detail = [],
      te_EvidenceRef = [], te_Auth = tx_auth ''alice'' OperationAccept ''task-1'' ''assign-1''\<rparr>"

definition tx_delegate :: task_event where
  "tx_delegate =
     \<lparr>te_ID = ''event-3'', te_Kind = OperationDelegate, te_ExpectedRevision = 2, te_At = tx_time 30, te_Detail = [],
      te_EvidenceRef = [], te_Auth = (tx_auth ''alice'' OperationDelegate ''task-1'' ''assign-1'')
        \<lparr>ta_TargetTaskID := ''task-2'', ta_TargetAssignmentID := ''assign-2'', ta_TargetParticipantID := ''bob''\<rparr>\<rparr>"

definition tx_verdict :: verified_delegation where
  "tx_verdict =
     \<lparr>vd_DecisionID = ''verdict-1'', vd_ParentAssignmentID = ''assign-1'', vd_ChildAssignmentID = ''assign-2'',
      vd_FromParticipantID = ''alice'', vd_ToParticipantID = ''bob'',
      vd_ParentAuthorityDigest = hex_encode (sha256 ''scope-1''),
      vd_ChildAuthorityDigest = hex_encode (sha256 ''scope-2''), vd_PolicyRef = ''policy-1'',
      vd_EvidenceRef = ''evidence-1'', vd_VerifiedAt = tx_time 25\<rparr>"

definition tx_fulfill :: task_event where
  "tx_fulfill =
     \<lparr>te_ID = ''event-5'', te_Kind = OperationFulfill, te_ExpectedRevision = 2, te_At = tx_time 40, te_Detail = [],
      te_EvidenceRef = [], te_Auth = tx_auth ''alice'' OperationFulfill ''task-1'' ''assign-1''\<rparr>"

definition tx_question :: interaction_event where
  "tx_question =
     \<lparr>ie_Schema = InteractionEventSchemaV1, ie_EventID = ''event-9'', ie_InteractionID = ''talk-1'',
      ie_TaskID = ''task-1'', ie_AssignmentID = ''assign-1'', ie_Kind = InteractionQuestion, ie_InReplyTo = [],
      ie_Supersedes = [], ie_Finality = no_finality, ie_ContentRef = ''content-1'',
      ie_ContentDigest = hex_encode (sha256 ''content''), ie_At = tx_time 35, ie_ActorID = ''gateway'',
      ie_ParticipantID = ''alice'', ie_AuthorizationID = ''grant-1'', ie_ProofID = ''proof-1'', ie_EvidenceRef = [],
      ie_Assurance = None\<rparr>"

section \<open>Evaluation\<close>

lemma tx_ids [simp]:
  "task_validate_id ''alice''" "task_validate_id ''bob''" "task_validate_id ''owner''" "task_validate_id ''gateway''"
  "task_validate_id ''grant-1''" "task_validate_id ''proof-1''" "task_validate_id ''nonce-1''"
  "task_validate_id ''task-1''" "task_validate_id ''task-2''" "task_validate_id ''assign-1''"
  "task_validate_id ''assign-2''" "task_validate_id ''event-1''" "task_validate_id ''event-2''"
  "task_validate_id ''event-3''" "task_validate_id ''event-4''" "task_validate_id ''event-5''"
  "task_validate_id ''event-9''" "task_validate_id ''verdict-1''" "task_validate_id ''talk-1''"
  by (rule task_validate_id_printable; simp add: printable_def in_range_def byte_def task_max_id_bytes_def)+

lemma tx_refs [simp]:
  "task_validate_reference ''policy-1''" "task_validate_reference ''evidence-1''"
  "task_validate_reference ''content-1''" "task_validate_reference (''spiffe://example/'' @ ''alice'')"
  "task_validate_reference (''spiffe://example/'' @ ''bob'')"
  by (rule task_validate_reference_printable;
      simp add: printable_def in_range_def byte_def task_max_reference_bytes_def)+

lemmas tx_inputs = tx_time_def tx_auth_def tx_definition_def tx_child_def tx_offer_auth_def tx_accept_def
  tx_delegate_def tx_verdict_def tx_fulfill_def tx_question_def time_defs

lemma tx_active:
  "require_active_participant tx_parse (tx_participant ''alice'') ''alice'' = Inr ()"
  "require_active_participant tx_parse (tx_participant ''bob'') ''bob'' = Inr ()"
  using tx_refs(4,5)
  by (simp_all add: require_active_participant_def validate_participant_def tx_participant_def tx_parse_def
      is_public_or_direct_contact_reference_def tx_time_def is_zero_def del: append.simps)


section \<open>The transitions\<close>

definition tx_a1 :: assignment where
  "tx_a1 = offered_assignment tx_definition ''owner'' [] (initial_offer_record tx_definition tx_offer_auth)"

definition tx_a2 :: assignment where
  "tx_a2 = advance_assignment tx_a1 AssignmentAccepted tx_accept"

definition tx_a3 :: assignment where
  "tx_a3 = advance_assignment tx_a2 AssignmentFulfilled tx_fulfill"

definition tx_d :: delegation_transition where
  "tx_d = delegation_result tx_a2 tx_child tx_delegate tx_verdict"

lemma tx_may_offer: "may_offer tx_parse tx_definition (tx_participant ''alice'') tx_offer_auth"
  using tx_active(1)
  by (simp add: may_offer_def validate_definition_def validate_operation_def valid_role_def assurance_ok_def tx_inputs)

lemma tx_offer: "offer tx_parse tx_definition (tx_participant ''alice'') tx_offer_auth =
    Inr \<lparr>tt_Assignment = tx_a1, tt_Record = an_LastTransition tx_a1\<rparr>"
  using tx_may_offer by (simp add: offer_Inr tx_a1_def) (simp add: tx_inputs offered_assignment_def)

lemma tx_a1_fields:
  "an_AssignmentID tx_a1 = ''assign-1''" "an_TaskID tx_a1 = ''task-1''" "an_ParticipantID tx_a1 = ''alice''"
  "an_Revision tx_a1 = 1" "an_Status tx_a1 = AssignmentOffered" "an_UpdatedAt tx_a1 = tx_time 10"
  "an_AuthorityDigest tx_a1 = hex_encode (sha256 ''scope-1'')" "kr_EventID (an_LastTransition tx_a1) = ''event-1''"
  by (simp_all add: tx_a1_def offered_assignment_def initial_offer_record_def tx_definition_def)

lemma tx_a2_fields:
  "an_AssignmentID tx_a2 = ''assign-1''" "an_TaskID tx_a2 = ''task-1''" "an_ParticipantID tx_a2 = ''alice''"
  "an_Revision tx_a2 = 2" "an_Status tx_a2 = AssignmentAccepted" "an_UpdatedAt tx_a2 = tx_time 20"
  "an_AuthorityDigest tx_a2 = hex_encode (sha256 ''scope-1'')" "kr_EventID (an_LastTransition tx_a2) = ''event-2''"
  by (simp_all add: tx_a2_def advance_fields record_fields tx_a1_fields tx_accept_def)

lemma tx_a1_valid: "validate_assignment tx_a1"
  using offered_valid [of tx_definition tx_offer_auth _ _ _ _ "''owner''" "[]"] tx_may_offer
  by (auto simp: may_offer_def tx_a1_def)

lemma tx_may_accept: "may_advance tx_a1 tx_accept AssignmentAccepted"
  using tx_a1_valid
  by (simp add: may_advance_def tx_a1_fields validate_task_event_def validate_operation_def allowed_transition_def
      assurance_ok_def tx_accept_def tx_auth_def) (simp add: tx_time_def time_defs)

lemma tx_a2_valid: "validate_assignment tx_a2"
  unfolding tx_a2_def by (rule advance_valid [OF tx_may_accept])

lemma tx_may_fulfill: "may_advance tx_a2 tx_fulfill AssignmentFulfilled"
  using tx_a2_valid
  by (simp add: may_advance_def tx_a2_fields validate_task_event_def validate_operation_def allowed_transition_def
      assurance_ok_def tx_fulfill_def tx_auth_def) (simp add: tx_time_def time_defs)

lemma tx_apply_accept:
  "apply_task_event tx_a1 tx_accept = Inr \<lparr>tt_Assignment = tx_a2, tt_Record = an_LastTransition tx_a2\<rparr>"
  unfolding apply_task_event_Inr tx_a2_def using tx_may_accept by blast

lemma tx_apply_fulfill:
  "apply_task_event tx_a2 tx_fulfill = Inr \<lparr>tt_Assignment = tx_a3, tt_Record = an_LastTransition tx_a3\<rparr>"
  unfolding apply_task_event_Inr tx_a3_def using tx_may_fulfill by blast

lemma tx_delegation:
  "delegate tx_parse tx_a2 (tx_participant ''alice'') (tx_participant ''bob'') tx_child tx_delegate tx_verdict = Inr tx_d"
proof -
  have "delegation_checks tx_parse tx_a2 (tx_participant ''alice'') (tx_participant ''bob'') tx_child tx_delegate
      tx_verdict = Inr ()"
    using tx_active tx_a2_valid
    by (simp add: delegation_checks_def tx_a2_fields tx_participant_def validate_definition_def valid_role_def
        validate_task_event_def validate_operation_def validate_verified_delegation_def assurance_ok_def tx_inputs)
  then show ?thesis
    by (simp add: delegate_Inr tx_d_def tx_a2_fields)
qed

section \<open>The history\<close>

definition tx_hash :: "assignment \<Rightarrow> bytes" where
  "tx_hash a = sha256 (the (tx_marshal a))"

definition tx_s0 :: memory_store where
  "tx_s0 = new_memory_store\<lparr>ms_participants :=
     [''alice'' \<mapsto> tx_participant ''alice'', ''bob'' \<mapsto> tx_participant ''bob'']\<rparr>"

definition tx_s1 :: memory_store where
  "tx_s1 = put_commit tx_s0 tx_a1 (tx_hash tx_a1) (an_LastTransition tx_a1)"

definition tx_s2 :: memory_store where
  "tx_s2 = put_commit tx_s1 tx_a2 (tx_hash tx_a2) (an_LastTransition tx_a2)"

definition tx_s3 :: memory_store where
  "tx_s3 = put_delegation tx_s2 tx_d (tx_hash (dt_Parent tx_d)) (tx_hash (dt_Child tx_d))"

definition tx_s4 :: memory_store where
  "tx_s4 = put_interaction tx_s3 tx_question"

definition tx_start_ops :: "store_op list" where
  "tx_start_ops = [RegisterParticipant (tx_participant ''alice''), RegisterParticipant (tx_participant ''bob''),
     CommitAssignment 0 tx_a1 (an_LastTransition tx_a1)]"

definition tx_rest_ops :: "store_op list" where
  "tx_rest_ops = [CommitAssignment 1 tx_a2 (an_LastTransition tx_a2), CommitDelegation 2 tx_d, AppendInteraction tx_question]"

lemma tx_marshal_Some: "tx_marshal a = Some (the (tx_marshal a))"
  by (simp add: tx_marshal_def)

lemma tx_d_ids:
  "kr_EventID (dt_ParentRecord tx_d) = ''event-3''" "kr_EventID (dt_ChildRecord tx_d) = ''event-4''"
  "an_AssignmentID (dt_Parent tx_d) = ''assign-1''" "an_AssignmentID (dt_Child tx_d) = ''assign-2''"
  "dr_EventID (dt_Delegation tx_d) = ''event-3''" "an_TaskID (dt_Parent tx_d) = ''task-1''"
  by (simp_all add: tx_d_def delegation_result_def Let_def delegated_parent_def record_fields offered_assignment_def
      initial_offer_record_def delegation_edge_def tx_delegate_def tx_child_def tx_a2_fields)

lemma tx_commit_offer: "commit_assignment tx_marshal tx_s0 0 tx_a1 (an_LastTransition tx_a1) = Inr tx_s1"
  using commit_offered [OF tx_offer, of tx_s0 tx_marshal, OF _ _ tx_marshal_Some]
  by (simp add: tx_s1_def tx_hash_def unused_def) (simp add: tx_s0_def new_memory_store_def)

lemma tx_commit_accept: "commit_assignment tx_marshal tx_s1 1 tx_a2 (an_LastTransition tx_a2) = Inr tx_s2"
  using commit_applied [OF tx_apply_accept, of tx_s1 tx_marshal, OF _ _ tx_marshal_Some]
  by (simp add: tx_s2_def tx_hash_def unused_def tx_a1_fields)
    (simp add: tx_s1_def tx_s0_def new_memory_store_def tx_a1_fields tx_accept_def)

lemma tx_commit_delegation: "commit_delegation tx_marshal tx_s2 2 tx_d = Inr tx_s3"
  using commit_delegated [OF tx_delegation, of tx_s2 tx_marshal, OF _ _ _ _ _ tx_marshal_Some tx_marshal_Some]
  by (simp add: tx_s3_def tx_hash_def unused_def tx_a2_fields)
    (simp add: tx_s2_def tx_s1_def tx_s0_def new_memory_store_def tx_a1_fields tx_a2_fields tx_delegate_def tx_child_def)

lemma tx_question_valid: "validate_interaction_event tx_parse tx_question"
  by (simp add: validate_interaction_event_def validate_interaction_content_def tx_question_def
      is_direct_contact_reference_def tx_parse_def assurance_ok_def is_zero_def tx_time_def)

lemma tx_question_fields:
  "ie_EventID tx_question = ''event-9''" "ie_AssignmentID tx_question = ''assign-1''"
  "ie_TaskID tx_question = ''task-1''" "ie_ParticipantID tx_question = ''alice''"
  "ie_Kind tx_question = InteractionQuestion" "ie_InReplyTo tx_question = []"
  by (simp_all add: tx_question_def)

lemma tx_s3_fields:
  "ms_interactionEvents tx_s3 = Map.empty" "ms_interactionOrder tx_s3 = Map.empty" "ms_events tx_s3 ''event-9'' = None"
  "ms_assignments tx_s3 ''assign-1'' = Some (dt_Parent tx_d)"
  "ms_participants tx_s3 ''alice'' = Some (tx_participant ''alice'')"
  by (simp_all add: tx_s3_def tx_s2_def tx_s1_def tx_s0_def new_memory_store_def tx_d_ids tx_a1_fields tx_a2_fields)

lemma tx_append: "append_interaction_event tx_parse tx_s3 tx_question = Inr tx_s4"
proof -
  have "pt_Status (tx_participant ''alice'') = ParticipantActive" by (simp add: tx_participant_def)
  then show ?thesis
    by (simp add: append_interaction_event_def tx_question_valid tx_question_fields tx_s3_fields tx_d_ids
        validate_interaction_relations_def interaction_log_def tx_s4_def)
qed

lemma tx_start: "run (store_step tx_parse tx_marshal) new_memory_store tx_start_ops tx_s1"
proof -
  have "register_participant tx_parse new_memory_store (tx_participant ''alice'') =
      Inr (new_memory_store\<lparr>ms_participants := [''alice'' \<mapsto> tx_participant ''alice'']\<rparr>)"
    "register_participant tx_parse (new_memory_store\<lparr>ms_participants := [''alice'' \<mapsto> tx_participant ''alice'']\<rparr>)
      (tx_participant ''bob'') = Inr tx_s0"
    using tx_active
    by (simp_all add: register_participant_def require_active_participant_def new_memory_store_def tx_s0_def
        tx_participant_def split: if_splits)
  with tx_commit_offer show ?thesis
    by (auto simp: tx_start_ops_def store_step_def)
qed

lemma tx_rest: "run (store_step tx_parse tx_marshal) tx_s1 tx_rest_ops tx_s4"
  using tx_commit_accept tx_commit_delegation tx_append by (auto simp: tx_rest_ops_def store_step_def)

lemma tx_run: "run (store_step tx_parse tx_marshal) new_memory_store (tx_start_ops @ tx_rest_ops) tx_s4"
  using tx_start tx_rest by auto

end
