(* ===== verification/Task_Properties.thy ===== *)
theory Task_Properties
  imports Task_Example
begin

text \<open>
  The properties of Task coordination: what the store promises over any sequence of operations, how
  it composes with the Assignment state machine, and when that machine succeeds.
\<close>

section \<open>Shared facts\<close>

lemma allowed_not_terminal: "allowed_transition st k st' \<Longrightarrow> \<not> assignment_terminal st"
  using allowed_transition_shape(5) by (auto simp: assignment_terminal_def)

text \<open>A step leaves an Assignment alone or replaces it by a later revision of an open one.\<close>

lemma store_step_assignment:
  assumes "store_step pu m s op s'" and "ms_assignments s i = Some a"
  obtains (same) "ms_assignments s' i = Some a"
  | (moved) n where "ms_assignments s' i = Some n" "\<not> assignment_terminal (an_Status a)"
      "unat (an_Revision n) = unat (an_Revision a) + 1"
proof (cases op)
  case (RegisterParticipant p)
  then have "register_participant pu s p = Inr s'" using assms by (simp add: store_step_def)
  then show thesis using assms(2) same by (cases rule: register_participant_cases) auto
next
  case (CommitAssignment ex n r)
  then have "commit_assignment m s ex n r = Inr s'" using assms by (simp add: store_step_def)
  then show thesis
  proof (cases rule: commit_assignment_cases)
    case (create h)
    then have "i \<noteq> an_AssignmentID n" using assms(2) by auto
    with create assms(2) same show thesis by simp
  next
    case (move h cur)
    note st = valid_move_status [OF move(8)]
    show thesis
      using same moved [of n] assms(2) move st allowed_not_terminal [OF st(1)]
      by (cases "i = an_AssignmentID n") auto
  qed (use assms(2) same in auto)
next
  case (CommitDelegation ex t)
  then have "commit_delegation m s ex t = Inr s'" using assms by (simp add: store_step_def)
  then show thesis
  proof (cases rule: commit_delegation_cases)
    case (fresh ph ch cur)
    note st = valid_move_status [OF fresh(10)]
    show thesis
      using same moved [of "dt_Parent t"] assms(2) fresh(8,11,13) st allowed_not_terminal [OF st(1)]
      by (cases "i = an_AssignmentID (dt_Parent t)"; cases "i = an_AssignmentID (dt_Child t)") auto
  qed (use assms(2) same in auto)
next
  case (AppendInteraction e)
  then have "append_interaction_event pu s e = Inr s'" using assms by (simp add: store_step_def)
  then show thesis using assms(2) same by (cases rule: append_interaction_cases) auto
qed

interpretation ended: preserved "store_step pu m"
  "\<lambda>s. ms_assignments s i = Some a \<and> assignment_terminal (an_Status a)" for pu m i a
  by unfold_locales (metis store_step_assignment option.inject)

interpretation at_least: preserved "store_step pu m"
  "\<lambda>s. \<exists>a. ms_assignments s i = Some a \<and> k \<le> unat (an_Revision a)" for pu m i k
proof unfold_locales
  fix s op s'
  assume "\<exists>a. ms_assignments s i = Some a \<and> k \<le> unat (an_Revision a)" and step: "store_step pu m s op s'"
  then obtain a where a: "ms_assignments s i = Some a" "k \<le> unat (an_Revision a)" by blast
  show "\<exists>a. ms_assignments s' i = Some a \<and> k \<le> unat (an_Revision a)"
    by (rule store_step_assignment [OF step a(1)]) (use a in auto)
qed

lemma commit_sets_revision:
  assumes "commit_assignment m s ex n r = Inr s'" and "ms_events s (kr_EventID r) = None"
  shows "ms_assignments s' (an_AssignmentID n) = Some n" and "unat (an_Revision n) = unat ex + 1"
proof -
  have "ms_assignments s' (an_AssignmentID n) = Some n \<and> an_Revision n = ex + 1 \<and> an_Revision n \<noteq> 0"
    using assms(1)
  proof (cases rule: commit_assignment_cases)
    case retry
    then show ?thesis using assms(2) by simp
  next
    case create
    then show ?thesis by simp
  next
    case (move h cur)
    then show ?thesis
      using validate_assignment_revision(1) [of n] by (auto simp: valid_move_def)
  qed
  then show "ms_assignments s' (an_AssignmentID n) = Some n" "unat (an_Revision n) = unat ex + 1"
    by (auto simp: unat_succ)
qed

text \<open>An event with which an assignee ends an open Assignment: declining an offer, fulfilling the rest.\<close>

definition closing_event :: "assignment \<Rightarrow> task_event" where
  "closing_event cur =
     (let k = (if an_Status cur = AssignmentOffered then OperationDecline else OperationFulfill);
          at = an_UpdatedAt cur in
      \<lparr>te_ID = ''closing'', te_Kind = k, te_ExpectedRevision = an_Revision cur, te_At = at, te_Detail = [],
       te_EvidenceRef = [], te_Auth =
         \<lparr>ta_ActorID = ''actor'', ta_ParticipantID = an_ParticipantID cur, ta_AuthorizationID = ''grant'',
          ta_ProofID = ''proof'', ta_Operation = k, ta_TaskID = an_TaskID cur, ta_AssignmentID = an_AssignmentID cur,
          ta_TargetTaskID = [], ta_TargetAssignmentID = [], ta_TargetParticipantID = [], ta_VerifierNonce = ''nonce'',
          ta_IssuedAt = at, ta_ExpiresAt = tx_time (instant at + (if instant at = - 1 then 2 else 1)),
          ta_Assurance = None\<rparr>\<rparr>)"

lemma closing_ids [simp]:
  "task_validate_id ''closing''" "task_validate_id ''actor''" "task_validate_id ''grant''" "task_validate_id ''proof''"
  "task_validate_id ''nonce''"
  by (rule task_validate_id_printable; simp add: printable_def in_range_def byte_def task_max_id_bytes_def)+

lemma closing_may_advance:
  assumes "validate_assignment cur" and "\<not> assignment_terminal (an_Status cur)" and "an_Revision cur + 1 \<noteq> 0"
  obtains st where "may_advance cur (closing_event cur) st" and "assignment_terminal st"
proof -
  let ?e = "closing_event cur"
  let ?st = "if an_Status cur = AssignmentOffered then AssignmentDeclined else AssignmentFulfilled"
  have "an_Status cur = AssignmentOffered \<or> an_Status cur = AssignmentAccepted"
    using assms(1,2) by (cases "an_Status cur")
      (auto simp: validate_assignment_def assignment_fields_ok_def assignment_terminal_def)
  then have al: "allowed_transition (an_Status cur) (te_Kind ?e) ?st"
    by (auto simp: closing_event_def Let_def allowed_transition_def)
  have nz: "instant (an_UpdatedAt cur) \<noteq> 0"
    using validate_assignmentD(2) [OF assms(1)] by (simp add: assignment_times_ok_def is_zero_def)
  have "validate_operation (te_Auth ?e) (te_Kind ?e) (an_TaskID cur) (an_AssignmentID cur) (te_At ?e)"
    using nz validate_assignmentD(4-6) [OF assms(1)]
    by (simp add: validate_operation_def closing_event_def Let_def tx_time_def time_defs assurance_ok_def)
  moreover have "validate_task_event ?e"
    using nz by (simp add: validate_task_event_def closing_event_def Let_def is_zero_def)
  ultimately have "may_advance cur ?e ?st"
    using al assms by (simp add: may_advance_def) (simp add: closing_event_def Let_def)
  then show thesis by (rule that) (simp add: assignment_terminal_def)
qed

section \<open>Properties\<close>

text \<open>C5. Any sequence of successful operations of the in-process store is, seen through each
  Assignment's status and revision, a history of the ledger: Assignments appear offered at revision
  one and then move one revision at a time along the allowed transitions; a delegation moves its
  parent and creates its child in one step; repeats change nothing.\<close>

theorem store_refines_ledger:
  assumes "run (store_step pu m) s ops s'"
  shows "run ledger_step (ledger_of s) (map op_event ops) (ledger_of s')"
  by (rule store_ledger.run_simulated [OF assms]) simp

theorem store_refines_ledger_witness:
  "run (store_step tx_parse tx_marshal) new_memory_store (tx_start_ops @ tx_rest_ops) tx_s4 \<and>
   run ledger_step (ledger_of new_memory_store) (map op_event (tx_start_ops @ tx_rest_ops)) (ledger_of tx_s4)"
  using store_refines_ledger [OF tx_run] tx_run by blast

text \<open>C23. In every store reached from an empty one, the committed events of an Assignment are exactly
  one for each of its revisions, each starts in the status where the one before ended, and the last
  is the Assignment's recorded last transition.\<close>

theorem store_trail:
  assumes "run (store_step pu m) new_memory_store ops s"
  shows "trail (ms_assignments s) (ms_events s)"
  using store_audit.run_keeps [OF assms audited_new] by (simp add: audited_def)

theorem store_trail_witness: "trail (ms_assignments tx_s4) (ms_events tx_s4)"
  by (rule store_trail [OF tx_run])

text \<open>C35. An operation that succeeded once succeeds again, without changing anything, in every state
  the store reaches later: all retries are idempotent.\<close>

theorem store_retry:
  assumes "store_apply pu m s op = Inr s'" and "run (store_step pu m) s' ops s''"
  shows "store_apply pu m s'' op = Inr s''"
  by (rule store_apply_again [OF assms(1) run_extends [OF assms(2)]])

theorem store_retry_witness:
  "store_apply tx_parse tx_marshal tx_s0 (CommitAssignment 0 tx_a1 (an_LastTransition tx_a1)) = Inr tx_s1 \<and>
   run (store_step tx_parse tx_marshal) tx_s1 tx_rest_ops tx_s4 \<and>
   store_apply tx_parse tx_marshal tx_s4 (CommitAssignment 0 tx_a1 (an_LastTransition tx_a1)) = Inr tx_s4"
proof -
  have start: "store_apply tx_parse tx_marshal tx_s0 (CommitAssignment 0 tx_a1 (an_LastTransition tx_a1)) = Inr tx_s1"
    using tx_commit_offer by simp
  with store_retry [OF start tx_rest] tx_rest show ?thesis by blast
qed

text \<open>C24. No update is lost: once a new event has been committed against a revision, no later commit
  with another unused event succeeds against the same revision of that Assignment.\<close>

theorem no_lost_update:
  assumes "commit_assignment m s ex n r = Inr s'" and "ms_events s (kr_EventID r) = None"
    and "run (store_step pu m) s' ops s''" and "an_AssignmentID n' = an_AssignmentID n"
    and "ms_events s'' (kr_EventID r') = None"
  shows "\<forall>t. commit_assignment m s'' ex n' r' \<noteq> Inr t"
proof (intro allI notI)
  fix t assume "commit_assignment m s'' ex n' r' = Inr t"
  moreover obtain a where "ms_assignments s'' (an_AssignmentID n') = Some a" "unat ex + 1 \<le> unat (an_Revision a)"
    using at_least.run_keeps [OF assms(3), of "an_AssignmentID n" "unat ex + 1"]
      commit_sets_revision [OF assms(1,2)] assms(4) by auto
  ultimately show False
    using assms(5) by (cases rule: commit_assignment_cases) auto
qed

theorem no_lost_update_witness:
  "commit_assignment tx_marshal tx_s1 1 tx_a2 (an_LastTransition tx_a2) = Inr tx_s2 \<and>
   (\<forall>t. commit_assignment tx_marshal tx_s2 1 tx_a2 ((an_LastTransition tx_a2)\<lparr>kr_EventID := ''event-8''\<rparr>) \<noteq> Inr t)"
proof -
  have "ms_events tx_s1 (kr_EventID (an_LastTransition tx_a2)) = None"
    "ms_events tx_s2 (kr_EventID ((an_LastTransition tx_a2)\<lparr>kr_EventID := ''event-8''\<rparr>)) = None"
    by (simp_all add: tx_s2_def tx_s1_def tx_s0_def new_memory_store_def tx_a1_fields tx_a2_fields)
  from no_lost_update [OF tx_commit_accept this(1) run_Nil refl this(2)] tx_commit_accept show ?thesis
    by blast
qed

text \<open>A declined, released, revoked or fulfilled Assignment is never changed again.\<close>

theorem terminal_assignment_final:
  assumes "ms_assignments s i = Some a" and "assignment_terminal (an_Status a)"
    and "run (store_step pu m) s ops s'"
  shows "ms_assignments s' i = Some a"
  using ended.run_keeps [OF assms(3), of i a] assms(1,2) by blast

theorem terminal_assignment_final_witness:
  "assignment_terminal (an_Status tx_a3) \<and>
   (\<exists>s. commit_assignment tx_marshal tx_s2 2 tx_a3 (an_LastTransition tx_a3) = Inr s \<and>
     (\<exists>s'. run (store_step tx_parse tx_marshal) s [RegisterParticipant (tx_participant ''alice'')] s' \<and>
       ms_assignments s' ''assign-1'' = Some tx_a3))"
proof -
  define s where "s = put_commit tx_s2 tx_a3 (tx_hash tx_a3) (an_LastTransition tx_a3)"
  have i: "an_AssignmentID tx_a3 = ''assign-1''" and t: "assignment_terminal (an_Status tx_a3)"
    by (simp_all add: tx_a3_def advance_fields tx_a2_fields assignment_terminal_def)
  have c: "commit_assignment tx_marshal tx_s2 2 tx_a3 (an_LastTransition tx_a3) = Inr s"
    using commit_applied [OF tx_apply_fulfill, of tx_s2 tx_marshal, OF _ _ tx_marshal_Some]
    by (simp add: s_def tx_hash_def unused_def tx_a2_fields)
      (simp add: tx_s2_def tx_s1_def tx_s0_def new_memory_store_def tx_a1_fields tx_a2_fields tx_fulfill_def)
  have r: "run (store_step tx_parse tx_marshal) s [RegisterParticipant (tx_participant ''alice'')] s"
    using tx_active(1)
    by (simp add: store_step_def register_participant_def require_active_participant_def s_def tx_s2_def tx_s1_def
        tx_s0_def tx_participant_def split: if_splits)
  have "ms_assignments s ''assign-1'' = Some tx_a3" using i by (simp add: s_def)
  from terminal_assignment_final [OF this t r] c r t show ?thesis by blast
qed


text \<open>C34. The store and the state machine compose: a transition that \<^verbatim>\<open>Apply\<close> computed from the stored
  snapshot commits, and the new snapshot is what is loaded next, unless its event identifier is
  already used or the encoder fails.\<close>

theorem applied_transition_commits:
  assumes "apply_task_event cur e = Inr t" and "load_assignment s (an_AssignmentID cur) = Inr cur"
    and "unused s (te_ID e)" and "m (tt_Assignment t) \<noteq> None"
  shows "\<exists>s'. commit_assignment m s (an_Revision cur) (tt_Assignment t) (tt_Record t) = Inr s' \<and>
    load_assignment s' (an_AssignmentID cur) = Inr (tt_Assignment t)"
proof -
  obtain raw where raw: "m (tt_Assignment t) = Some raw" using assms(4) by blast
  have cur: "ms_assignments s (an_AssignmentID cur) = Some cur"
    using assms(2) by (simp add: load_assignment_def split: option.splits)
  have "an_AssignmentID (tt_Assignment t) = an_AssignmentID cur"
    using assms(1) by (auto simp: apply_task_event_Inr advance_fields)
  then show ?thesis
    using commit_applied [where m = m, OF assms(1) cur assms(3) raw] by (simp add: load_assignment_def)
qed

theorem applied_transition_commits_witness:
  "apply_task_event tx_a1 tx_accept = Inr \<lparr>tt_Assignment = tx_a2, tt_Record = an_LastTransition tx_a2\<rparr> \<and>
   (\<exists>s'. commit_assignment tx_marshal tx_s1 1 tx_a2 (an_LastTransition tx_a2) = Inr s' \<and>
     load_assignment s' ''assign-1'' = Inr tx_a2)"
  using applied_transition_commits [OF tx_apply_accept, of tx_s1 tx_marshal] tx_apply_accept
  by (simp add: tx_marshal_def load_assignment_def unused_def tx_a1_fields)
    (simp add: tx_s1_def tx_s0_def new_memory_store_def tx_a1_fields tx_accept_def)

text \<open>C40. A delegation that \<^verbatim>\<open>Delegate\<close> computed from the stored parent commits in a consistent store: the
  parent, the child and the provenance edge appear together.\<close>

theorem delegation_commits:
  assumes "delegate pu parent delegator target child e ver = Inr t" and "store_ok pu s"
    and "ms_assignments s (an_AssignmentID parent) = Some parent" and "ms_assignments s (ad_AssignmentID child) = None"
    and "unused s (te_ID e)" and "unused s (ad_EventID child)"
    and "m (dt_Parent t) \<noteq> None" and "m (dt_Child t) \<noteq> None"
  shows "\<exists>s'. commit_delegation m s (an_Revision parent) t = Inr s' \<and>
    load_assignment s' (an_AssignmentID parent) = Inr (dt_Parent t) \<and>
    load_assignment s' (ad_AssignmentID child) = Inr (dt_Child t) \<and>
    load_delegation s' (te_ID e) = Inr (dt_Delegation t)"
proof -
  obtain praw craw where raw: "m (dt_Parent t) = Some praw" "m (dt_Child t) = Some craw" using assms(7,8) by blast
  have "ms_delegations s (te_ID e) = None"
    using assms(2,5) by (cases "ms_delegations s (te_ID e)")
      (fastforce simp: store_ok_def audited_def delegations_ok_def edge_backed_def unused_def)+
  note commit = commit_delegated [where m = m, OF assms(1,3-6) this raw]
  have ids: "an_AssignmentID (dt_Parent t) = an_AssignmentID parent" "an_AssignmentID (dt_Child t) = ad_AssignmentID child"
      "dr_EventID (dt_Delegation t) = te_ID e"
    using assms(1) by (simp_all add: delegate_Inr delegation_result_def Let_def delegated_parent_def
        offered_assignment_def delegation_edge_def)
  have "an_AssignmentID parent \<noteq> ad_AssignmentID child" using assms(3,4) by auto
  then show ?thesis
    by (simp add: commit ids load_assignment_def load_delegation_def)
qed

lemma tx_s2_ok: "store_ok tx_parse tx_s2"
  using store_invariant.run_keeps [OF tx_start store_ok_new] tx_commit_accept
    store_invariant.step_keeps [of tx_parse tx_s1 tx_marshal "CommitAssignment 1 tx_a2 (an_LastTransition tx_a2)" tx_s2]
  by (simp add: store_step_def)

theorem delegation_commits_witness:
  "store_ok tx_parse tx_s2 \<and> (\<exists>s'. commit_delegation tx_marshal tx_s2 2 tx_d = Inr s' \<and>
     load_assignment s' ''assign-2'' = Inr (dt_Child tx_d) \<and> load_delegation s' ''event-3'' = Inr (dt_Delegation tx_d))"
proof -
  have "unused tx_s2 (te_ID tx_delegate)" "unused tx_s2 (ad_EventID tx_child)"
      "ms_assignments tx_s2 (an_AssignmentID tx_a2) = Some tx_a2" "ms_assignments tx_s2 (ad_AssignmentID tx_child) = None"
    by (simp_all add: unused_def tx_s2_def tx_s1_def tx_s0_def new_memory_store_def tx_a1_fields tx_a2_fields
        tx_delegate_def tx_child_def)
  from delegation_commits [where m = tx_marshal, OF tx_delegation tx_s2_ok this(3,4,1,2)] tx_s2_ok show ?thesis
    by (auto simp: tx_marshal_def tx_a2_fields tx_delegate_def tx_child_def)
qed

text \<open>A delegation grants exactly what the verifier decided: the delegator is the active parent
  assignee with the right to delegate, the child is a fresh offer to the verified target under the
  verified authority digest, and of the parent only revision, time and last transition change.\<close>

theorem delegate_bound_to_verdict:
  assumes "delegate pu parent delegator target child e ver = Inr t"
  shows "pt_MayDelegate delegator \<and> pt_Status delegator = ParticipantActive \<and>
    pt_ParticipantID delegator = an_ParticipantID parent \<and> ta_ParticipantID (te_Auth e) = an_ParticipantID parent \<and>
    an_Status parent = AssignmentAccepted \<and> an_AuthorityDigest parent = vd_ParentAuthorityDigest ver \<and>
    an_AuthorityDigest (dt_Child t) = vd_ChildAuthorityDigest ver \<and>
    an_ParticipantID (dt_Child t) = vd_ToParticipantID ver \<and> pt_ParticipantID target = vd_ToParticipantID ver \<and>
    an_ParticipantID (dt_Child t) \<noteq> an_ParticipantID parent \<and> an_Status (dt_Child t) = AssignmentOffered \<and>
    an_ParentAssignmentID (dt_Child t) = an_AssignmentID parent \<and>
    dt_Parent t = parent\<lparr>an_Revision := an_Revision parent + 1, an_UpdatedAt := te_At e,
      an_LastTransition := dt_ParentRecord t\<rparr>"
proof -
  have chk: "delegation_checks pu parent delegator target child e ver = Inr ()" and t: "t = delegation_result parent child e ver"
    using assms by (simp_all add: delegate_Inr)
  note c = delegation_checks_Inr [OF chk]
  have act: "pt_Status delegator = ParticipantActive" "pt_ParticipantID delegator = an_ParticipantID parent"
      "pt_ParticipantID target = ad_ParticipantID child"
    using c(4,5) by (auto simp: require_active_participant_def split: if_splits)
  have "ad_ParticipantID child \<noteq> an_ParticipantID parent"
    using c(16,19,20) by (auto simp: validate_verified_delegation_def)
  then show ?thesis
    using act c by (simp add: t delegation_result_def Let_def offered_assignment_def delegated_parent_def)
qed

theorem delegate_bound_to_verdict_witness:
  "delegate tx_parse tx_a2 (tx_participant ''alice'') (tx_participant ''bob'') tx_child tx_delegate tx_verdict = Inr tx_d \<and>
   an_AuthorityDigest (dt_Child tx_d) = vd_ChildAuthorityDigest tx_verdict \<and> an_Status (dt_Child tx_d) = AssignmentOffered"
  using delegate_bound_to_verdict [OF tx_delegation] tx_delegation by blast

text \<open>\<^verbatim>\<open>Apply\<close> succeeds exactly when the snapshot and the event are valid, the expected revision is the
  current one, time does not go back, the operation is authorized for this Task and Assignment, the
  transition is allowed, an assignee's operation comes from the assignee, and the revision counter
  is not exhausted: the validation of the computed snapshot never fails otherwise.\<close>

theorem apply_task_event_iff:
  "(\<exists>t. apply_task_event cur e = Inr t) \<longleftrightarrow> (\<exists>st. may_advance cur e st)"
  by (auto simp: apply_task_event_Inr)

text \<open>The assignee of an open Assignment can always end it: some event authorized for the assignee
  takes every valid snapshot below the last revision to a terminal status.\<close>

theorem assignment_can_end:
  assumes "validate_assignment cur" and "\<not> assignment_terminal (an_Status cur)" and "an_Revision cur + 1 \<noteq> 0"
  shows "\<exists>e t. apply_task_event cur e = Inr t \<and> ta_ParticipantID (te_Auth e) = an_ParticipantID cur \<and>
    assignment_terminal (an_Status (tt_Assignment t))"
proof -
  obtain st where st: "may_advance cur (closing_event cur) st" "assignment_terminal st"
    by (rule closing_may_advance [OF assms])
  have "ta_ParticipantID (te_Auth (closing_event cur)) = an_ParticipantID cur"
    by (simp add: closing_event_def Let_def)
  with st show ?thesis
    by (intro exI [of _ "closing_event cur"]) (auto simp: apply_task_event_Inr advance_fields)
qed

theorem assignment_can_end_witness:
  "validate_assignment tx_a2 \<and> (\<exists>e t. apply_task_event tx_a2 e = Inr t \<and>
     ta_ParticipantID (te_Auth e) = ''alice'' \<and> assignment_terminal (an_Status (tt_Assignment t)))"
  using assignment_can_end [OF tx_a2_valid] tx_a2_valid by (simp add: tx_a2_fields assignment_terminal_def)


text \<open>Delegation is atomic and attributed: in every store reached from an empty one a provenance
  edge exists for an event exactly when that event is a committed delegation; the edge names the
  Assignment and participant of the event, and its child is stored.\<close>

theorem delegations_attributed:
  assumes "run (store_step pu m) new_memory_store ops s"
  shows "delegations_ok s"
  using store_audit.run_keeps [OF assms audited_new] by (simp add: audited_def)

theorem delegations_attributed_witness:
  "ms_delegations tx_s4 ''event-3'' \<noteq> None \<and> delegations_ok tx_s4"
  using delegations_attributed [OF tx_run] by (simp add: tx_s4_def tx_s3_def tx_d_ids)

text \<open>Every interaction log of a store reached from an empty one is a thread: no event appears
  twice, the first is the only root question, each later event answers an earlier event of the same
  interaction, Task and Assignment, and a correction or withdrawal replaces an earlier answer of the
  same participant to the same question.\<close>

theorem interactions_threaded:
  assumes "run (store_step pu m) new_memory_store ops s"
  shows "interactions_ok pu s"
  using store_invariant.run_keeps [OF assms store_ok_new] by (simp add: store_ok_def)

theorem interactions_threaded_witness:
  "interaction_log tx_s4 ''talk-1'' = [''event-9''] \<and> interactions_ok tx_parse tx_s4"
  using interactions_threaded [OF tx_run]
  by (simp add: tx_s4_def) (simp add: interaction_log_def tx_s3_fields tx_question_def)

text \<open>C36. The two copies of the interaction checks agree: for a new, valid event of a stored Assignment
  and active participant, the in-process store appends it exactly when the exported contract for
  durable stores accepts it and a root question opens a new log.\<close>

theorem interaction_checks_agree:
  assumes "store_ok pu s" and "validate_interaction_event pu e" and "unused s (ie_EventID e)"
    and "ms_assignments s (ie_AssignmentID e) = Some a" and "an_TaskID a = ie_TaskID e"
    and "ms_participants s (ie_ParticipantID e) = Some p" and "pt_Status p = ParticipantActive"
  shows "(\<exists>s'. append_interaction_event pu s e = Inr s') \<longleftrightarrow>
    validate_interaction_append pu e a p (ms_interactionEvents s (ie_InReplyTo e))
      (ms_interactionEvents s (ie_Supersedes e)) = Inr () \<and>
    (root_question e \<longrightarrow> interaction_log s (ie_InteractionID e) = [])"
proof -
  have "(\<exists>s'. append_interaction_event pu s e = Inr s') \<longleftrightarrow> validate_interaction_relations s e = Inr ()"
    using assms(2-7) by (auto simp: append_interaction_event_def unused_def and_then_Inr_iff)
  then show ?thesis
    using relations_agree [OF assms(1,2,4,6,5,7)] by simp
qed

lemma tx_s3_ok: "store_ok tx_parse tx_s3"
  using tx_s2_ok tx_commit_delegation
    store_invariant.step_keeps [of tx_parse tx_s2 tx_marshal "CommitDelegation 2 tx_d" tx_s3]
  by (simp add: store_step_def)

theorem interaction_checks_agree_witness:
  "append_interaction_event tx_parse tx_s3 tx_question = Inr tx_s4 \<and>
   validate_interaction_append tx_parse tx_question (dt_Parent tx_d) (tx_participant ''alice'') None None = Inr ()"
proof -
  have "unused tx_s3 (ie_EventID tx_question)" "ms_assignments tx_s3 (ie_AssignmentID tx_question) = Some (dt_Parent tx_d)"
      "an_TaskID (dt_Parent tx_d) = ie_TaskID tx_question"
      "ms_participants tx_s3 (ie_ParticipantID tx_question) = Some (tx_participant ''alice'')"
      "pt_Status (tx_participant ''alice'') = ParticipantActive"
    by (simp_all add: unused_def tx_question_fields tx_s3_fields tx_d_ids tx_participant_def)
  from interaction_checks_agree [OF tx_s3_ok tx_question_valid this] tx_append show ?thesis
    by (simp add: tx_s3_fields)
qed

text \<open>A committed change of an Assignment is the one its record determines: the stored snapshot
  encodes to the same bytes as the predecessor advanced by the record, or two different encodings
  with one SHA-256 digest have been found; and an assignee's operation is recorded for the assignee.\<close>

theorem committed_snapshot_determined:
  assumes "commit_assignment m s ex n r = Inr s'" and "ms_events s (kr_EventID r) = None"
    and "ms_assignments s (an_AssignmentID n) = Some cur"
  shows "\<exists>x y. m (expected_assignment cur r) = Some x \<and> m n = Some y \<and> (x = y \<or> sha256_collision x y) \<and>
    (operation_requires_assignee (kr_Kind r) \<longrightarrow> kr_ParticipantID r = an_ParticipantID cur)"
  using assms(1)
proof (cases rule: commit_assignment_cases)
  case (move h cur')
  then have "valid_move m cur n r" using assms(3) by simp
  then show ?thesis
    by (auto simp: valid_move_def assignment_hash_Inr sha256_collision_def)
qed (use assms in auto)

theorem committed_snapshot_determined_witness:
  "commit_assignment tx_marshal tx_s1 1 tx_a2 (an_LastTransition tx_a2) = Inr tx_s2 \<and>
   (\<exists>x y. tx_marshal (expected_assignment tx_a1 (an_LastTransition tx_a2)) = Some x \<and> tx_marshal tx_a2 = Some y \<and>
     (x = y \<or> sha256_collision x y))"
proof -
  have "ms_events tx_s1 (kr_EventID (an_LastTransition tx_a2)) = None"
      "ms_assignments tx_s1 (an_AssignmentID tx_a2) = Some tx_a1"
    by (simp_all add: tx_s1_def tx_s0_def new_memory_store_def tx_a1_fields tx_a2_fields)
  from committed_snapshot_determined [OF tx_commit_accept this] tx_commit_accept show ?thesis by blast
qed

text \<open>\<^verbatim>\<open>CommitAssignment\<close> does not require delegated Assignments to come from a delegation: an empty
  store accepts an initial offer that names a parent, although no such parent and no provenance edge
  exist.\<close>

theorem orphan_offer_accepted:
  "\<exists>n s'. an_ParentAssignmentID n \<noteq> [] \<and>
     commit_assignment tx_marshal new_memory_store 0 n (an_LastTransition n) = Inr s' \<and>
     ms_assignments s' (an_AssignmentID n) = Some n \<and> ms_assignments s' (an_ParentAssignmentID n) = None \<and>
     ms_delegations s' = Map.empty"
proof -
  let ?a = "tx_auth ''owner'' OperationOffer ''task-2'' ''assign-2''"
  let ?n = "offered_assignment tx_child ''owner'' ''assign-1'' (initial_offer_record tx_child ?a)"
  have "validate_definition tx_child" "validate_operation ?a OperationOffer ''task-2'' ''assign-2'' (tx_time 30)"
    by (simp_all add: validate_definition_def validate_operation_def valid_role_def assurance_ok_def tx_inputs)
  then have n: "validate_assignment ?n"
    by (rule offered_valid) (simp_all add: tx_child_def)
  have f: "an_LastTransition ?n = initial_offer_record tx_child ?a" "an_Revision ?n = 1" "an_AssignmentID ?n = ''assign-2''"
      "an_ParentAssignmentID ?n = ''assign-1''"
    by (simp_all add: offered_assignment_def tx_child_def)
  have hash: "assignment_hash tx_marshal ?n = Inr (tx_hash ?n)"
    by (simp add: assignment_hash_def tx_hash_def tx_marshal_def)
  have "commit_assignment tx_marshal new_memory_store 0 ?n (an_LastTransition ?n) =
      Inr (put_commit new_memory_store ?n (tx_hash ?n) (an_LastTransition ?n))"
    using n validate_assignment_record [OF n]
    by (simp add: commit_assignment_def validate_assignment_commit_def hash f) (simp add: new_memory_store_def f)
  then show ?thesis
    by (intro exI [of _ ?n] exI [of _ "put_commit new_memory_store ?n (tx_hash ?n) (an_LastTransition ?n)"])
      (simp add: f new_memory_store_def)
qed

end
