(* ===== verification/Task_Dependency.thy ===== *)
theory Task_Dependency
  imports Task_Validation "HOL-Library.List_Lexorder" "HOL-Library.Char_ord"
begin

text \<open>
  Package \<^verbatim>\<open>pkg/taskcoord\<close>, \<^verbatim>\<open>dependency.go\<close>: detection of deadlocked Tasks in a wait-for graph. The
  detector removes candidates until every one left is blocked by the others. The order in which Go
  visits a map is the argument \<open>enum\<close>, which may differ from pass to pass; an entry deleted before
  it is reached is not visited. The result is compared with an inductive definition of the Tasks
  that can make progress.
\<close>

section \<open>The detector\<close>

record task_liveness =
  tl_TaskID :: string
  tl_Terminal :: bool
  tl_Runnable :: bool
  tl_ExternalEscape :: bool

record dependency_group =
  dg_mode :: dependency_mode
  dg_quorum :: uint32
  dg_edges :: "dependency list"

text \<open>
  The errors of \<^verbatim>\<open>DetectDeadlockedTasks\<close>. The last stands for both checks of a finished group: which
  of several bad groups is reported depends on the order of a map.
\<close>

datatype dependency_error =
    InvalidTask | DuplicateTask | InvalidDependency | DuplicateDependency | InconsistentGroup | InvalidGroup

type_synonym group_map = "(string \<times> dependency_group) list"
type_synonym group_index = "(string \<times> group_map) list"

fun index_tasks :: "task_liveness list \<Rightarrow> (string \<times> task_liveness) list \<Rightarrow>
    dependency_error + (string \<times> task_liveness) list" where
  "index_tasks [] m = Inr m"
| "index_tasks (t # ts) m =
     (if \<not> task_validate_id (tl_TaskID t) then Inl InvalidTask
      else if map_of m (tl_TaskID t) \<noteq> None then Inl DuplicateTask
      else index_tasks ts ((tl_TaskID t, t) # m))"

fun alist_put :: "'k \<Rightarrow> 'v \<Rightarrow> ('k \<times> 'v) list \<Rightarrow> ('k \<times> 'v) list" where
  "alist_put k v [] = [(k, v)]"
| "alist_put k v ((k', v') # m) = (if k' = k then (k, v) # m else (k', v') # alist_put k v m)"

definition lookup_groups :: "group_index \<Rightarrow> string \<Rightarrow> group_map" where
  "lookup_groups gs t = (case map_of gs t of None \<Rightarrow> [] | Some m \<Rightarrow> m)"

definition add_edge :: "dependency \<Rightarrow> group_index \<Rightarrow> dependency_error + group_index" where
  "add_edge d gs =
     (let by_group = lookup_groups gs (dp_FromTaskID d) in
      case map_of by_group (dp_GroupID d) of
        None \<Rightarrow>
          Inr (alist_put (dp_FromTaskID d) (alist_put (dp_GroupID d)
            \<lparr>dg_mode = dp_Mode d, dg_quorum = dp_Quorum d, dg_edges = [d]\<rparr> by_group) gs)
      | Some g \<Rightarrow>
          if dg_mode g \<noteq> dp_Mode d \<or> dg_quorum g \<noteq> dp_Quorum d then Inl InconsistentGroup
          else Inr (alist_put (dp_FromTaskID d) (alist_put (dp_GroupID d)
            (g\<lparr>dg_edges := dg_edges g @ [d]\<rparr>) by_group) gs))"

fun group_dependencies ::
    "dependency list \<Rightarrow> string list \<Rightarrow> group_index \<Rightarrow> dependency_error + group_index" where
  "group_dependencies [] seen gs = Inr gs"
| "group_dependencies (d # ds) seen gs =
     (if \<not> validate_dependency d then Inl InvalidDependency
      else if dp_DependencyID d \<in> set seen then Inl DuplicateDependency
      else if \<not> dp_Active d then group_dependencies ds (dp_DependencyID d # seen) gs
      else and_then (add_edge d gs) (\<lambda>gs'. group_dependencies ds (dp_DependencyID d # seen) gs'))"

definition group_ok :: "dependency_group \<Rightarrow> bool" where
  "group_ok g \<longleftrightarrow> distinct (map dp_ToTaskID (dg_edges g)) \<and>
     \<not> (dg_mode g = DependencyQuorum \<and> dg_quorum g > of_nat (length (dg_edges g)))"

definition groups_ok :: "group_index \<Rightarrow> bool" where
  "groups_ok gs \<longleftrightarrow> list_all (\<lambda>(t, m). list_all (\<lambda>(i, g). group_ok g) m) gs"

fun count_edges :: "string list \<Rightarrow> dependency list \<Rightarrow> uint32 \<times> uint32 \<times> uint32 \<Rightarrow> uint32 \<times> uint32 \<times> uint32" where
  "count_edges c [] n = n"
| "count_edges c (e # es) (sat, inside, outside) =
     (if dp_Satisfied e then count_edges c es (sat + 1, inside, outside)
      else if dp_ToTaskID e \<in> set c then count_edges c es (sat, inside + 1, outside)
      else count_edges c es (sat, inside, outside + 1))"

definition group_blocked_by_set :: "dependency_group \<Rightarrow> string list \<Rightarrow> bool" where
  "group_blocked_by_set g c =
     (case count_edges c (dg_edges g) (0, 0, 0) of (sat, inside, outside) \<Rightarrow>
        (case dg_mode g of
           DependencyAll \<Rightarrow> inside > 0
         | DependencyAny \<Rightarrow> sat = 0 \<and> inside > 0 \<and> outside = 0
         | DependencyQuorum \<Rightarrow>
             if sat \<ge> dg_quorum g then False else inside > 0 \<and> sat + outside < dg_quorum g
         | DependencyModeOther s \<Rightarrow> False))"

definition task_blocked_by_set :: "group_map \<Rightarrow> string list \<Rightarrow> bool" where
  "task_blocked_by_set m c = list_ex (\<lambda>(i, g). group_blocked_by_set g c) m"

text \<open>One pass over the candidates in the order given, and whether it removed any.\<close>

fun sweep :: "group_index \<Rightarrow> string list \<Rightarrow> string list \<Rightarrow> bool \<Rightarrow> string list \<times> bool" where
  "sweep gs [] c changed = (c, changed)"
| "sweep gs (t # ts) c changed =
     (if t \<in> set c \<and> \<not> task_blocked_by_set (lookup_groups gs t) c
      then sweep gs ts (removeAll t c) True else sweep gs ts c changed)"

lemma sweep_shrinks:
  "sweep gs ts c changed = (c', True) \<Longrightarrow> changed = False \<Longrightarrow> length c' < length c"
  "sweep gs ts c changed = (c', b) \<Longrightarrow> length c' \<le> length c"
proof (induction ts arbitrary: c changed b)
  case (Cons t ts)
  {
    case 1
    show ?case
    proof (cases "t \<in> set c \<and> \<not> task_blocked_by_set (lookup_groups gs t) c")
      case True
      then have "length (removeAll t c) < length c"
        by (simp add: length_removeAll_less)
      moreover have "length c' \<le> length (removeAll t c)"
        using 1 True Cons.IH(2) [of "removeAll t c" True True] by simp
      ultimately show ?thesis by simp
    qed (use 1 Cons.IH(1) in auto)
  next
    case 2
    then show ?case
      using Cons.IH(2) [of "removeAll t c" True b] Cons.IH(2) [of c changed b]
      by (auto split: if_splits intro: le_trans [OF _ length_removeAll_less_eq])
  }
qed simp_all

function eliminate :: "(nat \<Rightarrow> string list \<Rightarrow> string list) \<Rightarrow> nat \<Rightarrow> group_index \<Rightarrow> string list \<Rightarrow> string list" where
  "eliminate enum n gs c =
     (case sweep gs (enum n c) c False of
        (c', changed) \<Rightarrow> if changed then eliminate enum (n + 1) gs c' else c')"
  by pat_completeness auto
termination
  by (relation "measure (\<lambda>(enum, n, gs, c). length c)") (auto intro: sweep_shrinks(1) [OF sym refl])

definition initial_candidates :: "(string \<times> task_liveness) list \<Rightarrow> string list" where
  "initial_candidates m =
     map fst (filter (\<lambda>(i, t). \<not> tl_Terminal t \<and> \<not> tl_Runnable t \<and> \<not> tl_ExternalEscape t) m)"

definition detect_deadlocked_tasks ::
    "(nat \<Rightarrow> string list \<Rightarrow> string list) \<Rightarrow> task_liveness list \<Rightarrow> dependency list \<Rightarrow>
     dependency_error + string list" where
  "detect_deadlocked_tasks enum tasks deps =
     and_then (index_tasks tasks []) (\<lambda>by_id.
     and_then (group_dependencies deps [] []) (\<lambda>gs.
       if \<not> groups_ok gs then Inl InvalidGroup
       else Inr (sort (eliminate enum 0 gs (initial_candidates by_id)))))"

section \<open>What it means to be able to progress\<close>

definition edges_of :: "dependency list \<Rightarrow> string \<Rightarrow> string \<Rightarrow> dependency list" where
  "edges_of deps t i = filter (\<lambda>d. dp_Active d \<and> dp_FromTaskID d = t \<and> dp_GroupID d = i) deps"

definition group_open :: "dependency list \<Rightarrow> (string \<Rightarrow> bool) \<Rightarrow> bool" where
  "group_open es P =
     (let ready = filter (\<lambda>e. dp_Satisfied e \<or> P (dp_ToTaskID e)) es in
      case dp_Mode (hd es) of
        DependencyAll \<Rightarrow> ready = es
      | DependencyAny \<Rightarrow> ready \<noteq> []
      | DependencyQuorum \<Rightarrow> unat (dp_Quorum (hd es)) \<le> length ready
      | DependencyModeOther s \<Rightarrow> True)"

definition stuck_alone :: "task_liveness list \<Rightarrow> string \<Rightarrow> bool" where
  "stuck_alone tasks t \<longleftrightarrow>
     (\<exists>l\<in>set tasks. tl_TaskID l = t \<and> \<not> tl_Terminal l \<and> \<not> tl_Runnable l \<and> \<not> tl_ExternalEscape l)"

lemma filter_mono_length:
  assumes "\<And>x. P x \<Longrightarrow> Q x"
  shows "length (filter P xs) \<le> length (filter Q xs)"
  using assms by (induction xs) (auto simp: le_SucI)

lemma group_open_mono [mono]:
  assumes "P \<le> Q"
  shows "group_open es P \<longrightarrow> group_open es Q"
proof -
  have sub: "P x \<Longrightarrow> Q x" for x
    using assms by auto
  have "length (filter (\<lambda>e. dp_Satisfied e \<or> P (dp_ToTaskID e)) es) \<le>
      length (filter (\<lambda>e. dp_Satisfied e \<or> Q (dp_ToTaskID e)) es)"
    by (rule filter_mono_length) (use sub in blast)
  then show ?thesis
    using sub
    by (auto simp: group_open_def Let_def filter_empty_conv filter_id_conv split: dependency_mode.splits)
qed

text \<open>
  A Task can progress when it is not stuck by itself (it runs, it ended, it has an outside escape,
  or it is unknown here), or when each of its active groups is satisfied by edges that are
  satisfied or lead to Tasks that can progress.
\<close>

inductive can_progress :: "task_liveness list \<Rightarrow> dependency list \<Rightarrow> string \<Rightarrow> bool"
  for tasks :: "task_liveness list" and deps :: "dependency list" where
  alive: "\<not> stuck_alone tasks t \<Longrightarrow> can_progress tasks deps t"
| released: "(\<And>i. edges_of deps t i \<noteq> [] \<Longrightarrow> group_open (edges_of deps t i) (can_progress tasks deps)) \<Longrightarrow>
    can_progress tasks deps t"

section \<open>Grouping\<close>

definition group_of :: "dependency list \<Rightarrow> dependency_group" where
  "group_of es = \<lparr>dg_mode = dp_Mode (hd es), dg_quorum = dp_Quorum (hd es), dg_edges = es\<rparr>"

definition uniform :: "dependency list \<Rightarrow> bool" where
  "uniform es \<longleftrightarrow> list_all (\<lambda>e. dp_Mode e = dp_Mode (hd es) \<and> dp_Quorum e = dp_Quorum (hd es)) es"

definition consistent :: "dependency list \<Rightarrow> bool" where
  "consistent deps \<longleftrightarrow> (\<forall>t i. uniform (edges_of deps t i))"

text \<open>The index built from a prefix of the edges holds exactly its groups.\<close>

definition indexes :: "dependency list \<Rightarrow> group_index \<Rightarrow> bool" where
  "indexes deps gs \<longleftrightarrow> distinct (map fst gs) \<and> (\<forall>t. distinct (map fst (lookup_groups gs t))) \<and>
     (\<forall>t i. map_of (lookup_groups gs t) i =
       (if edges_of deps t i = [] then None else Some (group_of (edges_of deps t i)))) \<and> consistent deps"

lemma map_of_alist_put [simp]: "map_of (alist_put k v m) = (map_of m)(k \<mapsto> v)"
  by (induction m) auto

lemma keys_alist_put [simp]: "fst ` set (alist_put k v m) = insert k (fst ` set m)"
  by (simp add: dom_map_of_conv_image_fst [symmetric])

lemma distinct_alist_put [simp]: "distinct (map fst m) \<Longrightarrow> distinct (map fst (alist_put k v m))"
proof (induction m)
  case (Cons a m)
  then show ?case
    using keys_alist_put [of k v m] by (cases a) (auto simp: image_iff)
qed simp

lemma lookup_alist_put [simp]:
  "lookup_groups (alist_put t m gs) t' = (if t' = t then m else lookup_groups gs t')"
  by (simp add: lookup_groups_def)

lemma edges_of_snoc:
  "edges_of (ps @ [d]) t i =
     edges_of ps t i @ (if dp_Active d \<and> dp_FromTaskID d = t \<and> dp_GroupID d = i then [d] else [])"
  by (simp add: edges_of_def)

lemma uniform_Nil [simp]: "uniform []"
  by (simp add: uniform_def)

lemma indexes_empty: "indexes [] []"
  by (simp add: indexes_def lookup_groups_def edges_of_def consistent_def)

lemma uniform_prefix: "uniform (es @ fs) \<Longrightarrow> uniform es"
  by (cases es) (simp_all add: uniform_def)

lemma uniform_snoc:
  "uniform es \<Longrightarrow> uniform (es @ [d]) \<longleftrightarrow> es = [] \<or> dp_Mode (hd es) = dp_Mode d \<and> dp_Quorum (hd es) = dp_Quorum d"
  by (cases es) (auto simp: uniform_def)

lemma consistent_prefix: "consistent (ps @ qs) \<Longrightarrow> consistent ps"
  by (auto simp: consistent_def edges_of_def dest: uniform_prefix)

lemma consistent_snoc:
  assumes "consistent ps"
  shows "consistent (ps @ [d]) \<longleftrightarrow> \<not> dp_Active d \<or> edges_of ps (dp_FromTaskID d) (dp_GroupID d) = [] \<or>
    dp_Mode (hd (edges_of ps (dp_FromTaskID d) (dp_GroupID d))) = dp_Mode d \<and>
    dp_Quorum (hd (edges_of ps (dp_FromTaskID d) (dp_GroupID d))) = dp_Quorum d"
proof -
  have u: "uniform (edges_of ps t i)" for t i
    using assms by (simp add: consistent_def)
  have "consistent (ps @ [d]) \<longleftrightarrow>
      (dp_Active d \<longrightarrow> uniform (edges_of ps (dp_FromTaskID d) (dp_GroupID d) @ [d]))"
    by (auto simp: consistent_def edges_of_snoc u)
  then show ?thesis
    by (auto simp: uniform_snoc [OF u])
qed

lemma indexes_inactive: "indexes ps gs \<Longrightarrow> \<not> dp_Active d \<Longrightarrow> indexes (ps @ [d]) gs"
  by (simp add: indexes_def consistent_def edges_of_snoc)

lemma add_edge_indexes:
  assumes "indexes ps gs" and "dp_Active d"
  shows "if consistent (ps @ [d]) then \<exists>gs'. add_edge d gs = Inr gs' \<and> indexes (ps @ [d]) gs'
    else add_edge d gs = Inl InconsistentGroup"
proof -
  let ?es = "edges_of ps (dp_FromTaskID d) (dp_GroupID d)"
  have look: "map_of (lookup_groups gs (dp_FromTaskID d)) (dp_GroupID d) =
      (if ?es = [] then None else Some (group_of ?es))" and cons: "consistent ps"
    using assms(1) by (auto simp: indexes_def)
  show ?thesis
  proof (cases "consistent (ps @ [d])")
    case True
    with assms cons look show ?thesis
      by (auto simp: consistent_snoc add_edge_def Let_def group_of_def indexes_def edges_of_snoc hd_append)
  next
    case False
    with assms(2) cons look show ?thesis
      by (auto simp: consistent_snoc add_edge_def Let_def group_of_def)
  qed
qed

definition dependencies_ok :: "dependency list \<Rightarrow> bool" where
  "dependencies_ok deps \<longleftrightarrow> list_all validate_dependency deps \<and> distinct (map dp_DependencyID deps) \<and> consistent deps"

lemma group_dependencies_run:
  assumes "indexes ps gs" and "set seen = dp_DependencyID ` set ps"
  shows "if list_all validate_dependency ds \<and> distinct (map dp_DependencyID ds) \<and>
      set seen \<inter> dp_DependencyID ` set ds = {} \<and> consistent (ps @ ds)
    then \<exists>gs'. group_dependencies ds seen gs = Inr gs' \<and> indexes (ps @ ds) gs'
    else \<exists>e. group_dependencies ds seen gs = Inl e"
  using assms
proof (induction ds arbitrary: ps seen gs)
  case Nil
  then show ?case by (simp add: indexes_def)
next
  case (Cons d ds)
  show ?case
  proof (cases "validate_dependency d \<and> dp_DependencyID d \<notin> set seen")
    case False
    then show ?thesis by auto
  next
    case True
    have seen': "set (dp_DependencyID d # seen) = dp_DependencyID ` set (ps @ [d])"
      using Cons.prems(2) by auto
    have app: "ps @ d # ds = (ps @ [d]) @ ds" by simp
    show ?thesis
    proof (cases "dp_Active d")
      case False
      from Cons.IH [OF indexes_inactive [OF Cons.prems(1) False] seen'] True False show ?thesis
        by (auto split: if_splits)
    next
      case act: True
      show ?thesis
      proof (cases "consistent (ps @ [d])")
        case con: True
        with add_edge_indexes [OF Cons.prems(1) act] obtain gs' where gs':
            "add_edge d gs = Inr gs'" "indexes (ps @ [d]) gs'"
          by auto
        from Cons.IH [OF gs'(2) seen'] True act gs'(1) show ?thesis
          by (auto split: if_splits)
      next
        case con: False
        then have "\<not> consistent (ps @ d # ds)"
          using consistent_prefix [of "ps @ [d]" ds] by auto
        with con add_edge_indexes [OF Cons.prems(1) act] True act show ?thesis
          by auto
      qed
    qed
  qed
qed

lemma group_dependencies_Inr:
  "(\<exists>gs. group_dependencies deps [] [] = Inr gs) \<longleftrightarrow> dependencies_ok deps"
  "group_dependencies deps [] [] = Inr gs \<Longrightarrow> indexes deps gs"
  using group_dependencies_run [OF indexes_empty, of "[]" deps]
  by (auto simp: dependencies_ok_def split: if_splits)

section \<open>Blocking\<close>

lemma count_edges_eq:
  "count_edges c es (a, b, d) =
     (a + of_nat (length (filter dp_Satisfied es)),
      b + of_nat (length (filter (\<lambda>e. \<not> dp_Satisfied e \<and> dp_ToTaskID e \<in> set c) es)),
      d + of_nat (length (filter (\<lambda>e. \<not> dp_Satisfied e \<and> dp_ToTaskID e \<notin> set c) es)))"
  by (induction es arbitrary: a b d) (simp_all add: algebra_simps)

lemma length_ready:
  "length (filter (\<lambda>e. dp_Satisfied e \<or> dp_ToTaskID e \<notin> C) es) =
     length (filter dp_Satisfied es) + length (filter (\<lambda>e. \<not> dp_Satisfied e \<and> dp_ToTaskID e \<notin> C) es)"
  by (induction es) simp_all

lemma length_unready:
  "length (filter (\<lambda>e. dp_Satisfied e \<or> dp_ToTaskID e \<notin> C) es) +
     length (filter (\<lambda>e. \<not> dp_Satisfied e \<and> dp_ToTaskID e \<in> C) es) = length es"
  by (induction es) simp_all

lemma unat_of_small: "n < 2 ^ 32 \<Longrightarrow> unat (of_nat n :: uint32) = n"
  by (simp add: unat_of_nat)

text \<open>
  With fewer than \<open>2\<^sup>3\<^sup>2\<close> edges the counters do not wrap, and the three tests on them say that the
  edges outside the set cannot satisfy the group.
\<close>

lemma group_blocked_iff:
  assumes "es \<noteq> []" and "length es < 2 ^ 32" and "group_ok (group_of es)"
  shows "group_blocked_by_set (group_of es) c \<longleftrightarrow> \<not> group_open es (\<lambda>t. t \<notin> set c)"
proof -
  define ready where "ready = filter (\<lambda>e. dp_Satisfied e \<or> dp_ToTaskID e \<notin> set c) es"
  define sat where "sat = length (filter dp_Satisfied es)"
  define ins where "ins = length (filter (\<lambda>e. \<not> dp_Satisfied e \<and> dp_ToTaskID e \<in> set c) es)"
  define out where "out = length (filter (\<lambda>e. \<not> dp_Satisfied e \<and> dp_ToTaskID e \<notin> set c) es)"
  have ready: "length ready = sat + out" and total: "sat + out + ins = length es"
    using length_ready [of "set c" es] length_unready [of "set c" es]
    by (simp_all add: ready_def sat_def ins_def out_def)
  have pos: "0 < length es" using assms(1) by simp
  have small: "sat < 2 ^ 32" "ins < 2 ^ 32" "out < 2 ^ 32" "sat + out < 2 ^ 32"
    using total assms(2) by linarith+
  have count: "count_edges c es (0, 0, 0) = (of_nat sat, of_nat ins, of_nat out)"
    by (simp add: count_edges_eq sat_def ins_def out_def)
  have all: "ready = es \<longleftrightarrow> ins = 0"
    using ready total unfolding ready_def
    by (metis add.right_neutral add_left_cancel filter_id_conv length_filter_less less_irrefl)
  have none: "ready = [] \<longleftrightarrow> sat = 0 \<and> out = 0"
    using ready by (metis add_is_0 length_0_conv)
  have quorum: "unat (dp_Quorum (hd es)) \<le> length es" if "dp_Mode (hd es) = DependencyQuorum"
    using assms(3) that
    by (simp add: group_ok_def group_of_def word_less_nat_alt unat_of_small [OF assms(2)] not_less)
  have words: "(of_nat sat :: uint32) = 0 \<longleftrightarrow> sat = 0" "(0 :: uint32) < of_nat ins \<longleftrightarrow> 0 < ins"
      "(of_nat out :: uint32) = 0 \<longleftrightarrow> out = 0"
      "dp_Quorum (hd es) \<le> of_nat sat \<longleftrightarrow> unat (dp_Quorum (hd es)) \<le> sat"
      "(of_nat sat + of_nat out :: uint32) < dp_Quorum (hd es) \<longleftrightarrow> sat + out < unat (dp_Quorum (hd es))"
    using small by (simp_all add: unat_eq_zero [symmetric] word_less_nat_alt word_le_nat_alt unat_of_small
        of_nat_add [symmetric] del: of_nat_add unat_eq_zero)
  show ?thesis
  proof (cases "dp_Mode (hd es)")
    case DependencyAll
    then show ?thesis
      using all by (simp add: group_blocked_by_set_def group_open_def group_of_def count words ready_def [symmetric])
  next
    case DependencyAny
    then show ?thesis
      using none total pos
      by (auto simp add: group_blocked_by_set_def group_open_def group_of_def count words ready_def [symmetric])
  next
    case DependencyQuorum
    then show ?thesis
      using ready total quorum
      by (auto simp add: group_blocked_by_set_def group_open_def group_of_def count words ready_def [symmetric])
  qed (simp add: group_blocked_by_set_def group_open_def group_of_def count)
qed

definition unsatisfiable :: "dependency list \<Rightarrow> string list \<Rightarrow> string \<Rightarrow> bool" where
  "unsatisfiable deps c t \<longleftrightarrow>
     (\<exists>i. edges_of deps t i \<noteq> [] \<and> \<not> group_open (edges_of deps t i) (\<lambda>j. j \<notin> set c))"

definition sound_groups :: "dependency list \<Rightarrow> bool" where
  "sound_groups deps \<longleftrightarrow> (\<forall>t i. distinct (map dp_ToTaskID (edges_of deps t i)) \<and>
     (edges_of deps t i \<noteq> [] \<longrightarrow> dp_Mode (hd (edges_of deps t i)) = DependencyQuorum \<longrightarrow>
       dp_Quorum (hd (edges_of deps t i)) \<le> of_nat (length (edges_of deps t i))))"

lemma sound_groups_iff:
  "sound_groups deps \<longleftrightarrow> (\<forall>t i. edges_of deps t i \<noteq> [] \<longrightarrow> group_ok (group_of (edges_of deps t i)))"
proof -
  have "distinct (map dp_ToTaskID es)" if "es \<noteq> [] \<Longrightarrow> group_ok (group_of es)" for es
    using that by (cases es) (simp_all add: group_ok_def group_of_def)
  then show ?thesis unfolding sound_groups_def by (auto simp: group_ok_def group_of_def not_less)
qed

lemma indexes_member:
  assumes "indexes deps gs"
  shows "(i, g) \<in> set (lookup_groups gs t) \<longleftrightarrow> edges_of deps t i \<noteq> [] \<and> g = group_of (edges_of deps t i)"
proof -
  have dist: "distinct (map fst (lookup_groups gs t))" and look: "map_of (lookup_groups gs t) i =
      (if edges_of deps t i = [] then None else Some (group_of (edges_of deps t i)))"
    using assms unfolding indexes_def by blast+
  show ?thesis
    unfolding map_of_eq_Some_iff [OF dist, symmetric] look by auto
qed

lemma lookup_groups_entry:
  "x \<in> set (lookup_groups gs t) \<Longrightarrow> \<exists>m. (t, m) \<in> set gs \<and> x \<in> set m"
  by (cases "map_of gs t") (auto simp: lookup_groups_def dest: map_of_SomeD)

lemma groups_ok_iff:
  assumes "indexes deps gs"
  shows "groups_ok gs \<longleftrightarrow> sound_groups deps"
proof -
  have "groups_ok gs \<longleftrightarrow> (\<forall>t i g. (i, g) \<in> set (lookup_groups gs t) \<longrightarrow> group_ok g)"
  proof
    show "\<forall>t i g. (i, g) \<in> set (lookup_groups gs t) \<longrightarrow> group_ok g" if "groups_ok gs"
      using that by (fastforce simp: groups_ok_def list_all_iff dest: lookup_groups_entry)
    show "groups_ok gs" if all: "\<forall>t i g. (i, g) \<in> set (lookup_groups gs t) \<longrightarrow> group_ok g"
    proof -
      have "lookup_groups gs t = m" if "(t, m) \<in> set gs" for t m
        using that assms by (simp add: indexes_def lookup_groups_def)
      with all show ?thesis
        by (fastforce simp: groups_ok_def list_all_iff)
    qed
  qed
  then show ?thesis
    by (auto simp: indexes_member [OF assms] sound_groups_iff)
qed

lemma length_edges_of: "length (edges_of deps t i) \<le> length deps"
  by (simp add: edges_of_def)

lemma task_blocked_iff:
  assumes "indexes deps gs" and "sound_groups deps" and "length deps < 2 ^ 32"
  shows "task_blocked_by_set (lookup_groups gs t) c \<longleftrightarrow> unsatisfiable deps c t"
proof -
  have "group_blocked_by_set (group_of (edges_of deps t i)) c \<longleftrightarrow>
      \<not> group_open (edges_of deps t i) (\<lambda>j. j \<notin> set c)" if "edges_of deps t i \<noteq> []" for i
    using that assms(2,3) length_edges_of [of deps t i]
    by (intro group_blocked_iff) (auto simp: sound_groups_iff)
  moreover have "task_blocked_by_set (lookup_groups gs t) c \<longleftrightarrow>
      (\<exists>i g. (i, g) \<in> set (lookup_groups gs t) \<and> group_blocked_by_set g c)"
    by (auto simp: task_blocked_by_set_def list_ex_iff)
  ultimately show ?thesis
    by (auto simp: unsatisfiable_def indexes_member [OF assms(1)])
qed

section \<open>Elimination\<close>

lemma sweep_keeps:
  assumes "sweep gs ts c b = (c', b')" and "I c"
    and "\<And>t c. t \<in> set c \<Longrightarrow> \<not> task_blocked_by_set (lookup_groups gs t) c \<Longrightarrow> I c \<Longrightarrow> I (removeAll t c)"
  shows "I c'"
  using assms(1,2)
proof (induction ts arbitrary: c b)
  case (Cons t ts)
  then show ?case
    using assms(3) [of t c] by (auto split: if_splits)
qed simp

lemma sweep_changed: "sweep gs ts c True = (c', b') \<Longrightarrow> b'"
  by (induction ts arbitrary: c) (auto split: if_splits)

lemma sweep_stable:
  "sweep gs ts c False = (c', False) \<Longrightarrow>
     c' = c \<and> (\<forall>t\<in>set ts \<inter> set c. task_blocked_by_set (lookup_groups gs t) c)"
  by (induction ts arbitrary: c) (auto split: if_splits dest: sweep_changed)

definition visits_all :: "(nat \<Rightarrow> string list \<Rightarrow> string list) \<Rightarrow> bool" where
  "visits_all enum \<longleftrightarrow> (\<forall>n c. set (enum n c) = set c)"

declare eliminate.simps [simp del]

lemma eliminate_keeps:
  assumes "I c"
    and "\<And>t c. t \<in> set c \<Longrightarrow> \<not> task_blocked_by_set (lookup_groups gs t) c \<Longrightarrow> I c \<Longrightarrow> I (removeAll t c)"
  shows "I (eliminate enum n gs c)"
  using assms
proof (induction enum n gs c rule: eliminate.induct)
  case (1 enum n gs c)
  obtain c' b where sw: "sweep gs (enum n c) c False = (c', b)" by fastforce
  have "I c'"
    using sw 1(2,3) by (rule sweep_keeps)
  then show ?case
    using 1(1) [OF sw [symmetric] _ _ 1(3)] sw by (subst eliminate.simps) auto
qed

lemma eliminate_stable:
  assumes "visits_all enum"
  shows "\<forall>t\<in>set (eliminate enum n gs c). task_blocked_by_set (lookup_groups gs t) (eliminate enum n gs c)"
  using assms
proof (induction enum n gs c rule: eliminate.induct)
  case (1 enum n gs c)
  obtain c' b where sw: "sweep gs (enum n c) c False = (c', b)" by fastforce
  show ?case
  proof (cases b)
    case True
    then show ?thesis
      using 1(1) [OF sw [symmetric] True 1(2)] sw by (subst (1 2) eliminate.simps) simp
  next
    case False
    then show ?thesis
      using sweep_stable [of gs "enum n c" c c'] sw 1(2)
      by (subst (1 2) eliminate.simps) (simp add: visits_all_def)
  qed
qed

section \<open>The indexed Tasks\<close>

lemma index_tasks_run:
  "if list_all (task_validate_id \<circ> tl_TaskID) ts \<and> distinct (map tl_TaskID ts) \<and> tl_TaskID ` set ts \<inter> fst ` set m = {}
   then index_tasks ts m = Inr (rev (map (\<lambda>t. (tl_TaskID t, t)) ts) @ m)
   else \<exists>e. index_tasks ts m = Inl e"
proof (induction ts arbitrary: m)
  case (Cons t ts)
  have "map_of m (tl_TaskID t) = None \<longleftrightarrow> tl_TaskID t \<notin> fst ` set m"
    by (simp add: map_of_eq_None_iff)
  then show ?case
    using Cons.IH [of "(tl_TaskID t, t) # m"] by (auto split: if_splits)
qed simp

definition tasks_ok :: "task_liveness list \<Rightarrow> bool" where
  "tasks_ok ts \<longleftrightarrow> list_all (task_validate_id \<circ> tl_TaskID) ts \<and> distinct (map tl_TaskID ts)"

lemma index_tasks_Inr:
  "tasks_ok ts \<Longrightarrow> index_tasks ts [] = Inr (rev (map (\<lambda>t. (tl_TaskID t, t)) ts))"
  "(\<exists>m. index_tasks ts [] = Inr m) \<longleftrightarrow> tasks_ok ts"
  using index_tasks_run [of ts "[]"] by (auto simp: tasks_ok_def split: if_splits)

lemma initial_candidates_stuck:
  assumes "index_tasks ts [] = Inr m"
  shows "set (initial_candidates m) = {t. stuck_alone ts t}" and "distinct (initial_candidates m)"
proof -
  have ok: "tasks_ok ts" using assms index_tasks_Inr(2) by blast
  with assms index_tasks_Inr(1) [OF ok] have m: "m = rev (map (\<lambda>t. (tl_TaskID t, t)) ts)" by simp
  show "set (initial_candidates m) = {t. stuck_alone ts t}"
    by (auto simp: m initial_candidates_def stuck_alone_def image_iff)
  have "distinct (map fst m)"
    using ok by (simp add: m tasks_ok_def rev_map [symmetric] comp_def)
  then show "distinct (initial_candidates m)"
    by (simp add: initial_candidates_def distinct_map_filter)
qed

section \<open>Correctness of the detector\<close>

lemma eliminate_progress:
  assumes ix: "indexes deps gs" and ok: "sound_groups deps" and len: "length deps < 2 ^ 32"
    and vis: "visits_all enum" and init: "set c = {t. stuck_alone ts t}" and dist: "distinct c"
  shows "set (eliminate enum n gs c) = {t. \<not> can_progress ts deps t}" and "distinct (eliminate enum n gs c)"
proof -
  let ?r = "eliminate enum n gs c"
  note blocked = task_blocked_iff [OF ix ok len]
  have inv: "distinct ?r \<and> set ?r \<subseteq> set c \<and> (\<forall>t. t \<notin> set ?r \<longrightarrow> can_progress ts deps t)"
  proof (rule eliminate_keeps [where I = "\<lambda>r. distinct r \<and> set r \<subseteq> set c \<and> (\<forall>t. t \<notin> set r \<longrightarrow> can_progress ts deps t)"])
    show "distinct c \<and> set c \<subseteq> set c \<and> (\<forall>t. t \<notin> set c \<longrightarrow> can_progress ts deps t)"
      using dist init by (auto intro: can_progress.alive)
  next
    fix t r
    assume t: "\<not> task_blocked_by_set (lookup_groups gs t) r"
      and r: "distinct r \<and> set r \<subseteq> set c \<and> (\<forall>t. t \<notin> set r \<longrightarrow> can_progress ts deps t)"
    have "can_progress ts deps t"
    proof (rule can_progress.released)
      fix i assume "edges_of deps t i \<noteq> []"
      with t have "group_open (edges_of deps t i) (\<lambda>j. j \<notin> set r)"
        by (auto simp: blocked unsatisfiable_def)
      then show "group_open (edges_of deps t i) (can_progress ts deps)"
        using group_open_mono [of "\<lambda>j. j \<notin> set r" "can_progress ts deps"] r by (auto simp: le_fun_def)
    qed
    with r show "distinct (removeAll t r) \<and> set (removeAll t r) \<subseteq> set c \<and>
        (\<forall>t'. t' \<notin> set (removeAll t r) \<longrightarrow> can_progress ts deps t')"
      by (auto simp: distinct_removeAll)
  qed
  have "t \<notin> set ?r" if "can_progress ts deps t" for t
    using that
  proof induction
    case (alive t)
    then show ?case using inv init by auto
  next
    case (released t)
    have "group_open (edges_of deps t i) (\<lambda>j. j \<notin> set ?r)" if "edges_of deps t i \<noteq> []" for i
      using released.IH [OF that]
        group_open_mono [of "\<lambda>j. can_progress ts deps j \<and> j \<notin> set ?r" "\<lambda>j. j \<notin> set ?r"]
      by (auto simp: le_fun_def)
    then show ?case
      using eliminate_stable [OF vis, of n gs c] by (auto simp: blocked unsatisfiable_def)
  qed
  with inv show "set ?r = {t. \<not> can_progress ts deps t}" "distinct ?r"
    by auto
qed

lemma detect_Inr:
  assumes "length deps < 2 ^ 32" and "visits_all enum"
    and "detect_deadlocked_tasks enum tasks deps = Inr r"
  shows "sorted r" and "distinct r" and "set r = {t. \<not> can_progress tasks deps t}"
proof -
  from assms(3) obtain m gs where m: "index_tasks tasks [] = Inr m"
      and gs: "group_dependencies deps [] [] = Inr gs" "groups_ok gs"
      and r: "r = sort (eliminate enum 0 gs (initial_candidates m))"
    by (auto simp: detect_deadlocked_tasks_def and_then_Inr_iff split: if_splits)
  note ix = group_dependencies_Inr(2) [OF gs(1)]
  have "sound_groups deps" using gs(2) groups_ok_iff [OF ix] by simp
  note result = eliminate_progress [OF ix this assms(1,2) initial_candidates_stuck [OF m]]
  show "sorted r" "distinct r" "set r = {t. \<not> can_progress tasks deps t}"
    by (simp_all add: r result)
qed

lemma detect_accepts:
  "(\<exists>r. detect_deadlocked_tasks enum tasks deps = Inr r) \<longleftrightarrow>
     tasks_ok tasks \<and> dependencies_ok deps \<and> sound_groups deps"
proof -
  have "(\<exists>r. detect_deadlocked_tasks enum tasks deps = Inr r) \<longleftrightarrow>
      (\<exists>m. index_tasks tasks [] = Inr m) \<and> (\<exists>gs. group_dependencies deps [] [] = Inr gs \<and> groups_ok gs)"
    by (auto simp: detect_deadlocked_tasks_def and_then_Inr_iff)
  also have "\<dots> \<longleftrightarrow> tasks_ok tasks \<and> (\<exists>gs. group_dependencies deps [] [] = Inr gs \<and> sound_groups deps)"
    using groups_ok_iff [OF group_dependencies_Inr(2)] by (auto simp: index_tasks_Inr(2))
  finally show ?thesis
    using group_dependencies_Inr(1) [of deps] by auto
qed

text \<open>A set of Tasks that wait only for each other: each has a group its outside edges cannot satisfy.\<close>

definition mutually_waiting :: "task_liveness list \<Rightarrow> dependency list \<Rightarrow> string set \<Rightarrow> bool" where
  "mutually_waiting tasks deps S \<longleftrightarrow> (\<forall>t\<in>S. stuck_alone tasks t \<and>
     (\<exists>i. edges_of deps t i \<noteq> [] \<and> \<not> group_open (edges_of deps t i) (\<lambda>j. j \<notin> S)))"

lemma mutually_waiting_stuck:
  assumes "mutually_waiting tasks deps S" and "can_progress tasks deps t"
  shows "t \<notin> S"
  using assms(2)
proof induction
  case (alive t)
  then show ?case using assms(1) by (auto simp: mutually_waiting_def)
next
  case (released t)
  have "group_open (edges_of deps t i) (\<lambda>j. j \<notin> S)" if "edges_of deps t i \<noteq> []" for i
    using released.IH [OF that]
      group_open_mono [of "\<lambda>j. can_progress tasks deps j \<and> j \<notin> S" "\<lambda>j. j \<notin> S"]
    by (auto simp: le_fun_def)
  then show ?case
    using assms(1) by (auto simp: mutually_waiting_def)
qed

lemma stuck_mutually_waiting: "mutually_waiting tasks deps {t. \<not> can_progress tasks deps t}"
  unfolding mutually_waiting_def
proof (intro ballI conjI)
  fix t assume t: "t \<in> {t. \<not> can_progress tasks deps t}"
  then show "stuck_alone tasks t" by (auto intro: can_progress.alive)
  show "\<exists>i. edges_of deps t i \<noteq> [] \<and>
      \<not> group_open (edges_of deps t i) (\<lambda>j. j \<notin> {t. \<not> can_progress tasks deps t})"
    using t can_progress.released [of deps t tasks] by auto
qed

section \<open>An example graph\<close>

text \<open>Two Tasks that wait for each other, one that waits for either of them or for a running one.\<close>

definition dx_liveness :: "string \<Rightarrow> bool \<Rightarrow> task_liveness" where
  "dx_liveness i runs = \<lparr>tl_TaskID = i, tl_Terminal = False, tl_Runnable = runs, tl_ExternalEscape = False\<rparr>"

definition dx_wait :: "string \<Rightarrow> string \<Rightarrow> string \<Rightarrow> dependency_mode \<Rightarrow> dependency" where
  "dx_wait i t u mode =
     \<lparr>dp_Schema = DependencySchemaV1, dp_DependencyID = i, dp_FromTaskID = t, dp_ToTaskID = u,
      dp_GroupID = ''group-1'', dp_Mode = mode, dp_Quorum = 0, dp_Active = True, dp_Satisfied = False\<rparr>"

definition dx_tasks :: "task_liveness list" where
  "dx_tasks = [dx_liveness ''task-b'' False, dx_liveness ''task-a'' False, dx_liveness ''task-c'' False,
     dx_liveness ''task-d'' True]"

definition dx_waits :: "dependency list" where
  "dx_waits =
     [dx_wait ''wait-1'' ''task-a'' ''task-b'' DependencyAll, dx_wait ''wait-2'' ''task-b'' ''task-a'' DependencyAll,
      dx_wait ''wait-3'' ''task-c'' ''task-a'' DependencyAny, dx_wait ''wait-4'' ''task-c'' ''task-d'' DependencyAny]"

lemma dx_names:
  "task_validate_id ''task-a''" "task_validate_id ''task-b''" "task_validate_id ''task-c''"
  "task_validate_id ''task-d''" "task_validate_id ''wait-1''" "task_validate_id ''wait-2''"
  "task_validate_id ''wait-3''" "task_validate_id ''wait-4''" "task_validate_id ''group-1''"
  by (rule task_validate_id_printable;
      simp add: printable_def in_range_def byte_def task_max_id_bytes_def)+

definition dx_index :: group_index where
  "dx_index =
     [(''task-a'', [(''group-1'', group_of [dx_wait ''wait-1'' ''task-a'' ''task-b'' DependencyAll])]),
      (''task-b'', [(''group-1'', group_of [dx_wait ''wait-2'' ''task-b'' ''task-a'' DependencyAll])]),
      (''task-c'', [(''group-1'', group_of [dx_wait ''wait-3'' ''task-c'' ''task-a'' DependencyAny,
         dx_wait ''wait-4'' ''task-c'' ''task-d'' DependencyAny])])]"

lemma dx_index_built: "group_dependencies dx_waits [] [] = Inr dx_index" "groups_ok dx_index"
  by (simp_all add: dx_waits_def dx_index_def dx_wait_def validate_dependency_def dx_names add_edge_def
      lookup_groups_def group_of_def groups_ok_def group_ok_def)

lemma dx_blocked:
  "''task-a'' \<in> set c \<Longrightarrow> ''task-b'' \<in> set c \<Longrightarrow> task_blocked_by_set (lookup_groups dx_index ''task-a'') c"
  "''task-a'' \<in> set c \<Longrightarrow> ''task-b'' \<in> set c \<Longrightarrow> task_blocked_by_set (lookup_groups dx_index ''task-b'') c"
  "''task-d'' \<notin> set c \<Longrightarrow> \<not> task_blocked_by_set (lookup_groups dx_index ''task-c'') c"
  by (simp_all add: dx_index_def lookup_groups_def task_blocked_by_set_def group_blocked_by_set_def group_of_def
      dx_wait_def)

lemma dx_eliminate:
  "eliminate (\<lambda>n c. c) 0 dx_index [''task-c'', ''task-a'', ''task-b''] = [''task-a'', ''task-b'']"
  "eliminate (\<lambda>n. rev) 0 dx_index [''task-c'', ''task-a'', ''task-b''] = [''task-a'', ''task-b'']"
  by (subst eliminate.simps, simp add: dx_blocked, subst eliminate.simps, simp add: dx_blocked)+

lemma dx_detect:
  "detect_deadlocked_tasks (\<lambda>n c. c) dx_tasks dx_waits = Inr [''task-a'', ''task-b'']"
  "detect_deadlocked_tasks (\<lambda>n. rev) dx_tasks dx_waits = Inr [''task-a'', ''task-b'']"
  by (simp_all add: detect_deadlocked_tasks_def dx_index_built dx_tasks_def dx_liveness_def dx_names
      initial_candidates_def dx_eliminate)

lemma dx_visits: "visits_all (\<lambda>n c. c)" "visits_all (\<lambda>n. rev)"
  by (simp_all add: visits_all_def)

lemma dx_waits_few: "length dx_waits < 2 ^ 32"
  by (simp add: dx_waits_def)

section \<open>The accepted graphs\<close>

definition same_group :: "dependency \<Rightarrow> dependency \<Rightarrow> bool" where
  "same_group d e \<longleftrightarrow> dp_Active d \<and> dp_Active e \<and> dp_FromTaskID d = dp_FromTaskID e \<and> dp_GroupID d = dp_GroupID e"

lemma edges_of_same_group:
  "d \<in> set deps \<Longrightarrow> dp_Active d \<Longrightarrow> set (edges_of deps (dp_FromTaskID d) (dp_GroupID d)) = {e \<in> set deps. same_group d e}"
  by (auto simp: edges_of_def same_group_def)

lemma edges_of_member: "d \<in> set (edges_of deps t i) \<longleftrightarrow> d \<in> set deps \<and> dp_Active d \<and> dp_FromTaskID d = t \<and> dp_GroupID d = i"
  by (auto simp: edges_of_def)

lemma consistent_iff:
  "consistent deps \<longleftrightarrow>
     (\<forall>d\<in>set deps. \<forall>e\<in>set deps. same_group d e \<longrightarrow> dp_Mode d = dp_Mode e \<and> dp_Quorum d = dp_Quorum e)" (is "_ \<longleftrightarrow> ?r")
proof
  assume c: "consistent deps"
  show ?r
  proof (intro ballI impI)
    fix d e assume "d \<in> set deps" "e \<in> set deps" "same_group d e"
    then have "d \<in> set (edges_of deps (dp_FromTaskID d) (dp_GroupID d))" "e \<in> set (edges_of deps (dp_FromTaskID d) (dp_GroupID d))"
      by (auto simp: edges_of_member same_group_def)
    moreover have "uniform (edges_of deps (dp_FromTaskID d) (dp_GroupID d))" using c by (simp add: consistent_def)
    ultimately show "dp_Mode d = dp_Mode e \<and> dp_Quorum d = dp_Quorum e" unfolding uniform_def list_all_iff by metis
  qed
next
  assume r: ?r
  have "uniform (edges_of deps t i)" for t i
    unfolding uniform_def list_all_iff
  proof
    fix e assume "e \<in> set (edges_of deps t i)"
    moreover from this have "hd (edges_of deps t i) \<in> set (edges_of deps t i)" by (cases "edges_of deps t i") auto
    ultimately show "dp_Mode e = dp_Mode (hd (edges_of deps t i)) \<and> dp_Quorum e = dp_Quorum (hd (edges_of deps t i))"
      using r by (auto simp: edges_of_member same_group_def)
  qed
  then show "consistent deps" by (simp add: consistent_def)
qed

lemma distinct_edges_of: "distinct (map dp_DependencyID deps) \<Longrightarrow> distinct (edges_of deps t i)"
  unfolding edges_of_def by (intro distinct_filter) (simp add: distinct_map)

lemma distinct_targets_iff:
  assumes "distinct (map dp_DependencyID deps)"
  shows "(\<forall>t i. distinct (map dp_ToTaskID (edges_of deps t i))) \<longleftrightarrow>
    (\<forall>d\<in>set deps. \<forall>e\<in>set deps. same_group d e \<longrightarrow> dp_ToTaskID d = dp_ToTaskID e \<longrightarrow> d = e)"
  using distinct_edges_of [OF assms] by (auto simp: distinct_map inj_on_def edges_of_member same_group_def)

lemma quorums_iff:
  assumes "distinct (map dp_DependencyID deps)" and "consistent deps" and "length deps < 2 ^ 32"
  shows "(\<forall>t i. edges_of deps t i \<noteq> [] \<longrightarrow> dp_Mode (hd (edges_of deps t i)) = DependencyQuorum \<longrightarrow>
      dp_Quorum (hd (edges_of deps t i)) \<le> of_nat (length (edges_of deps t i))) \<longleftrightarrow>
    (\<forall>d\<in>set deps. dp_Active d \<longrightarrow> dp_Mode d = DependencyQuorum \<longrightarrow> unat (dp_Quorum d) \<le> card {e \<in> set deps. same_group d e})"
    (is "?l \<longleftrightarrow> ?r")
proof -
  have len: "of_nat (length (edges_of deps t i)) \<ge> q \<longleftrightarrow> unat q \<le> card (set (edges_of deps t i))" for t i and q :: uint32
    using length_edges_of [of deps t i] assms(3) distinct_card [OF distinct_edges_of [OF assms(1), of t i]]
    by (simp add: word_le_nat_alt unat_of_small)
  show ?thesis
  proof
    assume l: ?l
    show ?r
    proof (intro ballI impI)
      fix d assume d: "d \<in> set deps" "dp_Active d" "dp_Mode d = DependencyQuorum"
      let ?es = "edges_of deps (dp_FromTaskID d) (dp_GroupID d)"
      have m: "d \<in> set ?es" using d by (simp add: edges_of_member)
      then have ne: "?es \<noteq> []" by auto
      have "dp_Mode (hd ?es) = dp_Mode d \<and> dp_Quorum (hd ?es) = dp_Quorum d"
        using assms(2) m by (auto simp: consistent_def uniform_def list_all_iff)
      with l ne d(3) have "dp_Quorum d \<le> of_nat (length ?es)" by metis
      then show "unat (dp_Quorum d) \<le> card {e \<in> set deps. same_group d e}" unfolding len edges_of_same_group [OF d(1,2)] .
    qed
  next
    assume r: ?r
    show ?l
    proof (intro allI impI)
      fix t i assume ne: "edges_of deps t i \<noteq> []" and q: "dp_Mode (hd (edges_of deps t i)) = DependencyQuorum"
      let ?d = "hd (edges_of deps t i)"
      have d: "?d \<in> set deps" "dp_Active ?d" "dp_FromTaskID ?d = t" "dp_GroupID ?d = i"
        using ne edges_of_member [of ?d deps t i] by auto
      then have "set (edges_of deps t i) = {e \<in> set deps. same_group ?d e}" using edges_of_same_group [of ?d deps] by simp
      then show "dp_Quorum ?d \<le> of_nat (length (edges_of deps t i))" unfolding len using r d(1,2) q by simp
    qed
  qed
qed

section \<open>Properties\<close>

text \<open>C9. Whatever order Go visits its maps in, a successful \<^verbatim>\<open>DetectDeadlockedTasks\<close> returns, sorted
  and without repetition, exactly the Tasks that cannot make progress, provided the graph has fewer
  than \<open>2\<^sup>3\<^sup>2\<close> edges (the width of its counters).\<close>

theorem detect_exact:
  assumes "length deps < 2 ^ 32" and "visits_all enum"
    and "detect_deadlocked_tasks enum tasks deps = Inr r"
  shows "sorted r \<and> distinct r \<and> set r = {t. \<not> can_progress tasks deps t}"
  using detect_Inr [OF assms] by blast

theorem detect_exact_witness:
  "length dx_waits < 2 ^ 32 \<and> visits_all (\<lambda>n. rev) \<and>
   detect_deadlocked_tasks (\<lambda>n. rev) dx_tasks dx_waits = Inr [''task-a'', ''task-b''] \<and>
   {''task-a'', ''task-b''} = {t. \<not> can_progress dx_tasks dx_waits t}"
  using detect_exact [OF dx_waits_few dx_visits(2) dx_detect(2)] dx_waits_few dx_visits(2) dx_detect(2) by simp

text \<open>The result of \<^verbatim>\<open>DetectDeadlockedTasks\<close>, error or list, does not depend on the order in which
  its passes visit the candidate map.\<close>

theorem detect_order_irrelevant:
  assumes "length deps < 2 ^ 32" and "visits_all enum" and "visits_all enum'"
  shows "detect_deadlocked_tasks enum tasks deps = detect_deadlocked_tasks enum' tasks deps"
proof (cases "tasks_ok tasks \<and> dependencies_ok deps \<and> sound_groups deps")
  case True
  then obtain r r' where r: "detect_deadlocked_tasks enum tasks deps = Inr r"
      "detect_deadlocked_tasks enum' tasks deps = Inr r'"
    using detect_accepts by blast
  then have "r = r'"
    using detect_Inr [OF assms(1,2) r(1)] detect_Inr [OF assms(1,3) r(2)]
    by (metis sorted_distinct_set_unique)
  with r show ?thesis by simp
next
  case False
  have "detect_deadlocked_tasks enum tasks deps \<noteq> Inr r" "detect_deadlocked_tasks enum' tasks deps \<noteq> Inr r" for r
    using False detect_accepts by blast+
  then show ?thesis
    by (cases "index_tasks tasks []"; cases "group_dependencies deps [] []")
      (auto simp: detect_deadlocked_tasks_def)
qed

theorem detect_order_irrelevant_witness:
  "length dx_waits < 2 ^ 32 \<and> visits_all (\<lambda>n c. c) \<and> visits_all (\<lambda>n. rev) \<and>
   detect_deadlocked_tasks (\<lambda>n c. c) dx_tasks dx_waits = detect_deadlocked_tasks (\<lambda>n. rev) dx_tasks dx_waits"
  using detect_order_irrelevant [OF dx_waits_few dx_visits, of dx_tasks] dx_waits_few dx_visits by simp

text \<open>The reported set is itself a set of Tasks waiting only for each other, and contains every
  such set: no deadlock is missed.\<close>

theorem detect_largest_deadlock:
  assumes "length deps < 2 ^ 32" and "visits_all enum"
    and "detect_deadlocked_tasks enum tasks deps = Inr r"
  shows "mutually_waiting tasks deps (set r) \<and> (\<forall>S. mutually_waiting tasks deps S \<longrightarrow> S \<subseteq> set r)"
  using detect_Inr(3) [OF assms] stuck_mutually_waiting mutually_waiting_stuck by fastforce

theorem detect_largest_deadlock_witness:
  "detect_deadlocked_tasks (\<lambda>n c. c) dx_tasks dx_waits = Inr [''task-a'', ''task-b''] \<and>
   mutually_waiting dx_tasks dx_waits {''task-a'', ''task-b''}"
  using detect_largest_deadlock [OF dx_waits_few dx_visits(1) dx_detect(1)] dx_detect by simp

text \<open>C37. \<^verbatim>\<open>DetectDeadlockedTasks\<close> succeeds exactly on well-formed graphs, and every other input is an error: Task
  identifiers are valid and distinct; edges are valid and have distinct identifiers; two active edges of one Task in one
  group agree on mode and quorum and have different targets; and the quorum of an active edge is at most the number of
  active edges in its group. Provided there are fewer than \<open>2\<^sup>3\<^sup>2\<close> edges.\<close>

theorem detect_accepts_iff:
  assumes "length deps < 2 ^ 32"
  shows "(\<exists>r. detect_deadlocked_tasks enum tasks deps = Inr r) \<longleftrightarrow>
    (\<forall>t\<in>set tasks. task_validate_id (tl_TaskID t)) \<and> distinct (map tl_TaskID tasks) \<and>
    (\<forall>d\<in>set deps. validate_dependency d) \<and> distinct (map dp_DependencyID deps) \<and>
    (\<forall>d\<in>set deps. \<forall>e\<in>set deps. same_group d e \<longrightarrow> dp_Mode d = dp_Mode e \<and> dp_Quorum d = dp_Quorum e) \<and>
    (\<forall>d\<in>set deps. \<forall>e\<in>set deps. same_group d e \<longrightarrow> dp_ToTaskID d = dp_ToTaskID e \<longrightarrow> d = e) \<and>
    (\<forall>d\<in>set deps. dp_Active d \<longrightarrow> dp_Mode d = DependencyQuorum \<longrightarrow> unat (dp_Quorum d) \<le> card {e \<in> set deps. same_group d e})"
proof -
  have "sound_groups deps \<longleftrightarrow>
      (\<forall>d\<in>set deps. \<forall>e\<in>set deps. same_group d e \<longrightarrow> dp_ToTaskID d = dp_ToTaskID e \<longrightarrow> d = e) \<and>
      (\<forall>d\<in>set deps. dp_Active d \<longrightarrow> dp_Mode d = DependencyQuorum \<longrightarrow> unat (dp_Quorum d) \<le> card {e \<in> set deps. same_group d e})"
    if "distinct (map dp_DependencyID deps)" "consistent deps"
    unfolding distinct_targets_iff [OF that(1), symmetric] quorums_iff [OF that assms, symmetric] sound_groups_def by blast
  then show ?thesis
    unfolding detect_accepts tasks_ok_def dependencies_ok_def consistent_iff [symmetric] list_all_iff comp_def by blast
qed

theorem detect_accepts_iff_witness:
  "length dx_waits < 2 ^ 32 \<and> detect_deadlocked_tasks (\<lambda>n c. c) dx_tasks dx_waits = Inr [''task-a'', ''task-b''] \<and>
   distinct (map dp_DependencyID dx_waits)"
  using detect_accepts_iff [OF dx_waits_few, of "\<lambda>n c. c" dx_tasks] dx_waits_few dx_detect(1) by blast

end
