(* ===== verification/Go_Format.thy ===== *)
theory Go_Format
  imports Go_Time Go_Strings "HOL-Library.List_Lexorder" "HOL-Library.Char_ord"
begin

text \<open>
  Formatting and searching from Go's standard library: \<^verbatim>\<open>strconv.FormatUint\<close> in base ten,
  \<^verbatim>\<open>Time.Format(time.RFC3339Nano)\<close> of a UTC time, and \<^verbatim>\<open>slices.BinarySearch\<close> on strings, which Go
  compares bytewise.
\<close>

section \<open>Decimal\<close>

definition digit :: "nat \<Rightarrow> char" where
  "digit n = char_of (48 + n)"

fun format_uint :: "nat \<Rightarrow> string" where
  "format_uint n = (if n < 10 then [digit n] else format_uint (n div 10) @ [digit (n mod 10)])"

declare format_uint.simps [simp del]

definition parse_uint :: "string \<Rightarrow> nat" where
  "parse_uint s = foldl (\<lambda>acc c. acc * 10 + (byte c - 48)) 0 s"

lemma parse_format_uint [simp]: "parse_uint (format_uint n) = n"
proof (induction n rule: format_uint.induct)
  case (1 n)
  have digit: "byte (digit k) - 48 = k" if "k < 10" for k
    using that by (simp add: digit_def)
  show ?case
    using 1 digit [of n] digit [of "n mod 10"]
    by (subst format_uint.simps) (auto simp: parse_uint_def)
qed

lemma format_uint_inj: "format_uint m = format_uint n \<Longrightarrow> m = n"
  using parse_format_uint by metis

lemma length_format_uint: "n < 10 ^ k \<Longrightarrow> 0 < k \<Longrightarrow> length (format_uint n) \<le> k"
proof (induction n arbitrary: k rule: format_uint.induct)
  case (1 n)
  show ?case
  proof (cases "n < 10")
    case True
    then show ?thesis using 1(3) by (subst format_uint.simps) simp
  next
    case False
    then obtain j where k: "k = Suc j" "0 < j"
      using 1(2,3) by (cases k; cases "k - 1") auto
    then have "n div 10 < 10 ^ j"
      using 1(2) by (simp add: less_mult_imp_div_less)
    then show ?thesis
      using 1(1) [OF False] k False by (subst format_uint.simps) simp
  qed
qed

definition pad_zero :: "nat \<Rightarrow> string \<Rightarrow> string" where
  "pad_zero k s = replicate (k - length s) (CHR ''0'') @ s"

section \<open>RFC 3339\<close>

text \<open>
  The proleptic Gregorian date of a day counted from January 1, year 1: eras of 400 years that
  start on March 1, so that the leap day is the last day of a year.
\<close>

definition civil_date :: "int \<Rightarrow> int \<times> int \<times> int" where
  "civil_date days =
     (let z = days + 306;
          era = z div 146097;
          doe = z mod 146097;
          yoe = (doe - doe div 1460 + doe div 36524 - doe div 146096) div 365;
          doy = doe - (365 * yoe + yoe div 4 - yoe div 100);
          mp = (5 * doy + 2) div 153;
          d = doy - (153 * mp + 2) div 5 + 1;
          m = (if mp < 10 then mp + 3 else mp - 9)
      in (yoe + era * 400 + (if m \<le> 2 then 1 else 0), m, d))"

definition format_year :: "int \<Rightarrow> string" where
  "format_year y = (if y < 0 then ''-'' else []) @ pad_zero 4 (format_uint (nat \<bar>y\<bar>))"

definition trim_zeros :: "string \<Rightarrow> string" where
  "trim_zeros s = rev (dropWhile (\<lambda>c. c = CHR ''0'') (rev s))"

definition format_fraction :: "int \<Rightarrow> string" where
  "format_fraction ns = (if ns = 0 then [] else ''.'' @ trim_zeros (pad_zero 9 (format_uint (nat ns))))"

definition two_digits :: "int \<Rightarrow> string" where
  "two_digits n = pad_zero 2 (format_uint (nat n))"

definition rfc3339_nano :: "gotime \<Rightarrow> string" where
  "rfc3339_nano t =
     (let secs = instant t div ns_per_sec;
          day = secs mod 86400 in
      case civil_date (secs div 86400) of (y, m, d) \<Rightarrow>
        format_year y @ ''-'' @ two_digits m @ ''-'' @ two_digits d @ ''T'' @
        two_digits (day div 3600) @ '':'' @ two_digits (day div 60 mod 60) @ '':'' @ two_digits (day mod 60) @
        format_fraction (nanosecond t) @ ''Z'')"

text \<open>A time of the years 0 to 9999 has a short text.\<close>

lemma length_pad_zero: "length (pad_zero k s) = max k (length s)"
  by (auto simp: pad_zero_def)

lemma int_div_bounds: "(0::int) < c \<Longrightarrow> c * (x div c) \<le> x \<and> x < c * (x div c) + c"
  by (metis add_le_cancel_left le_add_same_cancel1 mult.commute div_mult_mod_eq pos_mod_bound pos_mod_sign add_less_cancel_left)

lemma civil_date_bounds:
  assumes "- 366 \<le> days" and "days \<le> 3652058" and "civil_date days = (y, m, d)"
  shows "\<bar>y\<bar> < 10 ^ 6" and "m < 10 ^ 6" and "d < 10 ^ 6"
proof -
  define z where "z = days + 306"
  define era where "era = z div 146097"
  define doe where "doe = z mod 146097"
  define yoe where "yoe = (doe - doe div 1460 + doe div 36524 - doe div 146096) div 365"
  define doy where "doy = doe - (365 * yoe + yoe div 4 - yoe div 100)"
  define mp where "mp = (5 * doy + 2) div 153"
  have "civil_date days = (yoe + era * 400 + (if (if mp < 10 then mp + 3 else mp - 9) \<le> 2 then 1 else 0),
      if mp < 10 then mp + 3 else mp - 9, doy - (153 * mp + 2) div 5 + 1)"
    by (simp only: civil_date_def Let_def z_def era_def doe_def yoe_def doy_def mp_def)
  then have y: "y = yoe + era * 400 + (if m \<le> 2 then 1 else 0)" and m: "m = (if mp < 10 then mp + 3 else mp - 9)"
      and d: "d = doy - (153 * mp + 2) div 5 + 1"
    using assms(3) by (simp_all only: prod.inject)
  have era: "- 1 \<le> era" "era \<le> 24"
    using int_div_bounds [of 146097 z] assms(1,2) by (auto simp: era_def z_def)
  have doe: "0 \<le> doe" "doe < 146097" by (simp_all add: doe_def)
  have yoe: "- 1 \<le> yoe" "yoe \<le> 401"
    using int_div_bounds [of 1460 doe] int_div_bounds [of 36524 doe] int_div_bounds [of 146096 doe] doe
      int_div_bounds [of 365 "doe - doe div 1460 + doe div 36524 - doe div 146096"]
    by (auto simp: yoe_def)
  have doy: "- 150000 \<le> doy" "doy \<le> 150000"
    using int_div_bounds [of 4 yoe] int_div_bounds [of 100 yoe] yoe doe by (auto simp: doy_def)
  have mp: "- 5000 \<le> mp" "mp \<le> 5000"
    using int_div_bounds [of 153 "5 * doy + 2"] doy by (auto simp: mp_def)
  show "\<bar>y\<bar> < 10 ^ 6" using y era yoe by auto
  show "m < 10 ^ 6" using m mp by auto
  show "d < 10 ^ 6" using d doy mp int_div_bounds [of 5 "153 * mp + 2"] by auto
qed

lemma length_format_nat: "x < 10 ^ k \<Longrightarrow> 0 < k \<Longrightarrow> length (format_uint (nat x)) \<le> k"
  by (intro length_format_uint) (simp_all add: nat_less_iff zless_nat_eq_int_zless)

lemma length_two_digits: "x < 10 ^ k \<Longrightarrow> 2 \<le> k \<Longrightarrow> length (two_digits x) \<le> k"
  using length_format_nat [of x k] by (simp add: two_digits_def length_pad_zero)

lemma length_rfc3339_nano:
  assumes "marshals_text t"
  shows "length (rfc3339_nano t) \<le> 100"
proof -
  define secs where "secs = instant t div ns_per_sec"
  obtain y m d where ymd: "civil_date (secs div 86400) = (y, m, d)" by (metis prod_cases3)
  have secs: "- 31622400 \<le> secs" "secs < 315537897600"
    using assms int_div_bounds [of ns_per_sec "instant t"]
    by (auto simp: marshals_text_def min_durable_def max_durable_def secs_def ns_per_sec_def)
  have days: "- 366 \<le> secs div 86400" "secs div 86400 \<le> 3652058"
    using secs int_div_bounds [of 86400 secs] by auto
  note b = civil_date_bounds [OF days ymd]
  have "length (format_year y) \<le> 7"
    using length_format_nat [OF b(1)] by (auto simp: format_year_def length_pad_zero)
  moreover have "length (two_digits m) \<le> 6" "length (two_digits d) \<le> 6"
    using length_two_digits [OF b(2)] length_two_digits [OF b(3)] by simp_all
  moreover define h where "h = secs mod 86400 div 3600"
  moreover define n where "n = secs mod 86400 div 60 mod 60"
  moreover define e where "e = secs mod 86400 mod 60"
  moreover have "length (two_digits h) \<le> 6" "length (two_digits n) \<le> 6" "length (two_digits e) \<le> 6"
  proof -
    have "h \<le> secs mod 86400"
      using zdiv_mono2 [of "secs mod 86400" 1 3600, OF pos_mod_sign] by (simp only: h_def div_by_1)
    then have "h < 10 ^ 6" using pos_mod_bound [of 86400 secs] by simp
    then show "length (two_digits h) \<le> 6" by (rule length_two_digits) simp
    have "n < 60" "e < 60" unfolding n_def e_def by (rule pos_mod_bound, simp)+
    then show "length (two_digits n) \<le> 6" "length (two_digits e) \<le> 6"
      by (simp_all add: length_two_digits)
  qed
  moreover have "length (format_fraction (nanosecond t)) \<le> 10"
  proof -
    have "nanosecond t < 10 ^ 9" using nanosecond_bounds(2) [of t] by (simp add: ns_per_sec_def)
    then have "length (pad_zero 9 (format_uint (nat (nanosecond t)))) \<le> 9"
      using length_format_nat [of "nanosecond t" 9] by (simp add: length_pad_zero)
    moreover have "length (trim_zeros s) \<le> length s" for s
      using length_dropWhile_le [of _ "rev s"] by (simp add: trim_zeros_def)
    ultimately show ?thesis
      by (auto simp: format_fraction_def intro: le_trans)
  qed
  ultimately show ?thesis
    unfolding rfc3339_nano_def Let_def secs_def [symmetric] ymd prod.case
    by (simp only: length_append list.size h_def [symmetric] n_def [symmetric] e_def [symmetric])
qed

section \<open>Binary search\<close>

text \<open>The loop of \<^verbatim>\<open>slices.BinarySearch\<close>: the smallest index in \<open>[i, j)\<close> that is not below the target, or \<open>j\<close>.\<close>

function binary_search :: "string list \<Rightarrow> string \<Rightarrow> nat \<Rightarrow> nat \<Rightarrow> nat" where
  "binary_search xs target i j =
     (if i < j then
        (let h = (i + j) div 2 in
         if xs ! h < target then binary_search xs target (h + 1) j else binary_search xs target i h)
      else i)"
  by pat_completeness auto
termination
  by (relation "measure (\<lambda>(xs, target, i, j). j - i)") auto

declare binary_search.simps [simp del]

definition binary_found :: "string list \<Rightarrow> string \<Rightarrow> bool" where
  "binary_found xs target \<longleftrightarrow>
     (let i = binary_search xs target 0 (length xs) in i < length xs \<and> xs ! i = target)"

lemma binary_search_split:
  assumes "sorted xs" and "i \<le> j" and "j \<le> length xs"
    and "\<And>k. k < i \<Longrightarrow> xs ! k < target" and "\<And>k. j \<le> k \<Longrightarrow> k < length xs \<Longrightarrow> target \<le> xs ! k"
  shows "binary_search xs target i j \<le> length xs \<and>
    (\<forall>k < binary_search xs target i j. xs ! k < target) \<and>
    (\<forall>k. binary_search xs target i j \<le> k \<longrightarrow> k < length xs \<longrightarrow> target \<le> xs ! k)"
  using assms
proof (induction xs target i j rule: binary_search.induct)
  case (1 xs target i j)
  show ?case
  proof (cases "i < j")
    case False
    then show ?thesis
      using 1(3-7) by (subst (1 2 3) binary_search.simps) auto
  next
    case True
    define h where "h = (i + j) div 2"
    have h: "i \<le> h" "h < j" using True by (auto simp: h_def)
    show ?thesis
    proof (cases "xs ! h < target")
      case less: True
      have "xs ! k < target" if "k < h + 1" for k
      proof -
        have "xs ! k \<le> xs ! h"
          using that h 1(5) by (intro sorted_nth_mono [OF 1(3)]) auto
        then show ?thesis using less by (rule le_less_trans)
      qed
      then have "binary_search xs target (h + 1) j \<le> length xs \<and>
          (\<forall>k < binary_search xs target (h + 1) j. xs ! k < target) \<and>
          (\<forall>k. binary_search xs target (h + 1) j \<le> k \<longrightarrow> k < length xs \<longrightarrow> target \<le> xs ! k)"
        by (intro 1(1) [OF True h_def less 1(3)]) (use 1(5,7) h in auto)
      then show ?thesis
        using True less by (subst (1 2 3) binary_search.simps) (simp add: h_def [symmetric])
    next
      case ge: False
      have "target \<le> xs ! k" if "h \<le> k" "k < length xs" for k
      proof -
        have "target \<le> xs ! h" using ge by simp
        also have "xs ! h \<le> xs ! k" using that by (intro sorted_nth_mono [OF 1(3)]) auto
        finally show ?thesis .
      qed
      then have "binary_search xs target i h \<le> length xs \<and>
          (\<forall>k < binary_search xs target i h. xs ! k < target) \<and>
          (\<forall>k. binary_search xs target i h \<le> k \<longrightarrow> k < length xs \<longrightarrow> target \<le> xs ! k)"
        by (intro 1(2) [OF True h_def ge 1(3)]) (use 1(5,6) h in auto)
      then show ?thesis
        using True ge by (subst (1 2 3) binary_search.simps) (simp add: h_def [symmetric])
    qed
  qed
qed

lemma binary_found_iff:
  assumes "sorted xs"
  shows "binary_found xs target \<longleftrightarrow> target \<in> set xs"
proof
  show "binary_found xs target \<Longrightarrow> target \<in> set xs"
    by (metis binary_found_def nth_mem)
  assume "target \<in> set xs"
  then obtain k where k: "k < length xs" "xs ! k = target" by (auto simp: in_set_conv_nth)
  let ?i = "binary_search xs target 0 (length xs)"
  have split: "?i \<le> length xs \<and> (\<forall>k < ?i. xs ! k < target) \<and> (\<forall>k. ?i \<le> k \<longrightarrow> k < length xs \<longrightarrow> target \<le> xs ! k)"
    by (rule binary_search_split [OF assms]) auto
  have "?i \<le> k"
    using split k by (metis less_irrefl not_less)
  then have "xs ! ?i = target"
    using split k sorted_nth_mono [OF assms, of ?i k] by (metis le_less_trans order_antisym order_refl)
  with \<open>?i \<le> k\<close> k show "binary_found xs target"
    by (simp add: binary_found_def Let_def)
qed

end
