(* ===== verification/Quorum_Model.thy ===== *)
theory Quorum_Model
  imports Canonical_Transcript Go_Format
begin

text \<open>
  Package \<^verbatim>\<open>pkg/authorityquorum\<close>, data and checks: \<^verbatim>\<open>model.go\<close>, \<^verbatim>\<open>validation.go\<close>, the digests of
  \<^verbatim>\<open>canonical.go\<close> and \<^verbatim>\<open>NewApproval\<close> of \<^verbatim>\<open>approval.go\<close>. Its transcripts are not those of the Action
  package: a domain, a zero byte, and name and value of each field, each with its length in four
  bytes. A \<^verbatim>\<open>Validate\<close> method with one sentinel is a predicate.
\<close>

section \<open>Data\<close>

datatype quorum_error =
    ErrInvalidPolicy | ErrInvalidRequest | ErrInvalidApproval | ErrInvalidRevocation | ErrInvalidQuorum
  | ErrMissingPolicyResolver | ErrResolvePolicy | ErrAuthenticatedBindingMismatch | ErrPolicyMismatch
  | ErrPolicyConflict | ErrAuthorityNotAllowed | ErrApprovalConflict | ErrConsumptionConflict
  | ErrAuthorityAlreadyApproved | ErrPrincipalAlreadyApproved | ErrCredentialAlreadyApproved
  | ErrDecisionConflict | ErrBelowThreshold | ErrDecisionConsumed | ErrDecisionRevoked
  | ErrDecisionNotFound | ErrExpired | ErrNotYetValid

definition PolicySchemaV1 :: string where
  "PolicySchemaV1 = ''asb.authority-quorum-policy/v1''"

definition ApprovalSchemaV1 :: string where
  "ApprovalSchemaV1 = ''asb.authority-approval/v1''"

definition RevocationSchemaV1 :: string where
  "RevocationSchemaV1 = ''asb.authority-decision-revocation/v1''"

definition QuorumSchemaV1 :: string where
  "QuorumSchemaV1 = ''asb.verified-authority-quorum/v1''"

definition MaxAuthorities :: nat where
  "MaxAuthorities = 128"

record decision_binding =
  db_DecisionID :: string
  db_PolicyDigest :: string
  db_OperationDigest :: string

record verified_policy =
  vp_Schema :: string
  vp_PolicyID :: string
  vp_PolicyDigest :: string
  vp_AuthorityMapDigest :: string
  vp_Audience :: string
  vp_Epoch :: uint64
  vp_Threshold :: uint32
  vp_AuthorityIDs :: "string list"
  vp_ValidFrom :: gotime
  vp_ExpiresAt :: gotime

record approval_request =
  aq_DecisionID :: string
  aq_PolicyDigest :: string
  aq_OperationDigest :: string

definition request_binding :: "approval_request \<Rightarrow> decision_binding" where
  "request_binding r =
     \<lparr>db_DecisionID = aq_DecisionID r, db_PolicyDigest = aq_PolicyDigest r,
      db_OperationDigest = aq_OperationDigest r\<rparr>"

record accepted_authority =
  aa_ApprovalDigest :: bytes
  aa_AuthorityMapDigest :: string
  aa_PrincipalDigest :: string
  aa_CredentialDigest :: string
  aa_AuthorityID :: string
  aa_AuthorizationID :: string
  aa_ProofIssuer :: string
  aa_ProofID :: string
  aa_ProofSignerKey :: string
  aa_Audience :: string
  aa_IssuedAt :: gotime
  aa_ExpiresAt :: gotime

record approval =
  av_Schema :: string
  av_ApprovalID :: string
  av_DecisionID :: string
  av_PolicyDigest :: string
  av_OperationDigest :: string
  av_Audience :: string
  av_AuthorityID :: string
  av_PrincipalTag :: string
  av_CredentialTag :: string
  av_AuthorizationTag :: string
  av_ApprovedAt :: gotime
  av_ExpiresAt :: gotime

definition approval_binding :: "approval \<Rightarrow> decision_binding" where
  "approval_binding a =
     \<lparr>db_DecisionID = av_DecisionID a, db_PolicyDigest = av_PolicyDigest a,
      db_OperationDigest = av_OperationDigest a\<rparr>"

record decision_revocation =
  rv_Schema :: string
  rv_RevocationID :: string
  rv_DecisionID :: string
  rv_RevokedAt :: gotime

record consume_request =
  cq_ConsumptionID :: string
  cq_Binding :: decision_binding

record verified_quorum =
  vq_Schema :: string
  vq_ConsumptionID :: string
  vq_DecisionID :: string
  vq_PolicyDigest :: string
  vq_OperationDigest :: string
  vq_Audience :: string
  vq_Threshold :: uint32
  vq_ApprovalCount :: uint32
  vq_ConsumedAt :: gotime
  vq_AcceptedUntil :: gotime

section \<open>Transcripts\<close>

definition write_length_prefixed :: "bytes \<Rightarrow> bytes" where
  "write_length_prefixed v = be 4 (length v) @ v"

definition add_bytes :: "string \<times> bytes \<Rightarrow> bytes" where
  "add_bytes f = write_length_prefixed (fst f) @ write_length_prefixed (snd f)"

definition quorum_transcript :: "string \<Rightarrow> (string \<times> bytes) list \<Rightarrow> bytes" where
  "quorum_transcript domain fs = domain @ [char_of (0 :: nat)] @ concat (map add_bytes fs)"

definition policy_fields :: "verified_policy \<Rightarrow> (string \<times> bytes) list" where
  "policy_fields p =
     [(''schema'', vp_Schema p), (''policy_id'', vp_PolicyID p), (''audience'', vp_Audience p),
      (''authority_map_digest'', vp_AuthorityMapDigest p), (''epoch'', format_uint (unat (vp_Epoch p))),
      (''threshold'', format_uint (unat (vp_Threshold p))), (''valid_from'', rfc3339_nano (vp_ValidFrom p)),
      (''expires_at'', rfc3339_nano (vp_ExpiresAt p))] @
     map (\<lambda>i. (''authority_id'', i)) (vp_AuthorityIDs p)"

definition request_fields :: "approval_request \<Rightarrow> (string \<times> bytes) list" where
  "request_fields r =
     [(''decision_id'', aq_DecisionID r), (''policy_digest'', aq_PolicyDigest r),
      (''operation_digest'', aq_OperationDigest r)]"

definition policy_digest_domain :: string where
  "policy_digest_domain = ''ASB-AUTHORITY-QUORUM-POLICY-v1''"

definition approval_digest_domain :: string where
  "approval_digest_domain = ''ASB-AUTHORITY-QUORUM-APPROVAL-v1''"

definition approval_id_domain :: string where
  "approval_id_domain = ''ASB-AUTHORITY-QUORUM-APPROVAL-ID-v1''"

definition principal_tag_domain :: string where
  "principal_tag_domain = ''ASB-AUTHORITY-QUORUM-PRINCIPAL-TAG-v1''"

definition credential_tag_domain :: string where
  "credential_tag_domain = ''ASB-AUTHORITY-QUORUM-CREDENTIAL-TAG-v1''"

definition authorization_tag_domain :: string where
  "authorization_tag_domain = ''ASB-AUTHORITY-QUORUM-AUTHORIZATION-TAG-v1''"

definition request_context_domain :: string where
  "request_context_domain = ''ASB-AUTHORITY-QUORUM-CONTEXT-v1''"

definition authorization_detail_prefix :: string where
  "authorization_detail_prefix = ''urn:asb:authority-quorum-approval:v1:sha256:''"

section \<open>Checks\<close>

definition quorum_max_id_bytes :: nat where
  "quorum_max_id_bytes = 256"

definition max_audience_bytes :: nat where
  "max_audience_bytes = 512"

definition quorum_text :: "nat \<Rightarrow> string \<Rightarrow> bool" where
  "quorum_text bound v \<longleftrightarrow> v \<noteq> [] \<and> trim_space v = v \<and> length v \<le> bound \<and> valid_utf8 v \<and>
     list_all (\<lambda>p. \<not> (is_control (fst p) \<or> is_space (fst p))) (runes v)"

definition quorum_validate_id :: "string \<Rightarrow> bool" where
  "quorum_validate_id v = quorum_text quorum_max_id_bytes v"

definition validate_audience :: "string \<Rightarrow> bool" where
  "validate_audience v = quorum_text max_audience_bytes v"

definition quorum_validate_digest :: "string \<Rightarrow> bool" where
  "quorum_validate_digest v \<longleftrightarrow> length v = length sha256_prefix + 64 \<and> has_prefix v sha256_prefix \<and>
     (let h = trim_prefix v sha256_prefix in hex_decodes h \<and> length h = 64 \<and> to_lower h = h)"

definition validate_binding :: "decision_binding \<Rightarrow> bool" where
  "validate_binding b \<longleftrightarrow> quorum_validate_id (db_DecisionID b) \<and> quorum_validate_digest (db_PolicyDigest b) \<and>
     quorum_validate_digest (db_OperationDigest b)"

definition validate_approval_request :: "approval_request \<Rightarrow> bool" where
  "validate_approval_request r = validate_binding (request_binding r)"

fun increasing_ids :: "string list \<Rightarrow> bool" where
  "increasing_ids (x # y # ys) = (x < y \<and> increasing_ids (y # ys))"
| "increasing_ids xs = True"

definition validate_policy_definition :: "verified_policy \<Rightarrow> bool" where
  "validate_policy_definition p \<longleftrightarrow> quorum_validate_id (vp_PolicyID p) \<and> validate_audience (vp_Audience p) \<and>
     quorum_validate_digest (vp_AuthorityMapDigest p) \<and> vp_Epoch p \<noteq> 0 \<and>
     \<not> (vp_AuthorityIDs p = [] \<or> length (vp_AuthorityIDs p) > MaxAuthorities) \<and>
     \<not> (vp_Threshold p = 0 \<or> unat (vp_Threshold p) > length (vp_AuthorityIDs p)) \<and>
     list_all quorum_validate_id (vp_AuthorityIDs p) \<and> increasing_ids (vp_AuthorityIDs p) \<and>
     \<not> (is_zero (vp_ValidFrom p) \<or> is_zero (vp_ExpiresAt p) \<or> \<not> after (vp_ExpiresAt p) (vp_ValidFrom p))"

definition compute_policy_digest :: "verified_policy \<Rightarrow> quorum_error + string" where
  "compute_policy_digest p =
     (if \<not> validate_policy_definition p then Inl ErrInvalidPolicy
      else Inr (sha256_text (quorum_transcript policy_digest_domain (policy_fields p))))"

definition validate_policy :: "verified_policy \<Rightarrow> bool" where
  "validate_policy p \<longleftrightarrow> vp_Schema p = PolicySchemaV1 \<and> validate_policy_definition p \<and>
     compute_policy_digest p = Inr (vp_PolicyDigest p)"

definition validate_policy_at :: "verified_policy \<Rightarrow> gotime \<Rightarrow> quorum_error + unit" where
  "validate_policy_at p now =
     (if \<not> validate_policy p then Inl ErrInvalidPolicy
      else if is_zero now then Inl ErrInvalidPolicy
      else if before now (vp_ValidFrom p) then Inl ErrNotYetValid
      else if \<not> before now (vp_ExpiresAt p) then Inl ErrExpired
      else Inr ())"

definition policy_allows :: "verified_policy \<Rightarrow> string \<Rightarrow> bool" where
  "policy_allows p i = binary_found (vp_AuthorityIDs p) i"

definition validate_approval :: "approval \<Rightarrow> bool" where
  "validate_approval a \<longleftrightarrow> av_Schema a = ApprovalSchemaV1 \<and>
     list_all quorum_validate_id [av_ApprovalID a, av_AuthorityID a] \<and> validate_binding (approval_binding a) \<and>
     list_all quorum_validate_digest [av_PrincipalTag a, av_CredentialTag a, av_AuthorizationTag a] \<and>
     validate_audience (av_Audience a) \<and>
     \<not> (is_zero (av_ApprovedAt a) \<or> is_zero (av_ExpiresAt a) \<or> \<not> after (av_ExpiresAt a) (av_ApprovedAt a))"

definition validate_revocation :: "decision_revocation \<Rightarrow> bool" where
  "validate_revocation r \<longleftrightarrow> rv_Schema r = RevocationSchemaV1 \<and> quorum_validate_id (rv_RevocationID r) \<and>
     quorum_validate_id (rv_DecisionID r) \<and> \<not> is_zero (rv_RevokedAt r)"

definition validate_consume_request :: "consume_request \<Rightarrow> bool" where
  "validate_consume_request r \<longleftrightarrow> quorum_validate_id (cq_ConsumptionID r) \<and> validate_binding (cq_Binding r)"

definition validate_quorum :: "verified_quorum \<Rightarrow> bool" where
  "validate_quorum q \<longleftrightarrow> vq_Schema q = QuorumSchemaV1 \<and>
     list_all quorum_validate_id [vq_ConsumptionID q, vq_DecisionID q] \<and>
     list_all quorum_validate_digest [vq_PolicyDigest q, vq_OperationDigest q] \<and>
     validate_audience (vq_Audience q) \<and>
     \<not> (vq_Threshold q = 0 \<or> vq_ApprovalCount q < vq_Threshold q \<or> vq_ApprovalCount q > of_nat MaxAuthorities) \<and>
     \<not> (is_zero (vq_ConsumedAt q) \<or> is_zero (vq_AcceptedUntil q) \<or> \<not> after (vq_AcceptedUntil q) (vq_ConsumedAt q))"

definition validate_quorum_at :: "verified_quorum \<Rightarrow> gotime \<Rightarrow> quorum_error + unit" where
  "validate_quorum_at q now =
     (if \<not> validate_quorum q then Inl ErrInvalidQuorum
      else if is_zero now then Inl ErrInvalidQuorum
      else if before now (vq_ConsumedAt q) then Inl ErrNotYetValid
      else if \<not> before now (vq_AcceptedUntil q) then Inl ErrExpired
      else Inr ())"

section \<open>Construction\<close>

definition new_verified_policy ::
    "string \<Rightarrow> string \<Rightarrow> string \<Rightarrow> uint64 \<Rightarrow> uint32 \<Rightarrow> string list \<Rightarrow> gotime \<Rightarrow> gotime \<Rightarrow>
     quorum_error + verified_policy" where
  "new_verified_policy policyID audience mapDigest epoch threshold authorityIDs validFrom expiresAt =
     (let authorities = sort authorityIDs;
          p = \<lparr>vp_Schema = PolicySchemaV1, vp_PolicyID = policyID, vp_PolicyDigest = [],
               vp_AuthorityMapDigest = mapDigest, vp_Audience = audience, vp_Epoch = epoch,
               vp_Threshold = threshold, vp_AuthorityIDs = authorities, vp_ValidFrom = validFrom,
               vp_ExpiresAt = expiresAt\<rparr> in
      if \<not> distinct_adj authorities then Inl ErrInvalidPolicy
      else if \<not> validate_policy_definition p then Inl ErrInvalidPolicy
      else and_then (compute_policy_digest p) (\<lambda>d. Inr (p\<lparr>vp_PolicyDigest := d\<rparr>)))"

definition approval_digest :: "approval_request \<Rightarrow> quorum_error + bytes" where
  "approval_digest r =
     (if \<not> validate_approval_request r then Inl ErrInvalidRequest
      else Inr (sha256 (quorum_transcript approval_digest_domain (request_fields r))))"

definition approval_record_id :: "accepted_authority \<Rightarrow> string" where
  "approval_record_id a =
     ''approval:'' @ hex_encode (sha256 (quorum_transcript approval_id_domain
       [(''authority_map_digest'', aa_AuthorityMapDigest a), (''principal_digest'', aa_PrincipalDigest a),
        (''credential_digest'', aa_CredentialDigest a), (''authorization_id'', aa_AuthorizationID a),
        (''proof_issuer'', aa_ProofIssuer a), (''proof_id'', aa_ProofID a),
        (''proof_signer_key'', aa_ProofSignerKey a), (''audience'', aa_Audience a),
        (''approval_digest'', aa_ApprovalDigest a)]))"

definition approval_tag :: "string \<Rightarrow> approval_request \<Rightarrow> string \<Rightarrow> string" where
  "approval_tag domain r v = sha256_text (quorum_transcript domain (request_fields r @ [(''value'', v)]))"

definition authorization_detail :: "bytes \<Rightarrow> string" where
  "authorization_detail digest = authorization_detail_prefix @ hex_encode digest"

definition request_context :: "bytes \<Rightarrow> bytes" where
  "request_context digest = quorum_transcript request_context_domain [(''approval_digest'', digest)]"

definition request_context_sha256 :: "bytes \<Rightarrow> string" where
  "request_context_sha256 digest = hex_encode (sha256 (request_context digest))"

definition approval_of :: "approval_request \<Rightarrow> accepted_authority \<Rightarrow> gotime \<Rightarrow> approval" where
  "approval_of r a at =
     \<lparr>av_Schema = ApprovalSchemaV1, av_ApprovalID = approval_record_id a, av_DecisionID = aq_DecisionID r,
      av_PolicyDigest = aq_PolicyDigest r, av_OperationDigest = aq_OperationDigest r,
      av_Audience = aa_Audience a, av_AuthorityID = aa_AuthorityID a,
      av_PrincipalTag = approval_tag principal_tag_domain r (aa_PrincipalDigest a),
      av_CredentialTag = approval_tag credential_tag_domain r (aa_CredentialDigest a),
      av_AuthorizationTag = approval_tag authorization_tag_domain r (aa_AuthorizationID a),
      av_ApprovedAt = at, av_ExpiresAt = aa_ExpiresAt a\<rparr>"

definition new_approval :: "approval_request \<Rightarrow> accepted_authority \<Rightarrow> gotime \<Rightarrow> quorum_error + approval" where
  "new_approval r a at =
     (if \<not> validate_approval_request r then Inl ErrInvalidRequest
      else and_then (approval_digest r) (\<lambda>digest.
        if aa_ApprovalDigest a \<noteq> digest then Inl ErrAuthenticatedBindingMismatch
        else if \<not> list_all quorum_validate_id [aa_AuthorityID a, aa_AuthorizationID a, aa_ProofIssuer a,
            aa_ProofID a, aa_ProofSignerKey a] then Inl ErrInvalidApproval
        else if \<not> list_all quorum_validate_digest [aa_AuthorityMapDigest a, aa_PrincipalDigest a,
            aa_CredentialDigest a] then Inl ErrInvalidApproval
        else if \<not> validate_audience (aa_Audience a) then Inl ErrInvalidApproval
        else if is_zero at \<or> is_zero (aa_IssuedAt a) \<or> is_zero (aa_ExpiresAt a) then Inl ErrInvalidApproval
        else if before at (aa_IssuedAt a) then Inl ErrNotYetValid
        else if \<not> before at (aa_ExpiresAt a) then Inl ErrExpired
        else if \<not> validate_approval (approval_of r a at) then Inl ErrInvalidApproval
        else Inr (approval_of r a at)))"

end
