(* ===== verification/Quorum_Store.thy ===== *)
theory Quorum_Store
  imports Quorum_Model Runs "HOL-Library.Product_Lexorder"
begin

text \<open>
  Package \<^verbatim>\<open>pkg/authorityquorum\<close>: the in-process store of \<^verbatim>\<open>memory_store.go\<close> and the service of
  \<^verbatim>\<open>service.go\<close>. A method holds the mutex for its body and reads its clock once, so it is a function
  of the state and that reading. The approvals of a decision are visited in the order of a Go map,
  the argument \<open>visit\<close>; the other maps are only looked up. Contexts and receivers are never nil here.
\<close>

section \<open>State\<close>

record memory_decision =
  md_binding :: decision_binding
  md_audience :: string
  md_approvals :: "(string \<times> approval) list"
  md_principals :: "string \<rightharpoonup> string"
  md_credentials :: "string \<rightharpoonup> string"
  md_selectedApprovalIDs :: "string list"
  md_revocation :: "decision_revocation option"
  md_consumption :: "verified_quorum option"

record quorum_store =
  qs_policies :: "string \<rightharpoonup> verified_policy"
  qs_decisions :: "string \<rightharpoonup> memory_decision"
  qs_approvalsByID :: "string \<rightharpoonup> approval"
  qs_consumptionsByID :: "string \<rightharpoonup> verified_quorum"
  qs_revocationsByID :: "string \<rightharpoonup> decision_revocation"

definition new_quorum_store :: quorum_store where
  "new_quorum_store =
     \<lparr>qs_policies = Map.empty, qs_decisions = Map.empty, qs_approvalsByID = Map.empty,
      qs_consumptionsByID = Map.empty, qs_revocationsByID = Map.empty\<rparr>"

definition no_binding :: decision_binding where
  "no_binding = \<lparr>db_DecisionID = [], db_PolicyDigest = [], db_OperationDigest = []\<rparr>"

definition new_decision :: "decision_binding \<Rightarrow> string \<Rightarrow> memory_decision" where
  "new_decision b audience =
     \<lparr>md_binding = b, md_audience = audience, md_approvals = [], md_principals = Map.empty,
      md_credentials = Map.empty, md_selectedApprovalIDs = [], md_revocation = None, md_consumption = None\<rparr>"

section \<open>Comparisons\<close>

definition same_policy :: "verified_policy \<Rightarrow> verified_policy \<Rightarrow> bool" where
  "same_policy l r \<longleftrightarrow> vp_Schema l = vp_Schema r \<and> vp_PolicyID l = vp_PolicyID r \<and>
     vp_PolicyDigest l = vp_PolicyDigest r \<and> vp_Audience l = vp_Audience r \<and>
     vp_AuthorityMapDigest l = vp_AuthorityMapDigest r \<and> vp_Epoch l = vp_Epoch r \<and>
     vp_Threshold l = vp_Threshold r \<and> equal_time (vp_ValidFrom l) (vp_ValidFrom r) \<and>
     equal_time (vp_ExpiresAt l) (vp_ExpiresAt r) \<and> vp_AuthorityIDs l = vp_AuthorityIDs r"

definition same_approval_proof :: "approval \<Rightarrow> approval \<Rightarrow> bool" where
  "same_approval_proof l r \<longleftrightarrow> av_Schema l = av_Schema r \<and> av_ApprovalID l = av_ApprovalID r \<and>
     av_DecisionID l = av_DecisionID r \<and> av_PolicyDigest l = av_PolicyDigest r \<and>
     av_OperationDigest l = av_OperationDigest r \<and> av_Audience l = av_Audience r \<and>
     av_AuthorityID l = av_AuthorityID r \<and> av_PrincipalTag l = av_PrincipalTag r \<and>
     av_CredentialTag l = av_CredentialTag r \<and> av_AuthorizationTag l = av_AuthorizationTag r \<and>
     equal_time (av_ExpiresAt l) (av_ExpiresAt r)"

definition same_revocation :: "decision_revocation \<Rightarrow> decision_revocation \<Rightarrow> bool" where
  "same_revocation l r \<longleftrightarrow> rv_Schema l = rv_Schema r \<and> rv_RevocationID l = rv_RevocationID r \<and>
     rv_DecisionID l = rv_DecisionID r \<and> equal_time (rv_RevokedAt l) (rv_RevokedAt r)"

definition check_policy :: "quorum_store \<Rightarrow> verified_policy \<Rightarrow> quorum_error + unit" where
  "check_policy s p =
     (case qs_policies s (vp_PolicyDigest p) of
        None \<Rightarrow> Inr ()
      | Some old \<Rightarrow> if same_policy old p then Inr () else Inl ErrPolicyConflict)"

definition store_policy :: "quorum_store \<Rightarrow> verified_policy \<Rightarrow> quorum_store" where
  "store_policy s p =
     (case qs_policies s (vp_PolicyDigest p) of
        None \<Rightarrow> s\<lparr>qs_policies := (qs_policies s)(vp_PolicyDigest p \<mapsto> p)\<rparr>
      | Some old \<Rightarrow> s)"

section \<open>Approvals\<close>

definition taken :: "(string \<rightharpoonup> string) \<Rightarrow> string \<Rightarrow> string \<Rightarrow> bool" where
  "taken m tag authority = (case m tag of None \<Rightarrow> False | Some other \<Rightarrow> other \<noteq> authority)"

definition decision_for :: "quorum_store \<Rightarrow> approval \<Rightarrow> memory_decision" where
  "decision_for s a =
     (case qs_decisions s (av_DecisionID a) of
        None \<Rightarrow> new_decision (approval_binding a) (av_Audience a)
      | Some d \<Rightarrow> d)"

definition check_distinct :: "memory_decision \<Rightarrow> approval \<Rightarrow> quorum_error + unit" where
  "check_distinct d a =
     (if md_revocation d \<noteq> None then Inl ErrDecisionRevoked
      else if md_consumption d \<noteq> None then Inl ErrDecisionConsumed
      else if md_binding d \<noteq> approval_binding a \<or> md_audience d \<noteq> av_Audience a then Inl ErrDecisionConflict
      else if map_of (md_approvals d) (av_AuthorityID a) \<noteq> None then Inl ErrAuthorityAlreadyApproved
      else if taken (md_principals d) (av_PrincipalTag a) (av_AuthorityID a) then Inl ErrPrincipalAlreadyApproved
      else if taken (md_credentials d) (av_CredentialTag a) (av_AuthorityID a) then Inl ErrCredentialAlreadyApproved
      else Inr ())"

definition add_approval :: "memory_decision \<Rightarrow> approval \<Rightarrow> memory_decision" where
  "add_approval d a =
     d\<lparr>md_approvals := md_approvals d @ [(av_AuthorityID a, a)],
       md_principals := (md_principals d)(av_PrincipalTag a \<mapsto> av_AuthorityID a),
       md_credentials := (md_credentials d)(av_CredentialTag a \<mapsto> av_AuthorityID a)\<rparr>"

definition put_approval :: "quorum_store \<Rightarrow> verified_policy \<Rightarrow> approval \<Rightarrow> quorum_store" where
  "put_approval s p a =
     (let s' = store_policy s p in
      s'\<lparr>qs_decisions := (qs_decisions s')(av_DecisionID a \<mapsto> add_approval (decision_for s a) a),
         qs_approvalsByID := (qs_approvalsByID s')(av_ApprovalID a \<mapsto> a)\<rparr>)"

text \<open>
  A rejected approval may still leave a new, empty decision behind: \<^verbatim>\<open>record\<close> is inserted before the
  checks on it. On a new record none of them can fail, so the state of an error is the old one.
\<close>

definition append_approval ::
    "quorum_store \<Rightarrow> gotime \<Rightarrow> verified_policy \<Rightarrow> approval \<Rightarrow> quorum_error + approval \<times> quorum_store" where
  "append_approval s now p a =
     (if \<not> validate_approval a then Inl ErrInvalidApproval
      else if \<not> validate_policy p then Inl ErrInvalidPolicy
      else if av_PolicyDigest a \<noteq> vp_PolicyDigest p \<or> av_Audience a \<noteq> vp_Audience p then Inl ErrPolicyMismatch
      else if \<not> policy_allows p (av_AuthorityID a) then Inl ErrAuthorityNotAllowed
      else and_then (check_policy s p) (\<lambda>_.
        case qs_approvalsByID s (av_ApprovalID a) of
          Some old \<Rightarrow> if same_approval_proof old a then Inr (old, s) else Inl ErrApprovalConflict
        | None \<Rightarrow>
            and_then (validate_policy_at p now) (\<lambda>_.
              if before now (av_ApprovedAt a) then Inl ErrNotYetValid
              else if \<not> before now (av_ExpiresAt a) then Inl ErrExpired
              else and_then (check_distinct (decision_for s a) a) (\<lambda>_. Inr (a, put_approval s p a)))))"

section \<open>Consumption\<close>

text \<open>The loop that collects the candidates, over the entries in the order visited.\<close>

fun collect ::
    "decision_binding \<Rightarrow> verified_policy \<Rightarrow> gotime \<Rightarrow> (string \<times> approval) list \<Rightarrow> quorum_error + approval list" where
  "collect b p now [] = Inr []"
| "collect b p now ((i, a) # rest) =
     (if \<not> validate_approval a then Inl ErrInvalidApproval
      else if approval_binding a \<noteq> b \<or> av_Audience a \<noteq> vp_Audience p then Inl ErrDecisionConflict
      else if av_AuthorityID a \<noteq> i \<or> \<not> policy_allows p i then Inl ErrAuthorityNotAllowed
      else if before now (av_ApprovedAt a) \<or> \<not> before now (av_ExpiresAt a) then collect b p now rest
      else and_then (collect b p now rest) (\<lambda>as. Inr (a # as)))"

text \<open>The order of \<^verbatim>\<open>sort.Slice\<close>: latest expiry first, then authority, then approval identifier.\<close>

definition rank :: "approval \<Rightarrow> int \<times> string \<times> string" where
  "rank a = (- instant (av_ExpiresAt a), av_AuthorityID a, av_ApprovalID a)"

definition select_approvals :: "verified_policy \<Rightarrow> approval list \<Rightarrow> approval list" where
  "select_approvals p cs = take (unat (vp_Threshold p)) (sort_key rank cs)"

fun earliest :: "gotime \<Rightarrow> approval list \<Rightarrow> gotime" where
  "earliest t [] = t"
| "earliest t (a # as) = earliest (if before (av_ExpiresAt a) t then av_ExpiresAt a else t) as"

definition quorum_of :: "verified_policy \<Rightarrow> consume_request \<Rightarrow> gotime \<Rightarrow> gotime \<Rightarrow> verified_quorum" where
  "quorum_of p r now until =
     \<lparr>vq_Schema = QuorumSchemaV1, vq_ConsumptionID = cq_ConsumptionID r,
      vq_DecisionID = db_DecisionID (cq_Binding r), vq_PolicyDigest = db_PolicyDigest (cq_Binding r),
      vq_OperationDigest = db_OperationDigest (cq_Binding r), vq_Audience = vp_Audience p,
      vq_Threshold = vp_Threshold p, vq_ApprovalCount = vp_Threshold p, vq_ConsumedAt = now,
      vq_AcceptedUntil = until\<rparr>"

definition quorum_matches :: "verified_quorum \<Rightarrow> verified_policy \<Rightarrow> consume_request \<Rightarrow> bool" where
  "quorum_matches q p r \<longleftrightarrow> vq_DecisionID q = db_DecisionID (cq_Binding r) \<and>
     vq_PolicyDigest q = db_PolicyDigest (cq_Binding r) \<and>
     vq_OperationDigest q = db_OperationDigest (cq_Binding r) \<and> vq_Audience q = vp_Audience p"

definition put_consumption ::
    "quorum_store \<Rightarrow> verified_policy \<Rightarrow> memory_decision \<Rightarrow> approval list \<Rightarrow> verified_quorum \<Rightarrow> quorum_store" where
  "put_consumption s p d sel q =
     (let s' = store_policy s p in
      s'\<lparr>qs_decisions := (qs_decisions s')(vq_DecisionID q \<mapsto>
           d\<lparr>md_selectedApprovalIDs := sort (map av_ApprovalID sel), md_consumption := Some q\<rparr>),
         qs_consumptionsByID := (qs_consumptionsByID s')(vq_ConsumptionID q \<mapsto> q)\<rparr>)"

definition consume_fresh ::
    "((string \<times> approval) list \<Rightarrow> (string \<times> approval) list) \<Rightarrow> quorum_store \<Rightarrow> gotime \<Rightarrow> verified_policy \<Rightarrow>
     consume_request \<Rightarrow> memory_decision \<Rightarrow> quorum_error + verified_quorum \<times> quorum_store" where
  "consume_fresh visit s now p r d =
     (if md_revocation d \<noteq> None then Inl ErrDecisionRevoked
      else if md_consumption d \<noteq> None then Inl ErrDecisionConsumed
      else and_then (validate_policy_at p now) (\<lambda>_.
        if md_binding d \<noteq> cq_Binding r \<or> md_audience d \<noteq> vp_Audience p then Inl ErrDecisionConflict
        else and_then (collect (cq_Binding r) p now (visit (md_approvals d))) (\<lambda>cs.
          if length cs < unat (vp_Threshold p) then Inl ErrBelowThreshold
          else let sel = select_approvals p cs; until = earliest (vp_ExpiresAt p) sel in
            if \<not> before now until then Inl ErrExpired
            else let q = quorum_of p r now until in
              and_then (validate_quorum_at q now) (\<lambda>_. Inr (q, put_consumption s p d sel q)))))"

definition consume_quorum ::
    "((string \<times> approval) list \<Rightarrow> (string \<times> approval) list) \<Rightarrow> quorum_store \<Rightarrow> gotime \<Rightarrow> verified_policy \<Rightarrow>
     consume_request \<Rightarrow> quorum_error + verified_quorum \<times> quorum_store" where
  "consume_quorum visit s now p r =
     (if \<not> validate_consume_request r then Inl ErrInvalidRequest
      else if \<not> validate_policy p then Inl ErrInvalidPolicy
      else if db_PolicyDigest (cq_Binding r) \<noteq> vp_PolicyDigest p then Inl ErrPolicyMismatch
      else and_then (check_policy s p) (\<lambda>_.
        case qs_consumptionsByID s (cq_ConsumptionID r) of
          Some q \<Rightarrow>
            if \<not> quorum_matches q p r then Inl ErrConsumptionConflict
            else and_then (validate_quorum_at q now) (\<lambda>_. Inr (q, s))
        | None \<Rightarrow>
            (case qs_decisions s (db_DecisionID (cq_Binding r)) of
               None \<Rightarrow> Inl ErrDecisionNotFound
             | Some d \<Rightarrow> consume_fresh visit s now p r d)))"

section \<open>Revocation\<close>

definition revoke_decision :: "quorum_store \<Rightarrow> decision_revocation \<Rightarrow> quorum_error + quorum_store" where
  "revoke_decision s r =
     (if \<not> validate_revocation r then Inl ErrInvalidRevocation
      else case qs_revocationsByID s (rv_RevocationID r) of
        Some old \<Rightarrow> if same_revocation old r then Inr s else Inl ErrInvalidRevocation
      | None \<Rightarrow>
          let d = (case qs_decisions s (rv_DecisionID r) of
                     None \<Rightarrow> new_decision no_binding [] | Some d \<Rightarrow> d) in
          if md_consumption d \<noteq> None then Inl ErrDecisionConsumed
          else if md_revocation d \<noteq> None then Inl ErrDecisionRevoked
          else Inr (s\<lparr>qs_decisions := (qs_decisions s)(rv_DecisionID r \<mapsto> d\<lparr>md_revocation := Some r\<rparr>),
                      qs_revocationsByID := (qs_revocationsByID s)(rv_RevocationID r \<mapsto> r)\<rparr>))"

section \<open>The service\<close>

text \<open>
  The policy resolver is an argument, \<open>None\<close> for a nil interface; \<open>now\<close> is the service's clock and
  \<open>now'\<close> the store's.
\<close>

type_synonym policy_resolver = "string \<Rightarrow> verified_policy option"

definition current_policy :: "policy_resolver option \<Rightarrow> gotime \<Rightarrow> string \<Rightarrow> quorum_error + verified_policy" where
  "current_policy resolver now i =
     (case resolver of
        None \<Rightarrow> Inl ErrMissingPolicyResolver
      | Some f \<Rightarrow> (case f i of
          None \<Rightarrow> Inl ErrResolvePolicy
        | Some p \<Rightarrow> and_then (validate_policy_at p now) (\<lambda>_. Inr p)))"

definition service_approve ::
    "policy_resolver option \<Rightarrow> quorum_store \<Rightarrow> gotime \<Rightarrow> gotime \<Rightarrow> approval_request \<Rightarrow> accepted_authority \<Rightarrow>
     quorum_error + approval \<times> quorum_store" where
  "service_approve resolver s now now' r a =
     (if \<not> validate_approval_request r then Inl ErrInvalidRequest
      else and_then (current_policy resolver now (aq_DecisionID r)) (\<lambda>p.
        if aq_PolicyDigest r \<noteq> vp_PolicyDigest p \<or> aa_Audience a \<noteq> vp_Audience p \<or>
            aa_AuthorityMapDigest a \<noteq> vp_AuthorityMapDigest p then Inl ErrPolicyMismatch
        else if \<not> policy_allows p (aa_AuthorityID a) then Inl ErrAuthorityNotAllowed
        else and_then (new_approval r a now) (\<lambda>v. append_approval s now' p v)))"

definition service_consume ::
    "((string \<times> approval) list \<Rightarrow> (string \<times> approval) list) \<Rightarrow> policy_resolver option \<Rightarrow> quorum_store \<Rightarrow> gotime \<Rightarrow>
     gotime \<Rightarrow> consume_request \<Rightarrow> quorum_error + verified_quorum \<times> quorum_store" where
  "service_consume visit resolver s now now' r =
     (if \<not> validate_consume_request r then Inl ErrInvalidRequest
      else and_then (current_policy resolver now (db_DecisionID (cq_Binding r))) (\<lambda>p.
        consume_quorum visit s now' p r))"

end
