(* ===== verification/Quorum_Invariant.thy ===== *)
theory Quorum_Invariant
  imports Quorum_Store "HOL-Library.Multiset"
begin

text \<open>
  Invariants of the in-process quorum store: what each decision holds, and the evidence behind every
  consumed quorum.
\<close>

section \<open>Operations as steps\<close>

datatype quorum_op =
    AppendApproval gotime verified_policy approval
  | ConsumeQuorum gotime verified_policy consume_request
  | RevokeDecision decision_revocation

type_synonym visitor = "(string \<times> approval) list \<Rightarrow> (string \<times> approval) list"

fun quorum_step :: "visitor \<Rightarrow> quorum_store \<Rightarrow> quorum_op \<Rightarrow> quorum_store \<Rightarrow> bool" where
  "quorum_step visit s (AppendApproval now p a) s' = (\<exists>v. append_approval s now p a = Inr (v, s'))"
| "quorum_step visit s (ConsumeQuorum now p r) s' = (\<exists>q. consume_quorum visit s now p r = Inr (q, s'))"
| "quorum_step visit s (RevokeDecision r) s' = (revoke_decision s r = Inr s')"

definition lawful :: "visitor \<Rightarrow> bool" where
  "lawful visit \<longleftrightarrow> (\<forall>xs. mset (visit xs) = mset xs)"

section \<open>Policies\<close>

lemma increasing_ids_sorted: "increasing_ids xs \<Longrightarrow> sorted xs \<and> distinct xs"
proof (induction xs rule: increasing_ids.induct)
  case (1 x y ys)
  then have "sorted (y # ys)" "distinct (y # ys)" "x < y" by auto
  then show ?case by (auto dest: order_less_le_trans)
qed auto

lemma policy_allows_iff: "validate_policy_definition p \<Longrightarrow> policy_allows p i \<longleftrightarrow> i \<in> set (vp_AuthorityIDs p)"
  using increasing_ids_sorted [of "vp_AuthorityIDs p"]
  by (simp add: policy_allows_def binary_found_iff validate_policy_definition_def)

lemma validate_policyD: "validate_policy p \<Longrightarrow> validate_policy_definition p"
  by (simp add: validate_policy_def)

lemma same_policy_allows: "same_policy p p' \<Longrightarrow> policy_allows p i \<longleftrightarrow> policy_allows p' i"
  by (simp add: same_policy_def policy_allows_def)

lemma same_policy_refl [simp]: "same_policy p p"
  by (simp add: same_policy_def)

lemma store_policy_simps [simp]:
  "qs_decisions (store_policy s p) = qs_decisions s"
  "qs_approvalsByID (store_policy s p) = qs_approvalsByID s"
  "qs_consumptionsByID (store_policy s p) = qs_consumptionsByID s"
  "qs_revocationsByID (store_policy s p) = qs_revocationsByID s"
  by (simp_all add: store_policy_def split: option.splits)

lemma store_policy_policies:
  "qs_policies (store_policy s p) =
     (if qs_policies s (vp_PolicyDigest p) = None then (qs_policies s)(vp_PolicyDigest p \<mapsto> p) else qs_policies s)"
  by (simp add: store_policy_def split: option.splits)

text \<open>After the check, the stored policy of the digest is the one presented, up to locations.\<close>

lemma store_policy_lookup:
  assumes "check_policy s p = Inr u"
  obtains p' where "qs_policies (store_policy s p) (vp_PolicyDigest p) = Some p'" and "same_policy p' p"
proof (cases "qs_policies s (vp_PolicyDigest p)")
  case None
  then show thesis using that [of p] by (simp add: store_policy_policies)
next
  case (Some p')
  then show thesis using that [of p'] assms by (simp add: store_policy_policies check_policy_def split: if_splits)
qed

section \<open>Decisions\<close>

definition admitted :: "quorum_store \<Rightarrow> string \<Rightarrow> memory_decision \<Rightarrow> string \<times> approval \<Rightarrow> bool" where
  "admitted s D d e \<longleftrightarrow> (case e of (i, a) \<Rightarrow> av_AuthorityID a = i \<and> validate_approval a \<and> av_DecisionID a = D \<and>
     approval_binding a = md_binding d \<and> av_Audience a = md_audience d \<and>
     md_principals d (av_PrincipalTag a) = Some i \<and> md_credentials d (av_CredentialTag a) = Some i \<and>
     (\<exists>p. qs_policies s (av_PolicyDigest a) = Some p \<and> policy_allows p i))"

definition live :: "gotime \<Rightarrow> approval \<Rightarrow> bool" where
  "live now a \<longleftrightarrow> \<not> (before now (av_ApprovedAt a) \<or> \<not> before now (av_ExpiresAt a))"

text \<open>The approvals behind a consumed quorum.\<close>

definition evidence :: "quorum_store \<Rightarrow> memory_decision \<Rightarrow> verified_quorum \<Rightarrow> approval list \<Rightarrow> bool" where
  "evidence s d q sel \<longleftrightarrow> set sel \<subseteq> snd ` set (md_approvals d) \<and>
     length sel = unat (vq_Threshold q) \<and> 0 < length sel \<and>
     distinct (map av_AuthorityID sel) \<and> distinct (map av_PrincipalTag sel) \<and> distinct (map av_CredentialTag sel) \<and>
     md_selectedApprovalIDs d = sort (map av_ApprovalID sel) \<and>
     (\<forall>a\<in>set sel. live (vq_ConsumedAt q) a \<and> \<not> after (vq_AcceptedUntil q) (av_ExpiresAt a) \<and>
       av_DecisionID a = vq_DecisionID q \<and> av_PolicyDigest a = vq_PolicyDigest q \<and>
       av_OperationDigest a = vq_OperationDigest q \<and> av_Audience a = vq_Audience q) \<and>
     (\<exists>p. qs_policies s (vq_PolicyDigest q) = Some p \<and> vp_Threshold p = vq_Threshold q \<and>
       (\<forall>a\<in>set sel. policy_allows p (av_AuthorityID a)))"

definition decision_ok :: "quorum_store \<Rightarrow> string \<Rightarrow> memory_decision \<Rightarrow> bool" where
  "decision_ok s D d \<longleftrightarrow> distinct (map fst (md_approvals d)) \<and> list_all (admitted s D d) (md_approvals d) \<and>
     (\<forall>t i. md_principals d t = Some i \<longrightarrow> i \<in> fst ` set (md_approvals d)) \<and>
     (\<forall>t i. md_credentials d t = Some i \<longrightarrow> i \<in> fst ` set (md_approvals d)) \<and>
     (\<forall>q. md_consumption d = Some q \<longrightarrow> md_revocation d = None \<and> vq_DecisionID q = D \<and>
       validate_quorum q \<and> qs_consumptionsByID s (vq_ConsumptionID q) = Some q \<and> (\<exists>sel. evidence s d q sel)) \<and>
     (\<forall>v. md_revocation d = Some v \<longrightarrow> qs_revocationsByID s (rv_RevocationID v) = Some v)"

definition quorum_ok :: "quorum_store \<Rightarrow> bool" where
  "quorum_ok s \<longleftrightarrow>
     (\<forall>g p. qs_policies s g = Some p \<longrightarrow> vp_PolicyDigest p = g \<and> validate_policy p) \<and>
     (\<forall>D d. qs_decisions s D = Some d \<longrightarrow> decision_ok s D d) \<and>
     (\<forall>c q. qs_consumptionsByID s c = Some q \<longrightarrow> vq_ConsumptionID q = c \<and>
       (\<exists>d. qs_decisions s (vq_DecisionID q) = Some d \<and> md_consumption d = Some q)) \<and>
     (\<forall>x a. qs_approvalsByID s x = Some a \<longrightarrow> av_ApprovalID a = x \<and>
       (\<exists>d. qs_decisions s (av_DecisionID a) = Some d \<and> (av_AuthorityID a, a) \<in> set (md_approvals d))) \<and>
     (\<forall>x v. qs_revocationsByID s x = Some v \<longrightarrow>
       (\<exists>d. qs_decisions s (rv_DecisionID v) = Some d \<and> md_revocation d = Some v))"

lemma quorum_ok_new: "quorum_ok new_quorum_store"
  by (simp add: quorum_ok_def new_quorum_store_def)

text \<open>Records, once made, stay: what later states keep of earlier ones.\<close>

definition keeps :: "quorum_store \<Rightarrow> quorum_store \<Rightarrow> bool" where
  "keeps s s' \<longleftrightarrow> qs_policies s \<subseteq>\<^sub>m qs_policies s' \<and> qs_approvalsByID s \<subseteq>\<^sub>m qs_approvalsByID s' \<and>
     qs_consumptionsByID s \<subseteq>\<^sub>m qs_consumptionsByID s' \<and> qs_revocationsByID s \<subseteq>\<^sub>m qs_revocationsByID s' \<and>
     (\<forall>D d. qs_decisions s D = Some d \<longrightarrow> (\<exists>d'. qs_decisions s' D = Some d' \<and>
       set (md_approvals d) \<subseteq> set (md_approvals d') \<and>
       (md_consumption d \<noteq> None \<or> md_revocation d \<noteq> None \<longrightarrow> d' = d)))"

lemma map_le_put: "m x = None \<Longrightarrow> m \<subseteq>\<^sub>m m(x \<mapsto> v)"
  by (auto simp: map_le_def)

lemma map_le_lookup: "m \<subseteq>\<^sub>m m' \<Longrightarrow> m x = Some v \<Longrightarrow> m' x = Some v"
  by (force simp: map_le_def)

lemma keeps_refl [simp]: "keeps s s"
  by (simp add: keeps_def)

lemma keeps_trans:
  assumes "keeps s s'" and "keeps s' s''"
  shows "keeps s s''"
proof -
  have "\<exists>d''. qs_decisions s'' D = Some d'' \<and> set (md_approvals d) \<subseteq> set (md_approvals d'') \<and>
      (md_consumption d \<noteq> None \<or> md_revocation d \<noteq> None \<longrightarrow> d'' = d)" if D: "qs_decisions s D = Some d" for D d
  proof -
    obtain d' where d': "qs_decisions s' D = Some d'" "set (md_approvals d) \<subseteq> set (md_approvals d')"
        "md_consumption d \<noteq> None \<or> md_revocation d \<noteq> None \<longrightarrow> d' = d"
      using assms(1) D unfolding keeps_def by blast
    obtain d'' where d'': "qs_decisions s'' D = Some d''" "set (md_approvals d') \<subseteq> set (md_approvals d'')"
        "md_consumption d' \<noteq> None \<or> md_revocation d' \<noteq> None \<longrightarrow> d'' = d'"
      using assms(2) d'(1) unfolding keeps_def by blast
    show ?thesis using d' d'' by auto
  qed
  then show ?thesis
    using assms unfolding keeps_def by (meson map_le_trans)
qed

lemma admitted_keeps:
  assumes "admitted s D d e" and "qs_policies s \<subseteq>\<^sub>m qs_policies s'"
  shows "admitted s' D d e"
  using assms map_le_lookup [OF assms(2)] by (auto simp: admitted_def split: prod.splits)

lemma evidence_keeps:
  assumes "evidence s d q sel" and "qs_policies s \<subseteq>\<^sub>m qs_policies s'"
  shows "evidence s' d q sel"
  using assms(1) map_le_lookup [OF assms(2)] unfolding evidence_def by blast

lemma decision_ok_keeps:
  assumes "decision_ok s D d" and "keeps s s'"
  shows "decision_ok s' D d"
proof -
  have pol: "qs_policies s \<subseteq>\<^sub>m qs_policies s'" using assms(2) by (simp add: keeps_def)
  have con: "qs_consumptionsByID s \<subseteq>\<^sub>m qs_consumptionsByID s'" "qs_revocationsByID s \<subseteq>\<^sub>m qs_revocationsByID s'"
    using assms(2) by (simp_all add: keeps_def)
  note d = assms(1) [unfolded decision_ok_def]
  have "list_all (admitted s' D d) (md_approvals d)"
    using d admitted_keeps [OF _ pol] by (simp add: list_all_iff)
  moreover have "md_revocation d = None \<and> vq_DecisionID q = D \<and> validate_quorum q \<and>
      qs_consumptionsByID s' (vq_ConsumptionID q) = Some q \<and> (\<exists>sel. evidence s' d q sel)"
    if "md_consumption d = Some q" for q
    using d that evidence_keeps [OF _ pol] map_le_lookup [OF con(1)] by blast
  moreover have "qs_revocationsByID s' (rv_RevocationID v) = Some v" if "md_revocation d = Some v" for v
    using d that map_le_lookup [OF con(2)] by blast
  ultimately show ?thesis
    using d by (simp add: decision_ok_def)
qed


section \<open>Selection\<close>

lemma approval_bindingD:
  "approval_binding a = b \<Longrightarrow> av_DecisionID a = db_DecisionID b \<and> av_PolicyDigest a = db_PolicyDigest b \<and>
     av_OperationDigest a = db_OperationDigest b"
  by (auto simp: approval_binding_def)

lemma collect_admitted:
  assumes "\<And>e. e \<in> set es \<Longrightarrow> admitted s D d e" and "md_binding d = b" and "md_audience d = vp_Audience p"
    and "\<And>p'. qs_policies s (db_PolicyDigest b) = Some p' \<Longrightarrow> same_policy p' p"
  shows "collect b p now es = Inr (filter (live now) (map snd es))"
  using assms(1)
proof (induction es)
  case (Cons e es)
  obtain i a where e: "e = (i, a)" by (cases e)
  have ok: "av_AuthorityID a = i" "validate_approval a" "approval_binding a = b" "av_Audience a = vp_Audience p"
    using Cons.prems [of e] assms(2,3) e by (auto simp: admitted_def)
  obtain p' where p': "qs_policies s (av_PolicyDigest a) = Some p'" "policy_allows p' i"
    using Cons.prems [of e] e by (auto simp: admitted_def)
  moreover have "av_PolicyDigest a = db_PolicyDigest b"
    using ok(3) by (auto simp: approval_binding_def)
  ultimately have "policy_allows p i"
    using assms(4) same_policy_allows by metis
  with ok Cons show ?case
    by (auto simp: e live_def)
qed simp

lemma earliest_le:
  "\<not> after (earliest t as) t" "a \<in> set as \<Longrightarrow> \<not> after (earliest t as) (av_ExpiresAt a)"
proof (induction as arbitrary: t)
  case (Cons b as)
  {
    case 1
    then show ?case
      using Cons.IH(1) [of "if before (av_ExpiresAt b) t then av_ExpiresAt b else t"] by (auto simp: time_defs split: if_splits)
  next
    case 2
    then show ?case
      using Cons.IH [of "if before (av_ExpiresAt b) t then av_ExpiresAt b else t"]
      by (auto simp: time_defs split: if_splits)
  }
qed (simp_all add: time_defs)

lemma earliest_in: "earliest t as = t \<or> (\<exists>a\<in>set as. earliest t as = av_ExpiresAt a)"
proof (induction as arbitrary: t)
  case (Cons b as)
  then show ?case
    using Cons.IH [of "if before (av_ExpiresAt b) t then av_ExpiresAt b else t"] by (auto split: if_splits)
qed simp

lemma distinct_tags:
  assumes "list_all (admitted s D d) es" and "distinct (map fst es)" and "es' = map snd es"
  shows "distinct (map av_AuthorityID es')" "distinct (map av_PrincipalTag es')" "distinct (map av_CredentialTag es')"
proof -
  have fst: "map av_AuthorityID es' = map fst es"
    using assms(1,3) by (auto simp: list_all_iff admitted_def split: prod.splits)
  then show "distinct (map av_AuthorityID es')" using assms(2) by simp
  have inj: "inj_on f (set es')" if "\<And>a. a \<in> set es' \<Longrightarrow> m (f a) = Some (av_AuthorityID a)" for f and m :: "string \<rightharpoonup> string"
    using that fst assms(2) by (intro inj_onI) (metis distinct_map inj_onD option.inject)
  have tags: "md_principals d (av_PrincipalTag a) = Some (av_AuthorityID a)"
      "md_credentials d (av_CredentialTag a) = Some (av_AuthorityID a)" if "a \<in> set es'" for a
    using that assms(1,3) by (auto simp: list_all_iff admitted_def split: prod.splits)
  have "distinct es'" using fst assms(2) by (metis distinct_map)
  then show "distinct (map av_PrincipalTag es')" "distinct (map av_CredentialTag es')"
    using inj [of "md_principals d", OF tags(1)] inj [of "md_credentials d", OF tags(2)] by (simp_all add: distinct_map)
qed

lemma select_subseq:
  assumes "distinct (map f cs)"
  shows "distinct (map f (select_approvals p cs))"
  using assms by (simp add: select_approvals_def take_map [symmetric] distinct_map)

lemma set_select: "set (select_approvals p cs) \<subseteq> set cs"
  using set_take_subset by (fastforce simp: select_approvals_def)

lemma length_select: "unat (vp_Threshold p) \<le> length cs \<Longrightarrow> length (select_approvals p cs) = unat (vp_Threshold p)"
  by (simp add: select_approvals_def)


section \<open>When an operation succeeds\<close>

lemma check_distinct_Inr:
  "check_distinct d a = Inr u \<longleftrightarrow> md_revocation d = None \<and> md_consumption d = None \<and>
     md_binding d = approval_binding a \<and> md_audience d = av_Audience a \<and>
     av_AuthorityID a \<notin> fst ` set (md_approvals d) \<and>
     \<not> taken (md_principals d) (av_PrincipalTag a) (av_AuthorityID a) \<and>
     \<not> taken (md_credentials d) (av_CredentialTag a) (av_AuthorityID a)"
  by (simp add: check_distinct_def map_of_eq_None_iff)

lemma validate_policy_at_Inr:
  "validate_policy_at p now = Inr u \<longleftrightarrow> validate_policy p \<and> \<not> is_zero now \<and> \<not> before now (vp_ValidFrom p) \<and>
     before now (vp_ExpiresAt p)"
  by (auto simp: validate_policy_at_def)

lemma validate_quorum_at_Inr:
  "validate_quorum_at q now = Inr u \<longleftrightarrow> validate_quorum q \<and> \<not> is_zero now \<and> \<not> before now (vq_ConsumedAt q) \<and>
     before now (vq_AcceptedUntil q)"
  by (auto simp: validate_quorum_at_def)

lemma append_approval_cases:
  assumes "append_approval s now p a = Inr (v, s')"
  obtains
    (retry) "qs_approvalsByID s (av_ApprovalID a) = Some v" "same_approval_proof v a" "s' = s"
  | (fresh) "validate_approval a" "validate_policy p" "av_PolicyDigest a = vp_PolicyDigest p"
      "av_Audience a = vp_Audience p" "policy_allows p (av_AuthorityID a)" "check_policy s p = Inr ()"
      "qs_approvalsByID s (av_ApprovalID a) = None" "live now a" "check_distinct (decision_for s a) a = Inr ()"
      "v = a" "s' = put_approval s p a"
proof -
  have base: "validate_approval a" "validate_policy p" "av_PolicyDigest a = vp_PolicyDigest p"
      "av_Audience a = vp_Audience p" "policy_allows p (av_AuthorityID a)" "check_policy s p = Inr ()"
    using assms by (auto simp: append_approval_def and_then_Inr_iff)
  show thesis
  proof (cases "qs_approvalsByID s (av_ApprovalID a)")
    case None
    with assms base have "live now a" "check_distinct (decision_for s a) a = Inr ()" "v = a" "s' = put_approval s p a"
      by (auto simp: append_approval_def and_then_Inr_iff live_def)
    with None base show thesis by (intro fresh)
  next
    case (Some old)
    with assms show thesis by (intro retry) (auto simp: append_approval_def and_then_Inr_iff split: if_splits)
  qed
qed

lemma consume_quorum_cases:
  assumes "consume_quorum visit s now p r = Inr (q, s')"
  obtains
    (retry) "qs_consumptionsByID s (cq_ConsumptionID r) = Some q" "quorum_matches q p r" "s' = s"
      "validate_quorum_at q now = Inr ()"
  | (fresh) d cs where "validate_consume_request r" "db_PolicyDigest (cq_Binding r) = vp_PolicyDigest p"
      "check_policy s p = Inr ()" "qs_consumptionsByID s (cq_ConsumptionID r) = None"
      "qs_decisions s (db_DecisionID (cq_Binding r)) = Some d" "md_revocation d = None" "md_consumption d = None"
      "validate_policy_at p now = Inr ()" "md_binding d = cq_Binding r" "md_audience d = vp_Audience p"
      "collect (cq_Binding r) p now (visit (md_approvals d)) = Inr cs" "unat (vp_Threshold p) \<le> length cs"
      "q = quorum_of p r now (earliest (vp_ExpiresAt p) (select_approvals p cs))"
      "validate_quorum_at q now = Inr ()" "s' = put_consumption s p d (select_approvals p cs) q"
proof (cases "qs_consumptionsByID s (cq_ConsumptionID r)")
  case (Some q')
  with assms show thesis
    by (intro retry) (auto simp: consume_quorum_def and_then_Inr_iff split: if_splits)
next
  case None
  with assms obtain d where d: "validate_consume_request r" "db_PolicyDigest (cq_Binding r) = vp_PolicyDigest p"
      "check_policy s p = Inr ()" "qs_decisions s (db_DecisionID (cq_Binding r)) = Some d"
      "consume_fresh visit s now p r d = Inr (q, s')"
    by (auto simp: consume_quorum_def and_then_Inr_iff split: option.splits)
  from d(5) obtain cs where "md_revocation d = None" "md_consumption d = None"
      "validate_policy_at p now = Inr ()" "md_binding d = cq_Binding r" "md_audience d = vp_Audience p"
      "collect (cq_Binding r) p now (visit (md_approvals d)) = Inr cs" "unat (vp_Threshold p) \<le> length cs"
      "q = quorum_of p r now (earliest (vp_ExpiresAt p) (select_approvals p cs))"
      "validate_quorum_at q now = Inr ()" "s' = put_consumption s p d (select_approvals p cs) q"
    by (auto simp: consume_fresh_def and_then_Inr_iff Let_def not_less)
  with d None show thesis by (intro fresh)
qed

lemma revoke_decision_cases:
  assumes "revoke_decision s r = Inr s'"
  obtains
    (retry) old where "qs_revocationsByID s (rv_RevocationID r) = Some old" "same_revocation old r" "s' = s"
  | (fresh) d where "qs_revocationsByID s (rv_RevocationID r) = None"
      "d = (case qs_decisions s (rv_DecisionID r) of None \<Rightarrow> new_decision no_binding [] | Some d \<Rightarrow> d)"
      "md_consumption d = None" "md_revocation d = None"
      "s' = s\<lparr>qs_decisions := (qs_decisions s)(rv_DecisionID r \<mapsto> d\<lparr>md_revocation := Some r\<rparr>),
              qs_revocationsByID := (qs_revocationsByID s)(rv_RevocationID r \<mapsto> r)\<rparr>"
  using assms by (auto simp: revoke_decision_def Let_def split: option.splits if_splits)


section \<open>What a store keeps\<close>

lemma store_policy_le: "qs_policies s \<subseteq>\<^sub>m qs_policies (store_policy s p)"
  by (simp add: store_policy_policies map_le_put)

lemma put_approval_fields:
  "qs_policies (put_approval s p a) = qs_policies (store_policy s p)"
  "qs_decisions (put_approval s p a) = (qs_decisions s)(av_DecisionID a \<mapsto> add_approval (decision_for s a) a)"
  "qs_approvalsByID (put_approval s p a) = (qs_approvalsByID s)(av_ApprovalID a \<mapsto> a)"
  "qs_consumptionsByID (put_approval s p a) = qs_consumptionsByID s"
  "qs_revocationsByID (put_approval s p a) = qs_revocationsByID s"
  by (simp_all add: put_approval_def Let_def)

lemma put_consumption_fields:
  "qs_policies (put_consumption s p d sel q) = qs_policies (store_policy s p)"
  "qs_decisions (put_consumption s p d sel q) = (qs_decisions s)(vq_DecisionID q \<mapsto>
     d\<lparr>md_selectedApprovalIDs := sort (map av_ApprovalID sel), md_consumption := Some q\<rparr>)"
  "qs_approvalsByID (put_consumption s p d sel q) = qs_approvalsByID s"
  "qs_consumptionsByID (put_consumption s p d sel q) = (qs_consumptionsByID s)(vq_ConsumptionID q \<mapsto> q)"
  "qs_revocationsByID (put_consumption s p d sel q) = qs_revocationsByID s"
  by (simp_all add: put_consumption_def Let_def)

lemma add_approval_fields [simp]:
  "md_binding (add_approval d a) = md_binding d" "md_audience (add_approval d a) = md_audience d"
  "md_approvals (add_approval d a) = md_approvals d @ [(av_AuthorityID a, a)]"
  "md_principals (add_approval d a) = (md_principals d)(av_PrincipalTag a \<mapsto> av_AuthorityID a)"
  "md_credentials (add_approval d a) = (md_credentials d)(av_CredentialTag a \<mapsto> av_AuthorityID a)"
  "md_consumption (add_approval d a) = md_consumption d" "md_revocation (add_approval d a) = md_revocation d"
  "md_selectedApprovalIDs (add_approval d a) = md_selectedApprovalIDs d"
  by (simp_all add: add_approval_def)

lemma append_approval_keeps:
  assumes "append_approval s now p a = Inr (v, s')"
  shows "keeps s s'"
  using assms
proof (cases rule: append_approval_cases)
  case fresh
  have "md_consumption (decision_for s a) = None \<and> md_revocation (decision_for s a) = None"
    using fresh(9) by (simp add: check_distinct_Inr)
  then show ?thesis
    using fresh(7,11) store_policy_le [of s p]
    by (auto simp: keeps_def put_approval_fields map_le_put decision_for_def)
qed simp

lemma consume_quorum_keeps:
  assumes "consume_quorum visit s now p r = Inr (q, s')"
  shows "keeps s s'"
  using assms
proof (cases rule: consume_quorum_cases)
  case (fresh d cs)
  then have "vq_DecisionID q = db_DecisionID (cq_Binding r)" "vq_ConsumptionID q = cq_ConsumptionID r"
    by (simp_all add: quorum_of_def)
  then show ?thesis
    using fresh(4-7,15) store_policy_le [of s p]
    by (auto simp: keeps_def put_consumption_fields map_le_put)
qed simp

lemma revoke_decision_keeps:
  assumes "revoke_decision s r = Inr s'"
  shows "keeps s s'"
  using assms
proof (cases rule: revoke_decision_cases)
  case (fresh d)
  then show ?thesis
    by (auto simp: keeps_def map_le_put split: option.splits)
qed simp

lemma quorum_step_keeps: "quorum_step visit s op s' \<Longrightarrow> keeps s s'"
  by (cases op) (auto intro: append_approval_keeps consume_quorum_keeps revoke_decision_keeps)

interpretation quorum_kept: preserved "quorum_step visit" "keeps s\<^sub>0" for visit s\<^sub>0
  by unfold_locales (blast intro: keeps_trans quorum_step_keeps)

lemma run_keeps_quorum: "run (quorum_step visit) s ops s' \<Longrightarrow> keeps s s'"
  using quorum_kept.run_keeps keeps_refl by blast

section \<open>Preservation\<close>

text \<open>Replacing one decision, with every record kept.\<close>

lemma quorum_ok_update:
  assumes "quorum_ok s" and "keeps s s'"
    and "\<And>D. D \<noteq> D\<^sub>0 \<Longrightarrow> qs_decisions s' D = qs_decisions s D" and "qs_decisions s' D\<^sub>0 = Some d"
    and "decision_ok s' D\<^sub>0 d"
    and "\<And>g p. qs_policies s' g = Some p \<Longrightarrow> qs_policies s g = None \<Longrightarrow> vp_PolicyDigest p = g \<and> validate_policy p"
    and "\<And>c q. qs_consumptionsByID s' c = Some q \<Longrightarrow> qs_consumptionsByID s c = None \<Longrightarrow>
      vq_ConsumptionID q = c \<and> vq_DecisionID q = D\<^sub>0 \<and> md_consumption d = Some q"
    and "\<And>x a. qs_approvalsByID s' x = Some a \<Longrightarrow> qs_approvalsByID s x = None \<Longrightarrow>
      av_ApprovalID a = x \<and> av_DecisionID a = D\<^sub>0 \<and> (av_AuthorityID a, a) \<in> set (md_approvals d)"
    and "\<And>x v. qs_revocationsByID s' x = Some v \<Longrightarrow> qs_revocationsByID s x = None \<Longrightarrow>
      rv_DecisionID v = D\<^sub>0 \<and> md_revocation d = Some v"
  shows "quorum_ok s'"
  unfolding quorum_ok_def
proof (intro conjI allI impI)
  fix g p assume "qs_policies s' g = Some p"
  then show "vp_PolicyDigest p = g" "validate_policy p"
    using assms(1,2,6) map_le_lookup [of "qs_policies s" "qs_policies s'" g]
    by (cases "qs_policies s g"; auto simp: quorum_ok_def keeps_def)+
next
  fix D e assume "qs_decisions s' D = Some e"
  then show "decision_ok s' D e"
    using assms(1,3-5) decision_ok_keeps [OF _ assms(2)] by (cases "D = D\<^sub>0") (auto simp: quorum_ok_def)
next
  fix c q assume c: "qs_consumptionsByID s' c = Some q"
  have "vq_ConsumptionID q = c \<and> (\<exists>d. qs_decisions s' (vq_DecisionID q) = Some d \<and> md_consumption d = Some q)"
  proof (cases "qs_consumptionsByID s c")
    case None
    then show ?thesis using assms(4) assms(7) [of c q] c by auto
  next
    case (Some q')
    then have "qs_consumptionsByID s c = Some q"
      using c assms(2) map_le_lookup [of "qs_consumptionsByID s" "qs_consumptionsByID s'" c q'] by (simp add: keeps_def)
    then obtain e where "vq_ConsumptionID q = c" "qs_decisions s (vq_DecisionID q) = Some e" "md_consumption e = Some q"
      using assms(1) unfolding quorum_ok_def by blast
    then show ?thesis
      using assms(2) unfolding keeps_def by (metis option.distinct(1))
  qed
  then show "vq_ConsumptionID q = c" "\<exists>d. qs_decisions s' (vq_DecisionID q) = Some d \<and> md_consumption d = Some q"
    by auto
next
  fix x a assume x: "qs_approvalsByID s' x = Some a"
  have "av_ApprovalID a = x \<and>
      (\<exists>d. qs_decisions s' (av_DecisionID a) = Some d \<and> (av_AuthorityID a, a) \<in> set (md_approvals d))"
  proof (cases "qs_approvalsByID s x")
    case None
    then show ?thesis using assms(4) assms(8) [of x a] x by auto
  next
    case (Some a')
    then have "qs_approvalsByID s x = Some a"
      using x assms(2) map_le_lookup [of "qs_approvalsByID s" "qs_approvalsByID s'" x a'] by (simp add: keeps_def)
    then obtain e where "av_ApprovalID a = x" "qs_decisions s (av_DecisionID a) = Some e"
        "(av_AuthorityID a, a) \<in> set (md_approvals e)"
      using assms(1) unfolding quorum_ok_def by blast
    then show ?thesis
      using assms(2) unfolding keeps_def by (meson subsetD)
  qed
  then show "av_ApprovalID a = x"
      "\<exists>d. qs_decisions s' (av_DecisionID a) = Some d \<and> (av_AuthorityID a, a) \<in> set (md_approvals d)"
    by auto
next
  fix x v assume x: "qs_revocationsByID s' x = Some v"
  show "\<exists>d. qs_decisions s' (rv_DecisionID v) = Some d \<and> md_revocation d = Some v"
  proof (cases "qs_revocationsByID s x")
    case None
    then show ?thesis using assms(4) assms(9) [of x v] x by auto
  next
    case (Some v')
    then have "qs_revocationsByID s x = Some v"
      using x assms(2) map_le_lookup [of "qs_revocationsByID s" "qs_revocationsByID s'" x v'] by (simp add: keeps_def)
    then obtain e where "qs_decisions s (rv_DecisionID v) = Some e" "md_revocation e = Some v"
      using assms(1) unfolding quorum_ok_def by blast
    then show ?thesis
      using assms(2) unfolding keeps_def by (metis option.distinct(1))
  qed
qed


lemma new_decision_ok: "decision_ok s D (new_decision b u)"
  by (simp add: decision_ok_def new_decision_def)

lemma decision_for_ok: "quorum_ok s \<Longrightarrow> decision_ok s (av_DecisionID a) (decision_for s a)"
  by (auto simp: decision_for_def quorum_ok_def new_decision_ok split: option.splits)

lemma add_approval_ok:
  assumes ok: "decision_ok s D d" and "check_distinct d a = Inr u" and "validate_approval a" and "av_DecisionID a = D"
    and "qs_policies s (av_PolicyDigest a) = Some p" and "policy_allows p (av_AuthorityID a)"
  shows "decision_ok s D (add_approval d a)"
proof -
  note new = assms(2) [unfolded check_distinct_Inr]
  have adm: "admitted s D (add_approval d a) e" if "e \<in> set (md_approvals d)" for e
  proof -
    obtain i b where e: "e = (i, b)" by (cases e)
    have old: "admitted s D d (i, b)" using ok that e by (simp add: decision_ok_def list_all_iff)
    have "i \<noteq> av_AuthorityID a" using new that e by force
    then have "av_PrincipalTag b \<noteq> av_PrincipalTag a" "av_CredentialTag b \<noteq> av_CredentialTag a"
      using old new by (auto simp: admitted_def taken_def)
    with old show ?thesis by (simp add: admitted_def e)
  qed
  moreover have "admitted s D (add_approval d a) (av_AuthorityID a, a)"
    using new assms(3-6) by (auto simp: admitted_def)
  ultimately show ?thesis
    using ok new unfolding decision_ok_def by (auto simp: list_all_iff)
qed

lemma append_approval_ok:
  assumes "append_approval s now p a = Inr (v, s')" and "quorum_ok s"
  shows "quorum_ok s'"
  using assms(1)
proof (cases rule: append_approval_cases)
  case retry
  then show ?thesis using assms(2) by simp
next
  case fresh
  note keep = append_approval_keeps [OF assms(1)]
  note s' = fresh(11)
  obtain p' where p': "qs_policies (store_policy s p) (vp_PolicyDigest p) = Some p'" "same_policy p' p"
    by (rule store_policy_lookup [OF fresh(6)])
  have "decision_ok s' (av_DecisionID a) (decision_for s a)"
    by (rule decision_ok_keeps [OF decision_for_ok [OF assms(2)] keep])
  then have d: "decision_ok s' (av_DecisionID a) (add_approval (decision_for s a) a)"
    by (rule add_approval_ok [OF _ fresh(9,1) refl, where p = p'])
      (use p' fresh(3,5) same_policy_allows [OF p'(2)] in \<open>simp_all add: s' put_approval_fields\<close>)
  show ?thesis
  proof (rule quorum_ok_update [OF assms(2) keep, where D\<^sub>0 = "av_DecisionID a", OF _ _ d])
    fix g x assume "qs_policies s' g = Some x" "qs_policies s g = None"
    then show "vp_PolicyDigest x = g \<and> validate_policy x"
      using fresh(2) by (auto simp: s' put_approval_fields store_policy_policies split: if_splits)
  qed (auto simp: s' put_approval_fields split: if_splits)
qed

lemma revoke_decision_ok:
  assumes "revoke_decision s r = Inr s'" and "quorum_ok s"
  shows "quorum_ok s'"
  using assms(1)
proof (cases rule: revoke_decision_cases)
  case retry
  then show ?thesis using assms(2) by simp
next
  case (fresh d)
  note keep = revoke_decision_keeps [OF assms(1)]
  have "decision_ok s (rv_DecisionID r) d"
    using assms(2) fresh(2) by (auto simp: quorum_ok_def new_decision_ok split: option.splits)
  then have "decision_ok s' (rv_DecisionID r) d"
    by (rule decision_ok_keeps [OF _ keep])
  then have d: "decision_ok s' (rv_DecisionID r) (d\<lparr>md_revocation := Some r\<rparr>)"
    using fresh(3,5) by (auto simp: decision_ok_def list_all_iff admitted_def split: prod.splits)
  show ?thesis
    by (rule quorum_ok_update [OF assms(2) keep, where D\<^sub>0 = "rv_DecisionID r", OF _ _ d])
      (auto simp: fresh(5) split: if_splits)
qed

lemma lawful_set: "lawful visit \<Longrightarrow> set (visit xs) = set xs"
  unfolding lawful_def by (metis set_mset_mset)

text \<open>The candidates of a consumption are the live approvals.\<close>

lemma collect_live:
  assumes "lawful visit" and "quorum_ok s" and "check_policy s p = Inr u" and "qs_decisions s D = Some d"
    and "md_binding d = b" and "md_audience d = vp_Audience p" and "db_PolicyDigest b = vp_PolicyDigest p"
  shows "collect b p now (visit (md_approvals d)) = Inr (filter (live now) (map snd (visit (md_approvals d))))"
proof (rule collect_admitted)
  have "decision_ok s D d" using assms(2,4) by (simp add: quorum_ok_def)
  then show "admitted s D d e" if "e \<in> set (visit (md_approvals d))" for e
    using that lawful_set [OF assms(1)] by (simp add: decision_ok_def list_all_iff)
  show "same_policy p' p" if "qs_policies s (db_PolicyDigest b) = Some p'" for p'
    using that assms(3,7) by (simp add: check_policy_def split: if_splits)
qed (use assms in auto)


lemma visited_tags:
  assumes "lawful visit" and "decision_ok s D d"
  shows "distinct (map av_AuthorityID (filter P (map snd (visit (md_approvals d)))))"
    and "distinct (map av_PrincipalTag (filter P (map snd (visit (md_approvals d)))))"
    and "distinct (map av_CredentialTag (filter P (map snd (visit (md_approvals d)))))"
proof -
  let ?es = "visit (md_approvals d)"
  have "mset (map fst ?es) = mset (map fst (md_approvals d))"
    using assms(1) by (simp add: lawful_def)
  then have "distinct (map fst ?es)"
    using assms(2) unfolding decision_ok_def by (metis mset_eq_imp_distinct_iff)
  moreover have "list_all (admitted s D d) ?es"
    using assms(2) lawful_set [OF assms(1)] by (simp add: decision_ok_def list_all_iff)
  ultimately show "distinct (map av_AuthorityID (filter P (map snd ?es)))"
      "distinct (map av_PrincipalTag (filter P (map snd ?es)))" "distinct (map av_CredentialTag (filter P (map snd ?es)))"
    using distinct_tags [of s D d ?es "map snd ?es"] distinct_map_filter [where P = P and xs = "map snd ?es"] by blast+
qed

lemma consume_evidence:
  assumes "lawful visit" and "quorum_ok s" and "consume_quorum visit s now p r = Inr (q, s')"
    and "qs_consumptionsByID s (cq_ConsumptionID r) = None"
  obtains d sel where "qs_decisions s (vq_DecisionID q) = Some d" and "md_revocation d = None" and "md_consumption d = None"
    and "s' = put_consumption s p d sel q" and "validate_quorum q" and "vq_ConsumptionID q = cq_ConsumptionID r"
    and "validate_policy p"
    and "evidence s' (d\<lparr>md_selectedApprovalIDs := sort (map av_ApprovalID sel), md_consumption := Some q\<rparr>) q sel"
  using assms(3)
proof (cases rule: consume_quorum_cases)
  case retry
  then show thesis using assms(4) by simp
next
  case (fresh d cs)
  let ?D = "db_DecisionID (cq_Binding r)"
  define sel where "sel = select_approvals p cs"
  have cs: "cs = filter (live now) (map snd (visit (md_approvals d)))"
    using collect_live [OF assms(1,2) fresh(3,5,9,10,2), of now] fresh(11) by simp
  have d: "decision_ok s ?D d" using assms(2) fresh(5) by (simp add: quorum_ok_def)
  have q: "vq_DecisionID q = ?D" "vq_ConsumptionID q = cq_ConsumptionID r" "vq_Threshold q = vp_Threshold p"
      "vq_ConsumedAt q = now" "vq_AcceptedUntil q = earliest (vp_ExpiresAt p) sel" "vq_PolicyDigest q = vp_PolicyDigest p"
      "vq_OperationDigest q = db_OperationDigest (cq_Binding r)" "vq_Audience q = vp_Audience p"
    using fresh(2,13) by (simp_all add: quorum_of_def sel_def)
  have s': "s' = put_consumption s p d sel q" using fresh(15) by (simp add: sel_def)
  have val: "validate_quorum q" "validate_policy p" using fresh(8,14) by (auto simp: validate_quorum_at_Inr validate_policy_at_Inr)
  have subset: "set sel \<subseteq> set cs" by (simp add: sel_def set_select)
  have adm: "admitted s ?D d (av_AuthorityID a, a) \<and> live now a \<and> a \<in> snd ` set (md_approvals d)" if "a \<in> set sel" for a
  proof -
    have "a \<in> snd ` set (md_approvals d)" and live: "live now a"
      using that subset lawful_set [OF assms(1)] by (auto simp: cs)
    then obtain i where i: "(i, a) \<in> set (md_approvals d)" by auto
    then have adm: "admitted s ?D d (i, a)" using d by (simp add: decision_ok_def list_all_iff)
    then have "i = av_AuthorityID a" by (simp add: admitted_def)
    with i adm live show ?thesis by force
  qed
  obtain p' where p': "qs_policies (store_policy s p) (vp_PolicyDigest p) = Some p'" "same_policy p' p"
    by (rule store_policy_lookup [OF fresh(3)])
  have pol: "av_PolicyDigest a = vp_PolicyDigest p" "policy_allows p' (av_AuthorityID a)" if "a \<in> set sel" for a
  proof -
    have b: "approval_binding a = cq_Binding r" using adm [OF that] fresh(9) by (simp add: admitted_def)
    then show "av_PolicyDigest a = vp_PolicyDigest p" using fresh(2) approval_bindingD by metis
    then show "policy_allows p' (av_AuthorityID a)"
      using adm [OF that] p'(1) map_le_lookup [OF store_policy_le, of s "vp_PolicyDigest p" _ p] by (auto simp: admitted_def)
  qed
  let ?d = "d\<lparr>md_selectedApprovalIDs := sort (map av_ApprovalID sel), md_consumption := Some q\<rparr>"
  have "\<forall>a\<in>set sel. live now a \<and> \<not> after (earliest (vp_ExpiresAt p) sel) (av_ExpiresAt a) \<and>
      av_DecisionID a = ?D \<and> av_PolicyDigest a = vp_PolicyDigest p \<and>
      av_OperationDigest a = db_OperationDigest (cq_Binding r) \<and> av_Audience a = vp_Audience p"
    using adm pol fresh(9,10) earliest_le(2) approval_bindingD [of _ "cq_Binding r"] by (auto simp: admitted_def)
  moreover have "length sel = unat (vp_Threshold p)" "0 < unat (vp_Threshold p)"
    using fresh(12) val(2) length_select
    by (auto simp: sel_def validate_policy_def validate_policy_definition_def unat_gt_0)
  moreover have "distinct (map av_AuthorityID sel)" "distinct (map av_PrincipalTag sel)" "distinct (map av_CredentialTag sel)"
    unfolding sel_def by (rule select_subseq, use visited_tags [OF assms(1) d, of "live now"] cs in simp)+
  ultimately have ev: "evidence s' ?d q sel"
    unfolding evidence_def using q adm pol p' s'
    by (auto simp: put_consumption_fields same_policy_def)
  show thesis
    by (rule that [OF _ fresh(6,7) s' val(1) q(2) val(2) ev]) (simp add: q(1) fresh(5))
qed

lemma consume_quorum_ok:
  assumes "lawful visit" and "consume_quorum visit s now p r = Inr (q, s')" and "quorum_ok s"
  shows "quorum_ok s'"
proof (cases "qs_consumptionsByID s (cq_ConsumptionID r)")
  case (Some q')
  then have "s' = s" using assms(2) by (auto elim: consume_quorum_cases)
  then show ?thesis using assms(3) by simp
next
  case None
  obtain d sel where d: "qs_decisions s (vq_DecisionID q) = Some d" "md_revocation d = None" "md_consumption d = None"
      "s' = put_consumption s p d sel q" "validate_quorum q" "vq_ConsumptionID q = cq_ConsumptionID r" "validate_policy p"
      "evidence s' (d\<lparr>md_selectedApprovalIDs := sort (map av_ApprovalID sel), md_consumption := Some q\<rparr>) q sel"
    by (rule consume_evidence [OF assms(1,3,2) None])
  note keep = consume_quorum_keeps [OF assms(2)]
  let ?d = "d\<lparr>md_selectedApprovalIDs := sort (map av_ApprovalID sel), md_consumption := Some q\<rparr>"
  have "decision_ok s (vq_DecisionID q) d" using assms(3) d(1) by (simp add: quorum_ok_def)
  then have "decision_ok s' (vq_DecisionID q) d" by (rule decision_ok_keeps [OF _ keep])
  moreover have "qs_consumptionsByID s' (vq_ConsumptionID q) = Some q" by (simp add: d(4) put_consumption_fields)
  ultimately have ok: "decision_ok s' (vq_DecisionID q) ?d"
    using d(2,5,8) by (auto simp: decision_ok_def list_all_iff admitted_def split: prod.splits)
  show ?thesis
  proof (rule quorum_ok_update [OF assms(3) keep, where D\<^sub>0 = "vq_DecisionID q", OF _ _ ok])
    fix g x assume "qs_policies s' g = Some x" "qs_policies s g = None"
    then show "vp_PolicyDigest x = g \<and> validate_policy x"
      using d(7) by (auto simp: d(4) put_consumption_fields store_policy_policies split: if_splits)
  qed (auto simp: d(4) put_consumption_fields split: if_splits)
qed

lemma quorum_step_ok:
  assumes "lawful visit" and "quorum_step visit s op s'" and "quorum_ok s"
  shows "quorum_ok s'"
  using assms(2,3) consume_quorum_ok [OF assms(1)]
  by (cases op) (auto intro: append_approval_ok revoke_decision_ok)

lemma run_quorum_ok:
  assumes "lawful visit" and "run (quorum_step visit) s ops s'" and "quorum_ok s"
  shows "quorum_ok s'"
  using assms(2,3) by (induction rule: run.induct) (auto intro: quorum_step_ok [OF assms(1)])

end
