(* ===== verification/Quorum_Progress.thy ===== *)
theory Quorum_Progress
  imports Quorum_Invariant
begin

text \<open>
  When a quorum is granted, independently of the order of Go's maps; what a policy digest binds; and
  retries.
\<close>

section \<open>The selected approvals do not depend on the visiting order\<close>

lemma rank_inj: "inj_on av_AuthorityID (set xs) \<Longrightarrow> inj_on rank (set xs)"
  by (auto simp: inj_on_def rank_def)

lemma select_visit:
  assumes "lawful visit" and "decision_ok s D d"
  shows "select_approvals p (filter P (map snd (visit (md_approvals d)))) =
    select_approvals p (filter P (map snd (md_approvals d)))"
proof -
  let ?v = "filter P (map snd (visit (md_approvals d)))" and ?w = "filter P (map snd (md_approvals d))"
  have "mset (visit (md_approvals d)) = mset (md_approvals d)" using assms(1) by (simp add: lawful_def)
  then have mset: "mset ?v = mset ?w" by simp
  have "inj_on rank (set ?v)"
    using visited_tags(1) [OF assms, of P] by (intro rank_inj) (simp add: distinct_map)
  moreover have "sorted (map rank (sort_key rank ?w))" by simp
  ultimately have "sort_key rank ?v = sort_key rank ?w"
    using mset by (intro sort_key_inj_key_eq) simp_all
  then show ?thesis by (simp add: select_approvals_def)
qed

lemma length_visit: "lawful visit \<Longrightarrow> length (filter P (map snd (visit xs))) = length (filter P (map snd xs))"
  unfolding lawful_def by (metis mset_filter mset_map size_mset)

section \<open>Granting a quorum\<close>

text \<open>A decision on which a consumption is decided by the approvals alone.\<close>

definition ready :: "quorum_store \<Rightarrow> gotime \<Rightarrow> verified_policy \<Rightarrow> consume_request \<Rightarrow> memory_decision \<Rightarrow> bool" where
  "ready s now p r d \<longleftrightarrow> validate_consume_request r \<and> db_PolicyDigest (cq_Binding r) = vp_PolicyDigest p \<and>
     check_policy s p = Inr () \<and> validate_policy_at p now = Inr () \<and>
     qs_consumptionsByID s (cq_ConsumptionID r) = None \<and> qs_decisions s (db_DecisionID (cq_Binding r)) = Some d \<and>
     md_revocation d = None \<and> md_consumption d = None \<and> md_binding d = cq_Binding r \<and> md_audience d = vp_Audience p"

definition live_approvals :: "memory_decision \<Rightarrow> gotime \<Rightarrow> approval list" where
  "live_approvals d now = filter (live now) (map snd (md_approvals d))"

definition granted :: "verified_policy \<Rightarrow> consume_request \<Rightarrow> gotime \<Rightarrow> memory_decision \<Rightarrow> verified_quorum" where
  "granted p r now d = quorum_of p r now (earliest (vp_ExpiresAt p) (select_approvals p (live_approvals d now)))"

lemma threshold_bound:
  assumes "validate_policy p"
  shows "0 < vp_Threshold p" and "\<not> of_nat MaxAuthorities < vp_Threshold p"
proof -
  have "vp_Threshold p \<noteq> 0" "unat (vp_Threshold p) \<le> 128"
    using assms by (auto simp: validate_policy_def validate_policy_definition_def MaxAuthorities_def)
  then show "0 < vp_Threshold p" "\<not> of_nat MaxAuthorities < vp_Threshold p"
    by (simp_all add: word_less_nat_alt unat_gt_0 MaxAuthorities_def)
qed

lemma granted_valid:
  assumes "quorum_ok s" and "ready s now p r d"
  shows "before now (vq_AcceptedUntil (granted p r now d))" and "validate_quorum_at (granted p r now d) now = Inr ()"
proof -
  let ?sel = "select_approvals p (live_approvals d now)"
  let ?u = "earliest (vp_ExpiresAt p) ?sel"
  have pol: "validate_policy p" "\<not> is_zero now" "before now (vp_ExpiresAt p)"
    using assms(2) by (auto simp: ready_def validate_policy_at_Inr)
  have dok: "decision_ok s (db_DecisionID (cq_Binding r)) d"
    using assms by (simp add: ready_def quorum_ok_def)
  have sel: "live now a \<and> validate_approval a" if "a \<in> set ?sel" for a
  proof -
    have "a \<in> set (live_approvals d now)" using that set_select by blast
    then obtain k where "(k, a) \<in> set (md_approvals d)" and l: "live now a" by (auto simp: live_approvals_def)
    then have "admitted s (db_DecisionID (cq_Binding r)) d (k, a)" using dok by (auto simp: decision_ok_def list_all_iff)
    with l show ?thesis by (simp add: admitted_def)
  qed
  have "before now (vp_ExpiresAt p) \<and> \<not> is_zero (vp_ExpiresAt p)"
    using pol by (simp add: validate_policy_def validate_policy_definition_def)
  moreover have "before now (av_ExpiresAt a) \<and> \<not> is_zero (av_ExpiresAt a)" if "a \<in> set ?sel" for a
    using sel [OF that] by (simp add: live_def validate_approval_def)
  ultimately have u: "before now ?u" "\<not> is_zero ?u"
    using earliest_in [of "vp_ExpiresAt p" ?sel] by metis+
  then show "before now (vq_AcceptedUntil (granted p r now d))"
    by (simp add: granted_def quorum_of_def)
  have "validate_quorum (granted p r now d)"
    using u pol assms(2) threshold_bound [OF pol(1)]
    by (auto simp: granted_def quorum_of_def validate_quorum_def ready_def validate_consume_request_def validate_binding_def
        validate_policy_def validate_policy_definition_def time_defs)
  then show "validate_quorum_at (granted p r now d) now = Inr ()"
    using u pol by (simp add: validate_quorum_at_Inr granted_def quorum_of_def)
qed

lemma consume_ready:
  assumes "lawful visit" and "quorum_ok s" and "ready s now p r d"
  shows "consume_quorum visit s now p r =
    (if length (live_approvals d now) < unat (vp_Threshold p) then Inl ErrBelowThreshold
     else Inr (granted p r now d,
       put_consumption s p d (select_approvals p (live_approvals d now)) (granted p r now d)))"
proof -
  note r = assms(3) [unfolded ready_def]
  have dok: "decision_ok s (db_DecisionID (cq_Binding r)) d"
    using assms(2) r by (simp add: quorum_ok_def)
  have "collect (cq_Binding r) p now (visit (md_approvals d)) = Inr (filter (live now) (map snd (visit (md_approvals d))))"
    using r by (intro collect_live [OF assms(1,2), where u = "()" and D = "db_DecisionID (cq_Binding r)"]) auto
  moreover have "validate_policy p" using r by (simp add: validate_policy_at_Inr)
  ultimately show ?thesis
    using r granted_valid [OF assms(2,3)] select_visit [OF assms(1) dok, of p "live now"]
      length_visit [OF assms(1), of "live now" "md_approvals d"]
    by (simp add: consume_quorum_def consume_fresh_def Let_def live_approvals_def granted_def quorum_of_def)
qed

section \<open>Policy digests\<close>

definition get_prefixed :: "bytes \<Rightarrow> (string \<times> bytes) option" where
  "get_prefixed bs =
     (case get_be 4 bs of None \<Rightarrow> None
      | Some (n, r) \<Rightarrow> if n \<le> length r then Some (take n r, drop n r) else None)"

interpretation prefixed_wire: wire_format write_length_prefixed get_prefixed "\<lambda>s. length s < 256 ^ 4" "\<lambda>s. s"
  by unfold_locales (simp add: write_length_prefixed_def get_prefixed_def get_be_be)

lemma add_bytes_unique:
  assumes "add_bytes f @ r = add_bytes g @ r'"
    and "length (fst f) < 256 ^ 4" "length (snd f) < 256 ^ 4" "length (fst g) < 256 ^ 4" "length (snd g) < 256 ^ 4"
  shows "f = g \<and> r = r'"
proof -
  have eq: "write_length_prefixed (fst f) @ (write_length_prefixed (snd f) @ r) =
      write_length_prefixed (fst g) @ (write_length_prefixed (snd g) @ r')"
    using assms(1) by (simp add: add_bytes_def)
  from prefixed_wire.put_unique [OF this assms(2,4)] have "fst f = fst g"
      "write_length_prefixed (snd f) @ r = write_length_prefixed (snd g) @ r'" by auto
  with prefixed_wire.put_unique [OF this(2) assms(3,5)] show ?thesis by (simp add: prod_eq_iff)
qed

lemma add_bytes_nonempty: "add_bytes f \<noteq> []"
  by (metis add_bytes_def append_is_Nil_conv length_0_conv length_be write_length_prefixed_def zero_neq_numeral)

definition short_fields :: "(string \<times> bytes) list \<Rightarrow> bool" where
  "short_fields fs \<longleftrightarrow> list_all (\<lambda>f. length (fst f) < 256 ^ 4 \<and> length (snd f) < 256 ^ 4) fs"

lemma fields_unique:
  "concat (map add_bytes fs) = concat (map add_bytes gs) \<Longrightarrow> short_fields fs \<Longrightarrow> short_fields gs \<Longrightarrow> fs = gs"
proof (induction fs arbitrary: gs)
  case Nil
  then show ?case using add_bytes_nonempty by (cases gs) auto
next
  case (Cons f fs)
  then obtain g gs' where gs: "gs = g # gs'" using add_bytes_nonempty by (cases gs) auto
  then have "f = g \<and> concat (map add_bytes fs) = concat (map add_bytes gs')"
    using Cons.prems by (intro add_bytes_unique) (auto simp: short_fields_def)
  with Cons gs show ?case by (auto simp: short_fields_def)
qed

lemma quorum_transcript_unique:
  "quorum_transcript u fs = quorum_transcript u gs \<Longrightarrow> short_fields fs \<Longrightarrow> short_fields gs \<Longrightarrow> fs = gs"
  using fields_unique by (simp add: quorum_transcript_def)

lemma quorum_validate_digest_length: "quorum_validate_digest s \<Longrightarrow> length s = 71"
  by (simp add: quorum_validate_digest_def sha256_prefix_def)

lemma quorum_text_length: "quorum_text n s \<Longrightarrow> length s \<le> n"
  by (simp add: quorum_text_def)

lemma length_format_word: "length (format_uint (unat (w :: 'a :: len word))) \<le> LENGTH('a)"
proof (rule length_format_uint)
  have "unat w < 2 ^ LENGTH('a)" by (rule unsigned_less)
  also have "\<dots> \<le> 10 ^ LENGTH('a)" by (rule power_mono) simp_all
  finally show "unat w < 10 ^ LENGTH('a)" .
qed simp

lemma policy_fields_short:
  assumes "validate_policy p" and "marshals_text (vp_ValidFrom p)" and "marshals_text (vp_ExpiresAt p)"
  shows "short_fields (policy_fields p)"
proof -
  have b: "length s < 256 ^ 4" if "length s \<le> 512" for s :: string using that by simp
  have d: "validate_policy_definition p" "vp_Schema p = PolicySchemaV1" using assms(1) by (simp_all add: validate_policy_def)
  have "length (vp_PolicyID p) \<le> 512" "length (vp_Audience p) \<le> 512" "length (vp_AuthorityMapDigest p) \<le> 512"
      "list_all (\<lambda>i. length i \<le> 512) (vp_AuthorityIDs p)"
    using d quorum_text_length [of 256] quorum_text_length [of 512] quorum_validate_digest_length
    by (fastforce simp: validate_policy_definition_def quorum_validate_id_def validate_audience_def
        quorum_max_id_bytes_def max_audience_bytes_def list_all_iff)+
  moreover have "length (rfc3339_nano (vp_ValidFrom p)) \<le> 512" "length (rfc3339_nano (vp_ExpiresAt p)) \<le> 512"
    using length_rfc3339_nano assms(2,3) by fastforce+
  moreover have "length (format_uint (unat (vp_Epoch p))) \<le> 512" "length (format_uint (unat (vp_Threshold p))) \<le> 512"
    using length_format_word [of "vp_Epoch p"] length_format_word [of "vp_Threshold p"] by simp_all
  ultimately show ?thesis
    using d(2) by (auto simp: short_fields_def policy_fields_def b PolicySchemaV1_def list_all_iff)
qed

text \<open>
  Two valid policies with one digest have one content: every field agrees, the validity times up to
  the text they are rendered with, unless two distinct transcripts collide under SHA-256.
\<close>

definition same_policy_content :: "verified_policy \<Rightarrow> verified_policy \<Rightarrow> bool" where
  "same_policy_content p q \<longleftrightarrow>
     vp_PolicyID p = vp_PolicyID q \<and> vp_Audience p = vp_Audience q \<and>
     vp_AuthorityMapDigest p = vp_AuthorityMapDigest q \<and> vp_Epoch p = vp_Epoch q \<and>
     vp_AuthorityIDs p = vp_AuthorityIDs q \<and> vp_Threshold p = vp_Threshold q \<and>
     rfc3339_nano (vp_ValidFrom p) = rfc3339_nano (vp_ValidFrom q) \<and>
     rfc3339_nano (vp_ExpiresAt p) = rfc3339_nano (vp_ExpiresAt q)"

lemma policy_fields_inj:
  assumes "policy_fields p = policy_fields q"
  shows "same_policy_content p q"
proof -
  have "vp_AuthorityIDs r = map snd (drop 8 (policy_fields r))" for r by (simp add: policy_fields_def comp_def)
  then have "vp_AuthorityIDs p = vp_AuthorityIDs q" using assms by metis
  then show ?thesis
    using assms by (auto simp: policy_fields_def same_policy_content_def word_unat_eq_iff dest: format_uint_inj)
qed

lemma policy_digest_unique:
  assumes "validate_policy p" "validate_policy q" and "vp_PolicyDigest p = vp_PolicyDigest q"
    and "marshals_text (vp_ValidFrom p)" "marshals_text (vp_ExpiresAt p)"
    and "marshals_text (vp_ValidFrom q)" "marshals_text (vp_ExpiresAt q)"
  shows "same_policy_content p q \<or>
    sha256_collision (quorum_transcript policy_digest_domain (policy_fields p))
      (quorum_transcript policy_digest_domain (policy_fields q))"
proof -
  have "sha256_text (quorum_transcript policy_digest_domain (policy_fields p)) =
      sha256_text (quorum_transcript policy_digest_domain (policy_fields q))"
    using assms(1-3) by (simp add: validate_policy_def compute_policy_digest_def)
  from sha256_text_inj [OF this] show ?thesis
    using quorum_transcript_unique policy_fields_short policy_fields_inj assms by blast
qed

end
