(* ===== verification/Quorum_Properties.thy ===== *)
theory Quorum_Properties
  imports Quorum_Progress
begin

text \<open>
  What an authority quorum guarantees, over every history of the store of \<^verbatim>\<open>pkg/authorityquorum\<close>; each
  property is applied to one history, in which two of three authorities approve a decision that is
  then consumed, or revoked.
\<close>

section \<open>Shared consequences of the invariant\<close>

lemma consumed_decision:
  assumes "quorum_ok s" and "consume_quorum visit s now p r = Inr (q, s')"
  obtains d where "qs_decisions s' (db_DecisionID (cq_Binding r)) = Some d" and "md_consumption d = Some q"
  using assms(2)
proof (cases rule: consume_quorum_cases)
  case retry
  then obtain d where "qs_decisions s (vq_DecisionID q) = Some d" "md_consumption d = Some q"
    using assms(1) unfolding quorum_ok_def by blast
  with retry that show thesis by (simp add: quorum_matches_def)
next
  case (fresh d cs)
  then have "vq_DecisionID q = db_DecisionID (cq_Binding r)" by (simp add: quorum_of_def)
  with fresh(15) show thesis
    using that [of "d\<lparr>md_selectedApprovalIDs := sort (map av_ApprovalID (select_approvals p cs)), md_consumption := Some q\<rparr>"]
    by (simp add: put_consumption_fields)
qed

lemma revoked_decision:
  assumes "quorum_ok s" and "revoke_decision s v = Inr s'"
  obtains d v' where "qs_decisions s' (rv_DecisionID v) = Some d" and "md_revocation d = Some v'"
  using assms(2)
proof (cases rule: revoke_decision_cases)
  case (retry old)
  then obtain d where "qs_decisions s (rv_DecisionID old) = Some d" "md_revocation d = Some old"
    using assms(1) unfolding quorum_ok_def by blast
  moreover have "rv_DecisionID old = rv_DecisionID v" using retry(2) by (simp add: same_revocation_def)
  ultimately show thesis using retry(3) that by simp
next
  case (fresh d)
  then show thesis using that [of "d\<lparr>md_revocation := Some v\<rparr>" v] by simp
qed

lemma settled_stays:
  assumes "run (quorum_step visit) s ops s'" and "qs_decisions s D = Some d"
    and "md_consumption d \<noteq> None \<or> md_revocation d \<noteq> None"
  shows "qs_decisions s' D = Some d"
  using run_keeps_quorum [OF assms(1)] assms(2,3) unfolding keeps_def by blast

lemma same_approval_proof_refl [simp]: "same_approval_proof a a"
  by (simp add: same_approval_proof_def time_defs)

lemma approval_recorded:
  assumes "quorum_ok s" and "append_approval s now p a = Inr (v, s')"
  shows "qs_approvalsByID s' (av_ApprovalID a) = Some v \<and> same_approval_proof v a \<and>
    (\<exists>p'. qs_policies s' (vp_PolicyDigest p) = Some p' \<and> same_policy p' p)"
  using assms(2)
proof (cases rule: append_approval_cases)
  case retry
  have p: "check_policy s p = Inr ()" "av_PolicyDigest a = vp_PolicyDigest p"
    using assms(2) by (auto simp: append_approval_def and_then_Inr_iff)
  obtain d where "qs_decisions s (av_DecisionID v) = Some d" "(av_AuthorityID v, v) \<in> set (md_approvals d)"
    using assms(1) retry(1) unfolding quorum_ok_def by blast
  then have "admitted s (av_DecisionID v) d (av_AuthorityID v, v)"
    using assms(1) unfolding quorum_ok_def decision_ok_def list_all_iff by blast
  then obtain p' where "qs_policies s (av_PolicyDigest v) = Some p'" by (auto simp: admitted_def)
  moreover have "av_PolicyDigest v = av_PolicyDigest a" using retry(2) by (simp add: same_approval_proof_def)
  ultimately show ?thesis
    using p retry by (auto simp: check_policy_def split: if_splits)
next
  case fresh
  then show ?thesis
    using store_policy_lookup [OF fresh(6)]
    by (metis put_approval_fields(1,3) fun_upd_same same_approval_proof_refl)
qed

lemma recorded_again:
  assumes "append_approval s now p a = Inr (v, s')" and "qs_approvalsByID s'' (av_ApprovalID a) = Some v"
    and "same_approval_proof v a" and "qs_policies s'' (vp_PolicyDigest p) = Some p'" and "same_policy p' p"
  shows "append_approval s'' now' p a = Inr (v, s'')"
proof -
  have "validate_approval a" "validate_policy p" "av_PolicyDigest a = vp_PolicyDigest p"
      "av_Audience a = vp_Audience p" "policy_allows p (av_AuthorityID a)"
    using assms(1) by (auto simp: append_approval_def and_then_Inr_iff)
  with assms(2-) show ?thesis
    by (simp add: append_approval_def check_policy_def)
qed

lemma run_quorum_new: "lawful visit \<Longrightarrow> run (quorum_step visit) new_quorum_store ops s \<Longrightarrow> quorum_ok s"
  using run_quorum_ok quorum_ok_new by blast

section \<open>An example\<close>

definition qx_time :: "int \<Rightarrow> gotime" where
  "qx_time n = \<lparr>instant = n, location = UTC\<rparr>"

text \<open>A digest per byte.\<close>

definition qx_tag :: "char \<Rightarrow> string" where
  "qx_tag c = sha256_prefix @ hex_encode (replicate 32 c)"

definition qx_definition :: verified_policy where
  "qx_definition =
     \<lparr>vp_Schema = PolicySchemaV1, vp_PolicyID = ''policy-1'', vp_PolicyDigest = [],
      vp_AuthorityMapDigest = qx_tag CHR ''m'', vp_Audience = ''deploy'', vp_Epoch = 1, vp_Threshold = 2,
      vp_AuthorityIDs = [''alice'', ''bob'', ''carol''], vp_ValidFrom = qx_time 1, vp_ExpiresAt = qx_time 1000\<rparr>"

definition qx_policy :: verified_policy where
  "qx_policy = qx_definition
     \<lparr>vp_PolicyDigest := sha256_text (quorum_transcript policy_digest_domain (policy_fields qx_definition))\<rparr>"

definition qx_binding :: decision_binding where
  "qx_binding = \<lparr>db_DecisionID = ''decision-1'', db_PolicyDigest = vp_PolicyDigest qx_policy,
     db_OperationDigest = qx_tag CHR ''o''\<rparr>"

definition qx_approval :: "string \<Rightarrow> char \<Rightarrow> int \<Rightarrow> approval" where
  "qx_approval who c t =
     \<lparr>av_Schema = ApprovalSchemaV1, av_ApprovalID = ''approval-'' @ who, av_DecisionID = ''decision-1'',
      av_PolicyDigest = vp_PolicyDigest qx_policy, av_OperationDigest = qx_tag CHR ''o'', av_Audience = ''deploy'',
      av_AuthorityID = who, av_PrincipalTag = qx_tag c, av_CredentialTag = qx_tag c, av_AuthorizationTag = qx_tag c,
      av_ApprovedAt = qx_time 10, av_ExpiresAt = qx_time t\<rparr>"

definition qx_request :: consume_request where
  "qx_request = \<lparr>cq_ConsumptionID = ''use-1'', cq_Binding = qx_binding\<rparr>"

definition qx_revocation :: decision_revocation where
  "qx_revocation = \<lparr>rv_Schema = RevocationSchemaV1, rv_RevocationID = ''stop-1'', rv_DecisionID = ''decision-1'',
     rv_RevokedAt = qx_time 15\<rparr>"

lemma quorum_text_printable: "printable s \<Longrightarrow> s \<noteq> [] \<Longrightarrow> length s \<le> n \<Longrightarrow> quorum_text n s"
  using printable_runes [of s]
  by (auto simp: quorum_text_def valid_utf8_ascii printable_ascii trim_space_printable list_all_iff
      not_control_printable not_space_printable)

lemma quorum_validate_digest_hex: "length bs = 32 \<Longrightarrow> quorum_validate_digest (sha256_prefix @ hex_encode bs)"
  by (simp add: quorum_validate_digest_def has_prefix_def trim_prefix_def hex_encode_lower hex_encode_decodes Let_def)

lemma qx_digests [simp]: "quorum_validate_digest (qx_tag c)" "quorum_validate_digest (sha256_text m)"
  by (simp_all add: qx_tag_def sha256_text_def quorum_validate_digest_hex)

lemma qx_tag_eq [simp]: "qx_tag c = qx_tag c' \<longleftrightarrow> c = c'"
proof
  assume "qx_tag c = qx_tag c'"
  then have "replicate 32 c = replicate 32 c'" by (simp only: qx_tag_def same_append_eq) (rule hex_encode_inj)
  then show "c = c'" by simp
qed simp

lemma qx_ids [simp]:
  "quorum_validate_id ''policy-1''" "quorum_validate_id ''decision-1''" "quorum_validate_id ''alice''"
  "quorum_validate_id ''bob''" "quorum_validate_id ''carol''" "quorum_validate_id ''use-1''" "quorum_validate_id ''stop-1''"
  "quorum_validate_id (''approval-'' @ ''alice'')" "quorum_validate_id (''approval-'' @ ''bob'')"
  "validate_audience ''deploy''"
  by (simp_all add: quorum_validate_id_def validate_audience_def quorum_text_printable printable_def in_range_def byte_def
      quorum_max_id_bytes_def max_audience_bytes_def)

lemma qx_definition_valid: "validate_policy_definition (qx_definition\<lparr>vp_PolicyDigest := g\<rparr>)"
  by (simp add: validate_policy_definition_def qx_definition_def MaxAuthorities_def qx_time_def time_defs)

lemma qx_policy_valid: "validate_policy qx_policy"
proof -
  have "policy_fields qx_policy = policy_fields qx_definition" by (simp add: policy_fields_def qx_policy_def)
  then show ?thesis
    using qx_definition_valid
    by (simp add: validate_policy_def compute_policy_digest_def qx_policy_def) (simp add: qx_definition_def)
qed

lemma qx_policy_fields [simp]:
  "vp_Audience qx_policy = ''deploy''" "vp_Threshold qx_policy = 2" "vp_ValidFrom qx_policy = qx_time 1"
  "vp_ExpiresAt qx_policy = qx_time 1000" "vp_AuthorityIDs qx_policy = [''alice'', ''bob'', ''carol'']"
  by (simp_all add: qx_policy_def qx_definition_def)

lemma qx_policy_digest [simp]: "quorum_validate_digest (vp_PolicyDigest qx_policy)"
  by (simp add: qx_policy_def)

lemma qx_policy_at: "1 < n \<Longrightarrow> n < 1000 \<Longrightarrow> validate_policy_at qx_policy (qx_time n) = Inr ()"
  using qx_policy_valid by (simp add: validate_policy_at_Inr qx_time_def time_defs)

lemma qx_allows: "policy_allows qx_policy ''alice''" "policy_allows qx_policy ''bob''"
  using policy_allows_iff [OF validate_policyD [OF qx_policy_valid]] by simp_all

lemma qx_approval_fields [simp]:
  "av_ApprovalID (qx_approval who c t) = ''approval-'' @ who" "av_DecisionID (qx_approval who c t) = ''decision-1''"
  "av_PolicyDigest (qx_approval who c t) = vp_PolicyDigest qx_policy" "av_Audience (qx_approval who c t) = ''deploy''"
  "av_AuthorityID (qx_approval who c t) = who" "av_PrincipalTag (qx_approval who c t) = qx_tag c"
  "av_CredentialTag (qx_approval who c t) = qx_tag c" "av_ApprovedAt (qx_approval who c t) = qx_time 10"
  "av_ExpiresAt (qx_approval who c t) = qx_time t" "approval_binding (qx_approval who c t) = qx_binding"
  by (simp_all add: qx_approval_def approval_binding_def qx_binding_def)

lemma qx_approval_valid:
  "validate_approval (qx_approval ''alice'' c 100)" "validate_approval (qx_approval ''bob'' c 200)"
  using qx_ids(8,9)
  by (simp_all add: validate_approval_def qx_binding_def validate_binding_def del: append.simps)
    (simp_all add: qx_approval_def qx_time_def time_defs del: append.simps)

abbreviation "qx_alice \<equiv> qx_approval ''alice'' CHR ''a'' 100"
abbreviation "qx_bob \<equiv> qx_approval ''bob'' CHR ''b'' 200"

definition qx_s1 :: quorum_store where
  "qx_s1 = put_approval new_quorum_store qx_policy qx_alice"

definition qx_s2 :: quorum_store where
  "qx_s2 = put_approval qx_s1 qx_policy qx_bob"

definition qx_d :: memory_decision where
  "qx_d = add_approval (add_approval (new_decision qx_binding ''deploy'') qx_alice) qx_bob"

lemma qx_new [simp]: "qs_policies new_quorum_store = Map.empty" "qs_decisions new_quorum_store = Map.empty"
  "qs_approvalsByID new_quorum_store = Map.empty" "qs_consumptionsByID new_quorum_store = Map.empty"
  "qs_revocationsByID new_quorum_store = Map.empty"
  by (simp_all add: new_quorum_store_def)

lemma qx_s1_fields [simp]:
  "qs_policies qx_s1 = [vp_PolicyDigest qx_policy \<mapsto> qx_policy]" "qs_consumptionsByID qx_s1 = Map.empty"
  "qs_decisions qx_s1 = [''decision-1'' \<mapsto> add_approval (new_decision qx_binding ''deploy'') qx_alice]"
  "qs_approvalsByID qx_s1 = [''approval-alice'' \<mapsto> qx_alice]" "qs_revocationsByID qx_s1 = Map.empty"
  by (simp_all add: qx_s1_def put_approval_fields store_policy_policies decision_for_def)

lemma qx_s2_fields [simp]:
  "qs_policies qx_s2 = [vp_PolicyDigest qx_policy \<mapsto> qx_policy]" "qs_consumptionsByID qx_s2 = Map.empty"
  "qs_decisions qx_s2 ''decision-1'' = Some qx_d" "qs_revocationsByID qx_s2 = Map.empty"
  by (simp_all add: qx_s2_def put_approval_fields store_policy_policies decision_for_def qx_d_def)

lemma qx_append_alice: "append_approval new_quorum_store (qx_time 12) qx_policy qx_alice = Inr (qx_alice, qx_s1)"
  using qx_policy_valid qx_policy_at [of 12] qx_allows qx_approval_valid
  by (simp add: append_approval_def check_policy_def qx_s1_def decision_for_def)
    (simp add: check_distinct_def new_decision_def taken_def qx_time_def time_defs)

lemma qx_append_bob: "append_approval qx_s1 (qx_time 12) qx_policy qx_bob = Inr (qx_bob, qx_s2)"
  using qx_policy_valid qx_policy_at [of 12] qx_allows qx_approval_valid
  by (simp add: append_approval_def check_policy_def qx_s2_def decision_for_def)
    (simp add: check_distinct_def new_decision_def taken_def qx_time_def time_defs)

lemma qx_run: "run (quorum_step rev) new_quorum_store
    [AppendApproval (qx_time 12) qx_policy qx_alice, AppendApproval (qx_time 12) qx_policy qx_bob] qx_s2"
  using qx_append_alice qx_append_bob by auto

lemma qx_lawful: "lawful rev"
  by (simp add: lawful_def)

lemma qx_s2_ok: "quorum_ok qx_s2"
  by (rule run_quorum_new [OF qx_lawful qx_run])

lemma qx_request_valid: "validate_consume_request qx_request"
  by (simp add: validate_consume_request_def qx_request_def validate_binding_def qx_binding_def)

lemma qx_ready: "ready qx_s2 (qx_time 20) qx_policy qx_request qx_d"
  using qx_policy_at [of 20] qx_request_valid
  by (simp add: ready_def qx_request_def qx_binding_def check_policy_def)
    (simp add: qx_d_def new_decision_def qx_binding_def)

lemma qx_live: "live_approvals qx_d (qx_time 20) = [qx_alice, qx_bob]"
  by (simp add: live_approvals_def qx_d_def new_decision_def live_def qx_time_def time_defs)

definition qx_quorum :: verified_quorum where
  "qx_quorum = granted qx_policy qx_request (qx_time 20) qx_d"

definition qx_s3 :: quorum_store where
  "qx_s3 = put_consumption qx_s2 qx_policy qx_d (select_approvals qx_policy [qx_alice, qx_bob]) qx_quorum"

lemma qx_consume: "consume_quorum rev qx_s2 (qx_time 20) qx_policy qx_request = Inr (qx_quorum, qx_s3)"
  using consume_ready [OF qx_lawful qx_s2_ok qx_ready] by (simp add: qx_live qx_s3_def qx_quorum_def)

lemma qx_quorum_later: "validate_quorum_at qx_quorum (qx_time 30) = Inr ()"
proof -
  have valid: "validate_quorum qx_quorum"
    using granted_valid(2) [OF qx_s2_ok qx_ready] by (simp add: validate_quorum_at_Inr qx_quorum_def)
  have "vq_AcceptedUntil qx_quorum = qx_time 1000 \<or> vq_AcceptedUntil qx_quorum = qx_time 100 \<or>
      vq_AcceptedUntil qx_quorum = qx_time 200"
    using earliest_in [of "qx_time 1000" "select_approvals qx_policy [qx_alice, qx_bob]"]
      set_select [of qx_policy "[qx_alice, qx_bob]"]
    by (auto simp: qx_quorum_def granted_def quorum_of_def qx_live)
  then have "before (qx_time 30) (vq_AcceptedUntil qx_quorum)" by (auto simp: qx_time_def time_defs)
  with valid show ?thesis
    by (simp add: validate_quorum_at_Inr) (simp add: qx_quorum_def granted_def quorum_of_def qx_time_def time_defs)
qed

lemma qx_consume_again: "\<exists>q t. consume_quorum rev qx_s3 (qx_time 30) qx_policy qx_request = Inr (q, t)"
proof -
  have "vq_ConsumptionID qx_quorum = ''use-1''" "quorum_matches qx_quorum qx_policy qx_request"
    by (simp_all add: qx_quorum_def granted_def quorum_of_def quorum_matches_def qx_request_def)
  then have "qs_consumptionsByID qx_s3 (cq_ConsumptionID qx_request) = Some qx_quorum"
    by (simp add: qx_s3_def put_consumption_fields qx_request_def)
  with \<open>quorum_matches _ _ _\<close> qx_quorum_later qx_request_valid qx_policy_valid show ?thesis
    by (simp add: consume_quorum_def check_policy_def qx_s3_def put_consumption_fields store_policy_policies)
      (simp add: qx_request_def qx_binding_def)
qed

lemma qx_request_decision: "db_DecisionID (cq_Binding qx_request) = ''decision-1''"
  by (simp add: qx_request_def qx_binding_def)

lemma qx_revoke: "\<exists>s. revoke_decision qx_s2 qx_revocation = Inr s"
  by (simp add: revoke_decision_def validate_revocation_def qx_revocation_def Let_def)
    (simp add: qx_d_def new_decision_def qx_time_def time_defs)

section \<open>Properties\<close>

text \<open>C3. In every reachable store, a consumed decision rests on exactly the policy's threshold of approvals,
  from pairwise distinct authorities, principals and credentials that the policy allows, all for the
  decision, policy, operation and audience of the quorum, all live when it was consumed, and none
  expiring before the quorum does; their identifiers are the ones recorded.\<close>

theorem consumed_quorum_backed:
  assumes "lawful visit" and "run (quorum_step visit) new_quorum_store ops s"
    and "qs_decisions s D = Some d" and "md_consumption d = Some q"
  shows "vq_DecisionID q = D \<and> (\<exists>sel. evidence s d q sel)"
  using run_quorum_new [OF assms(1,2)] assms(3,4) unfolding quorum_ok_def decision_ok_def by blast

theorem consumed_quorum_backed_witness:
  "\<exists>s d. run (quorum_step rev) new_quorum_store
     [AppendApproval (qx_time 12) qx_policy qx_alice, AppendApproval (qx_time 12) qx_policy qx_bob,
      ConsumeQuorum (qx_time 20) qx_policy qx_request] s \<and>
   qs_decisions s ''decision-1'' = Some d \<and> (\<exists>sel. evidence s d qx_quorum sel)"
proof -
  have run: "run (quorum_step rev) new_quorum_store
      [AppendApproval (qx_time 12) qx_policy qx_alice, AppendApproval (qx_time 12) qx_policy qx_bob,
       ConsumeQuorum (qx_time 20) qx_policy qx_request] qx_s3"
    using qx_append_alice qx_append_bob qx_consume by auto
  obtain d where "qs_decisions qx_s3 ''decision-1'' = Some d" "md_consumption d = Some qx_quorum"
    using consumed_decision [OF qx_s2_ok qx_consume] qx_request_decision by metis
  with consumed_quorum_backed [OF qx_lawful run] run show ?thesis by blast
qed

text \<open>C25. A decision is consumed once: whatever happens after a quorum was granted for it, a later
  successful consumption of the same decision changes nothing and returns that same quorum.\<close>

theorem decision_consumed_once:
  assumes "lawful visit" and "run (quorum_step visit) new_quorum_store ops s"
    and "consume_quorum visit s now p r = Inr (q, s')" and "run (quorum_step visit) s' ops' s''"
    and "consume_quorum visit s'' now' p' r' = Inr (q', t)"
    and "db_DecisionID (cq_Binding r') = db_DecisionID (cq_Binding r)"
  shows "q' = q \<and> t = s''"
proof -
  have ok: "quorum_ok s" by (rule run_quorum_new [OF assms(1,2)])
  have "quorum_step visit s (ConsumeQuorum now p r) s'" using assms(3) by auto
  then have ok'': "quorum_ok s''"
    using run_quorum_ok [OF assms(1,4)] quorum_step_ok [OF assms(1)] ok by blast
  obtain d where "qs_decisions s' (db_DecisionID (cq_Binding r)) = Some d" and d: "md_consumption d = Some q"
    using consumed_decision [OF ok assms(3)] .
  then have D: "qs_decisions s'' (db_DecisionID (cq_Binding r')) = Some d"
    using settled_stays [OF assms(4)] assms(6) by simp
  have "t = s''" using assms(5)
    by (cases rule: consume_quorum_cases) (use D d in auto)
  with consumed_decision [OF ok'' assms(5)] D d show ?thesis by auto
qed

theorem decision_consumed_once_witness:
  "consume_quorum rev qx_s2 (qx_time 20) qx_policy qx_request = Inr (qx_quorum, qx_s3) \<and>
   (\<exists>q t. consume_quorum rev qx_s3 (qx_time 30) qx_policy qx_request = Inr (q, t) \<and> q = qx_quorum \<and> t = qx_s3)"
proof -
  obtain q t where again: "consume_quorum rev qx_s3 (qx_time 30) qx_policy qx_request = Inr (q, t)"
    using qx_consume_again by blast
  from decision_consumed_once [OF qx_lawful qx_run qx_consume run_Nil again refl] again qx_consume show ?thesis by blast
qed

text \<open>C26. A revoked decision is never consumed: after a revocation succeeded, no consumption of that
  decision succeeds in any later state, under any policy, request or clock.\<close>

theorem revoked_never_consumed:
  assumes "lawful visit" and "run (quorum_step visit) new_quorum_store ops s"
    and "revoke_decision s v = Inr s'" and "run (quorum_step visit) s' ops' s''"
    and "db_DecisionID (cq_Binding r) = rv_DecisionID v"
  shows "\<forall>q t. consume_quorum visit s'' now p r \<noteq> Inr (q, t)"
proof (intro allI notI)
  fix q t assume c: "consume_quorum visit s'' now p r = Inr (q, t)"
  have ok: "quorum_ok s" by (rule run_quorum_new [OF assms(1,2)])
  have "quorum_step visit s (RevokeDecision v) s'" using assms(3) by simp
  then have "quorum_ok s''"
    using run_quorum_ok [OF assms(1,4)] quorum_step_ok [OF assms(1)] ok by blast
  moreover have "quorum_step visit s'' (ConsumeQuorum now p r) t" using c by auto
  ultimately have ok'': "quorum_ok s''" and okt: "quorum_ok t" and keep: "keeps s'' t"
    using quorum_step_ok [OF assms(1)] quorum_step_keeps by blast+
  obtain d v' where "qs_decisions s' (rv_DecisionID v) = Some d" and d: "md_revocation d = Some v'"
    using revoked_decision [OF ok assms(3)] .
  then have "qs_decisions s'' (db_DecisionID (cq_Binding r)) = Some d"
    using settled_stays [OF assms(4)] assms(5) by simp
  then have "qs_decisions t (db_DecisionID (cq_Binding r)) = Some d"
    using keep d unfolding keeps_def by blast
  moreover obtain d' where "qs_decisions t (db_DecisionID (cq_Binding r)) = Some d'" "md_consumption d' = Some q"
    using consumed_decision [OF ok'' c] .
  ultimately show False
    using okt d unfolding quorum_ok_def decision_ok_def by (metis option.distinct(1) option.inject)
qed

theorem revoked_never_consumed_witness:
  "\<exists>s. revoke_decision qx_s2 qx_revocation = Inr s \<and>
     (\<forall>q t. consume_quorum rev s (qx_time 20) qx_policy qx_request \<noteq> Inr (q, t))"
proof -
  obtain s where s: "revoke_decision qx_s2 qx_revocation = Inr s" using qx_revoke ..
  have "db_DecisionID (cq_Binding qx_request) = rv_DecisionID qx_revocation"
    by (simp add: qx_request_decision qx_revocation_def)
  with revoked_never_consumed [OF qx_lawful qx_run s run_Nil] s show ?thesis by blast
qed

text \<open>C19. On a fresh, matching decision a consumption is granted exactly when at least the threshold of
  approvals is live, and the quorum granted and the state left do not depend on the order in which
  the approvals are visited.\<close>

theorem quorum_granted_iff:
  assumes "lawful visit" and "run (quorum_step visit') new_quorum_store ops s" and "lawful visit'"
    and "ready s now p r d"
  shows "consume_quorum visit s now p r =
    (if length (live_approvals d now) < unat (vp_Threshold p) then Inl ErrBelowThreshold
     else Inr (granted p r now d,
       put_consumption s p d (select_approvals p (live_approvals d now)) (granted p r now d)))"
  by (rule consume_ready [OF assms(1) run_quorum_new [OF assms(3,2)] assms(4)])

theorem quorum_granted_iff_witness:
  "ready qx_s2 (qx_time 20) qx_policy qx_request qx_d \<and>
   consume_quorum (\<lambda>xs. xs) qx_s2 (qx_time 20) qx_policy qx_request = Inr (qx_quorum, qx_s3)"
proof -
  have "lawful (\<lambda>xs. xs)" by (simp add: lawful_def)
  from quorum_granted_iff [OF this qx_run qx_lawful qx_ready] qx_ready show ?thesis
    by (simp add: qx_live qx_s3_def qx_quorum_def)
qed

text \<open>Recording an approval is idempotent: in every state reached after it succeeded, and at any
  clock, presenting the same approval again returns the record of the first time and changes
  nothing.\<close>

theorem approval_retry:
  assumes "lawful visit" and "run (quorum_step visit) new_quorum_store ops s"
    and "append_approval s now p a = Inr (v, s')" and "run (quorum_step visit) s' ops' s''"
  shows "append_approval s'' now' p a = Inr (v, s'')"
proof -
  have k: "keeps s' s''" by (rule run_keeps_quorum [OF assms(4)])
  obtain p' where "qs_policies s' (vp_PolicyDigest p) = Some p'" and p': "same_policy p' p"
      and "qs_approvalsByID s' (av_ApprovalID a) = Some v" and v: "same_approval_proof v a"
    using approval_recorded [OF run_quorum_new [OF assms(1,2)] assms(3)] by blast
  then have "qs_policies s'' (vp_PolicyDigest p) = Some p'" "qs_approvalsByID s'' (av_ApprovalID a) = Some v"
    using k unfolding keeps_def by (blast intro: map_le_lookup)+
  with recorded_again [OF assms(3) _ v _ p'] show ?thesis by blast
qed

theorem approval_retry_witness:
  "append_approval new_quorum_store (qx_time 12) qx_policy qx_alice = Inr (qx_alice, qx_s1) \<and>
   append_approval qx_s3 (qx_time 5000) qx_policy qx_alice = Inr (qx_alice, qx_s3)"
proof -
  have "run (quorum_step rev) qx_s1
      [AppendApproval (qx_time 12) qx_policy qx_bob, ConsumeQuorum (qx_time 20) qx_policy qx_request] qx_s3"
    using qx_append_bob qx_consume by auto
  from approval_retry [OF qx_lawful run_Nil qx_append_alice this] qx_append_alice show ?thesis by blast
qed

text \<open>A policy digest binds the policy: two valid policies with the same digest have the same
  identifier, audience, authority map, epoch, authorities, threshold and rendered validity times, or
  their transcripts are two distinct messages with one SHA-256 digest.\<close>

theorem policy_digest_binds:
  assumes "validate_policy p" "validate_policy q" and "vp_PolicyDigest p = vp_PolicyDigest q"
    and "marshals_text (vp_ValidFrom p)" "marshals_text (vp_ExpiresAt p)"
    and "marshals_text (vp_ValidFrom q)" "marshals_text (vp_ExpiresAt q)"
  shows "same_policy_content p q \<or>
    sha256_collision (quorum_transcript policy_digest_domain (policy_fields p))
      (quorum_transcript policy_digest_domain (policy_fields q))"
  by (rule policy_digest_unique [OF assms])

theorem policy_digest_binds_witness:
  "validate_policy qx_policy \<and> same_policy_content qx_policy qx_policy"
proof -
  have "marshals_text (vp_ValidFrom qx_policy)" "marshals_text (vp_ExpiresAt qx_policy)"
    by (simp_all add: marshals_text_def min_durable_def max_durable_def qx_time_def ns_per_sec_def)
  from policy_digest_binds [OF qx_policy_valid qx_policy_valid refl this this] qx_policy_valid show ?thesis
    by (simp add: sha256_collision_def)
qed

end
