(* ===== verification/Journal_Model.thy ===== *)
theory Journal_Model
  imports Go_Time Go_Strings "HOL-Library.Finite_Map"
begin

text \<open>
  Package \<^verbatim>\<open>pkg/operationjournal\<close>: the data of \<^verbatim>\<open>journal.go\<close> and the checks of \<^verbatim>\<open>file_store.go\<close>. A Go map
  that is not nil is a finite map. A \<^verbatim>\<open>State\<close> is a string, so a decoded file may hold one the package
  does not know.
\<close>

section \<open>Data\<close>

datatype journal_error =
    JournalErrNotFound | JournalErrConflict | JournalErrInvalidTransition | JournalErrInvalidRecord
  | JournalErrUnavailable | JournalErrReplay | JournalErrContext

datatype journal_state =
    StateAccepted | StateRunning | StateIndeterminate | StateSucceeded | StateFailed | StateCanceled
  | StateUnknown string

fun journal_terminal :: "journal_state \<Rightarrow> bool" where
  "journal_terminal StateSucceeded = True"
| "journal_terminal StateFailed = True"
| "journal_terminal StateCanceled = True"
| "journal_terminal _ = False"

record reservation =
  rs_OperationID :: string
  rs_RequestDigest :: string

record acceptance_reservation =
  ac_ReplayKey :: string
  ac_ReplayRetainUntil :: gotime
  ac_Operation :: reservation

record finalization =
  fz_OperationID :: string
  fz_RequestDigest :: string
  fz_State :: journal_state
  fz_OutcomeDigest :: string

record sealed_result =
  sr_OperationID :: string
  sr_RequestDigest :: string
  sr_OutcomeDigest :: string
  sr_MediaType :: string
  sr_Envelope :: string
  sr_PlaintextBytes :: uint32
  sr_Nonce :: bytes
  sr_Ciphertext :: bytes

record journal_record =
  jr_OperationID :: string
  jr_RequestDigest :: string
  jr_State :: journal_state
  jr_OutcomeDigest :: string
  jr_Revision :: uint64
  jr_CreatedAt :: gotime
  jr_UpdatedAt :: gotime
  jr_StartedAt :: gotime
  jr_CompletedAt :: gotime

record persisted_state =
  ps_Schema :: string
  ps_Records :: "(string, journal_record) fmap"
  ps_Replay :: "(string, gotime) fmap"
  ps_Results :: "(string, sealed_result) fmap"

text \<open>What decoding a file leaves in the variable: each map may be nil.\<close>

record persisted_file =
  pf_Schema :: string
  pf_Records :: "(string, journal_record) fmap option"
  pf_Replay :: "(string, gotime) fmap option"
  pf_Results :: "(string, sealed_result) fmap option"

definition legacy_file_schema :: string where
  "legacy_file_schema = ''urn:asb:operation-journal:v1''"

definition file_schema :: string where
  "file_schema = ''urn:asb:operation-journal:v2''"

definition sealed_result_envelope :: string where
  "sealed_result_envelope = ''urn:asb:sealed-result:aes-256-gcm:v1''"

definition max_journal_bytes :: nat where
  "max_journal_bytes = 16 * 2 ^ 20"

definition max_journal_records :: nat where
  "max_journal_records = 10000"

definition max_replay_records :: nat where
  "max_replay_records = 100000"

definition max_operation_id_bytes :: nat where
  "max_operation_id_bytes = 256"

definition max_replay_key_bytes :: nat where
  "max_replay_key_bytes = 256"

definition max_result_media_type :: nat where
  "max_result_media_type = 128"

definition max_result_plaintext :: nat where
  "max_result_plaintext = 256 * 2 ^ 10"

definition aes_gcm_nonce_bytes :: nat where
  "aes_gcm_nonce_bytes = 12"

definition aes_gcm_tag_bytes :: nat where
  "aes_gcm_tag_bytes = 16"

section \<open>Checks of the input\<close>

definition validate_operation_id :: "string \<Rightarrow> bool" where
  "validate_operation_id v \<longleftrightarrow> v \<noteq> [] \<and> length v \<le> max_operation_id_bytes \<and> valid_utf8 v \<and> trim_space v = v \<and>
     list_all (\<lambda>p. \<not> (is_control (fst p) \<or> fst p = rune_error)) (runes v)"

definition journal_validate_digest :: "string \<Rightarrow> bool \<Rightarrow> bool" where
  "journal_validate_digest v optional \<longleftrightarrow> v = [] \<and> optional \<or>
     length v = length sha256_prefix + 64 \<and> has_prefix v sha256_prefix \<and>
     (let raw = drop (length sha256_prefix) v in hex_decodes raw \<and> length raw = 64 \<and> to_lower raw = raw)"

definition validate_reservation :: "string \<Rightarrow> string \<Rightarrow> bool" where
  "validate_reservation i digest \<longleftrightarrow> validate_operation_id i \<and> journal_validate_digest digest False"

text \<open>\<^verbatim>\<open>strings.LastIndexByte\<close>: the part before the last separator and the part after it.\<close>

definition split_last :: "char \<Rightarrow> string \<Rightarrow> (string \<times> string) option" where
  "split_last c s =
     (if c \<in> set s then Some (rev (tl (dropWhile (\<lambda>x. x \<noteq> c) (rev s))), rev (takeWhile (\<lambda>x. x \<noteq> c) (rev s)))
      else None)"

definition domain_rune :: "nat \<Rightarrow> bool" where
  "domain_rune r \<longleftrightarrow> in_range 97 122 r \<or> in_range 65 90 r \<or> in_range 48 57 r \<or> r = 46 \<or> r = 95 \<or> r = 45"

definition validate_replay_key :: "string \<Rightarrow> bool" where
  "validate_replay_key v \<longleftrightarrow> v \<noteq> [] \<and> length v \<le> max_replay_key_bytes \<and> valid_utf8 v \<and> trim_space v = v \<and>
     (case split_last CHR '':'' v of
        None \<Rightarrow> False
      | Some (d, digest) \<Rightarrow> d \<noteq> [] \<and> length digest = 64 \<and> hex_decodes digest \<and> to_lower digest = digest \<and>
          list_all (\<lambda>p. domain_rune (fst p)) (runes d))"

definition validate_acceptance_reservation :: "acceptance_reservation \<Rightarrow> bool" where
  "validate_acceptance_reservation r \<longleftrightarrow>
     validate_reservation (rs_OperationID (ac_Operation r)) (rs_RequestDigest (ac_Operation r)) \<and>
     validate_replay_key (ac_ReplayKey r) \<and> \<not> is_zero (ac_ReplayRetainUntil r)"

definition validate_finalization :: "finalization \<Rightarrow> bool" where
  "validate_finalization f \<longleftrightarrow> validate_reservation (fz_OperationID f) (fz_RequestDigest f) \<and>
     journal_terminal (fz_State f) \<and> journal_validate_digest (fz_OutcomeDigest f) True"

text \<open>
  \<open>media v\<close> stands for the round trip through \<^verbatim>\<open>mime.ParseMediaType\<close> and \<^verbatim>\<open>mime.FormatMediaType\<close>: the
  value parses to a type that is not empty and formats back to itself.
\<close>

definition validate_sealed_result :: "(string \<Rightarrow> bool) \<Rightarrow> sealed_result \<Rightarrow> bool" where
  "validate_sealed_result media r \<longleftrightarrow> validate_reservation (sr_OperationID r) (sr_RequestDigest r) \<and>
     journal_validate_digest (sr_OutcomeDigest r) False \<and> sr_Envelope r = sealed_result_envelope \<and>
     \<not> (sr_MediaType r = [] \<or> length (sr_MediaType r) > max_result_media_type \<or> \<not> valid_utf8 (sr_MediaType r) \<or>
        trim_space (sr_MediaType r) \<noteq> sr_MediaType r) \<and>
     media (sr_MediaType r) \<and>
     \<not> (unat (sr_PlaintextBytes r) > max_result_plaintext \<or> length (sr_Nonce r) \<noteq> aes_gcm_nonce_bytes \<or>
        length (sr_Ciphertext r) \<noteq> unat (sr_PlaintextBytes r) + aes_gcm_tag_bytes \<or>
        length (sr_Ciphertext r) > max_result_plaintext + aes_gcm_tag_bytes)"

section \<open>Checks of the state\<close>

fun state_shape_ok :: "journal_state \<Rightarrow> journal_record \<Rightarrow> bool" where
  "state_shape_ok StateAccepted r =
     (is_zero (jr_StartedAt r) \<and> is_zero (jr_CompletedAt r) \<and> jr_OutcomeDigest r = [])"
| "state_shape_ok StateRunning r =
     (\<not> is_zero (jr_StartedAt r) \<and> is_zero (jr_CompletedAt r) \<and> jr_OutcomeDigest r = [])"
| "state_shape_ok StateIndeterminate r =
     (\<not> is_zero (jr_StartedAt r) \<and> is_zero (jr_CompletedAt r) \<and> jr_OutcomeDigest r = [])"
| "state_shape_ok StateSucceeded r = (\<not> is_zero (jr_StartedAt r) \<and> \<not> is_zero (jr_CompletedAt r))"
| "state_shape_ok StateFailed r = (\<not> is_zero (jr_StartedAt r) \<and> \<not> is_zero (jr_CompletedAt r))"
| "state_shape_ok StateCanceled r = (\<not> is_zero (jr_CompletedAt r))"
| "state_shape_ok (StateUnknown s) r = False"

definition validate_persisted_record :: "journal_record \<Rightarrow> bool" where
  "validate_persisted_record r \<longleftrightarrow> validate_reservation (jr_OperationID r) (jr_RequestDigest r) \<and>
     \<not> (jr_Revision r = 0 \<or> is_zero (jr_CreatedAt r) \<or> is_zero (jr_UpdatedAt r) \<or>
        before (jr_UpdatedAt r) (jr_CreatedAt r)) \<and>
     journal_validate_digest (jr_OutcomeDigest r) True \<and> state_shape_ok (jr_State r) r \<and>
     \<not> (\<not> is_zero (jr_StartedAt r) \<and> before (jr_StartedAt r) (jr_CreatedAt r)) \<and>
     \<not> (\<not> is_zero (jr_StartedAt r) \<and> after (jr_StartedAt r) (jr_UpdatedAt r)) \<and>
     \<not> (\<not> is_zero (jr_CompletedAt r) \<and>
        (before (jr_CompletedAt r) (jr_CreatedAt r) \<or> before (jr_CompletedAt r) (jr_UpdatedAt r))) \<and>
     \<not> (\<not> is_zero (jr_CompletedAt r) \<and> \<not> equal_time (jr_CompletedAt r) (jr_UpdatedAt r))"

definition result_matches :: "(string, journal_record) fmap \<Rightarrow> string \<Rightarrow> sealed_result \<Rightarrow> bool" where
  "result_matches records k v =
     (case fmlookup records k of
        None \<Rightarrow> False
      | Some r \<Rightarrow> jr_State r = StateSucceeded \<and> jr_RequestDigest r = sr_RequestDigest v \<and>
          jr_OutcomeDigest r = sr_OutcomeDigest v)"

definition validate_persisted_state :: "(string \<Rightarrow> bool) \<Rightarrow> persisted_state \<Rightarrow> bool" where
  "validate_persisted_state media s \<longleftrightarrow> ps_Schema s = file_schema \<and>
     fcard (fmdom (ps_Records s)) \<le> max_journal_records \<and> fcard (fmdom (ps_Replay s)) \<le> max_replay_records \<and>
     fcard (fmdom (ps_Results s)) \<le> max_journal_records \<and>
     fmpred (\<lambda>k t. validate_replay_key k \<and> \<not> is_zero t) (ps_Replay s) \<and>
     fmpred (\<lambda>k r. k = jr_OperationID r \<and> validate_persisted_record r) (ps_Records s) \<and>
     fmpred (\<lambda>k v. k = sr_OperationID v \<and> validate_sealed_result media v \<and> result_matches (ps_Records s) k v)
       (ps_Results s)"

end
