(* ===== verification/Journal_Store.thy ===== *)
theory Journal_Store
  imports Journal_Model
begin

text \<open>
  Package \<^verbatim>\<open>pkg/operationjournal\<close>: the file store of \<^verbatim>\<open>file_store.go\<close>. A method takes the path's lock for
  its body, reads the state file, and replaces it by renaming a synced temporary file over it, so it
  is a function of the file at the path. Everything the file system and the caller's context decide
  is in the method's environment: whether the lock was obtained before the context ended, whether
  the context was still live before the commit, the clock, and how far the replacement of the file
  got. A method returns its result together with the file it leaves, also when it returns an error.
\<close>

section \<open>The file\<close>

text \<open>What is at the path: nothing, something that cannot be inspected, opened or is not a regular file, or bytes.\<close>

datatype disk = NoFile | BadFile | Contents bytes

text \<open>
  How far the replacement got: an error before or at the rename leaves the old file, an error when
  the directory is opened or synced afterwards leaves the new one.
\<close>

datatype persist_fate = FailBeforeRename | FailAfterRename | Committed

record journal_env =
  je_now :: gotime
  je_locked :: bool
  je_live :: bool
  je_fate :: persist_fate

text \<open>
  \<^verbatim>\<open>encoding/json\<close> and \<^verbatim>\<open>mime\<close>: \<open>jl_marshal\<close> is \<^verbatim>\<open>json.Marshal\<close>, \<open>jl_unmarshal\<close> the strict decoding of a
  whole file (no unknown field, nothing after the value) into the empty state.
\<close>

record journal_lib =
  jl_marshal :: "persisted_state \<Rightarrow> bytes option"
  jl_unmarshal :: "bytes \<Rightarrow> persisted_file option"
  jl_media :: "string \<Rightarrow> bool"

definition unix_zero :: gotime where
  "unix_zero = \<lparr>instant = unix_epoch * ns_per_sec, location = UTC\<rparr>"

definition journal_time :: "gotime \<Rightarrow> gotime \<Rightarrow> gotime" where
  "journal_time clock not_before =
     (let now = (if is_zero (utc clock) then unix_zero else utc clock) in
      if before now not_before then not_before else now)"

definition empty_state :: persisted_state where
  "empty_state = \<lparr>ps_Schema = file_schema, ps_Records = fmempty, ps_Replay = fmempty, ps_Results = fmempty\<rparr>"

definition upgrade_file :: "persisted_file \<Rightarrow> journal_error + persisted_file" where
  "upgrade_file f =
     (if pf_Schema f = legacy_file_schema then
        (case pf_Results f of
           None \<Rightarrow> Inr (f\<lparr>pf_Schema := file_schema, pf_Results := Some fmempty\<rparr>)
         | Some rs \<Rightarrow> if fcard (fmdom rs) \<noteq> 0 then Inl JournalErrUnavailable
             else Inr (f\<lparr>pf_Schema := file_schema\<rparr>))
      else Inr f)"

definition loaded_state :: "(string \<Rightarrow> bool) \<Rightarrow> persisted_file \<Rightarrow> journal_error + persisted_state" where
  "loaded_state media f =
     (case (pf_Records f, pf_Replay f, pf_Results f) of
        (Some a, Some b, Some c) \<Rightarrow>
          (let s = \<lparr>ps_Schema = pf_Schema f, ps_Records = a, ps_Replay = b, ps_Results = c\<rparr> in
           if validate_persisted_state media s then Inr s else Inl JournalErrUnavailable)
      | _ \<Rightarrow> Inl JournalErrUnavailable)"

fun load :: "journal_lib \<Rightarrow> disk \<Rightarrow> journal_error + persisted_state" where
  "load L NoFile = Inr empty_state"
| "load L BadFile = Inl JournalErrUnavailable"
| "load L (Contents b) =
     (if length b = 0 \<or> length b > max_journal_bytes then Inl JournalErrUnavailable
      else case jl_unmarshal L b of
        None \<Rightarrow> Inl JournalErrUnavailable
      | Some f \<Rightarrow> and_then (upgrade_file f) (loaded_state (jl_media L)))"

definition persist :: "journal_lib \<Rightarrow> persist_fate \<Rightarrow> disk \<Rightarrow> persisted_state \<Rightarrow> (journal_error + unit) \<times> disk" where
  "persist L fate d s =
     (case jl_marshal L s of
        None \<Rightarrow> (Inl JournalErrUnavailable, d)
      | Some b \<Rightarrow>
          if length b > max_journal_bytes then (Inl JournalErrUnavailable, d)
          else case fate of
            FailBeforeRename \<Rightarrow> (Inl JournalErrUnavailable, d)
          | FailAfterRename \<Rightarrow> (Inl JournalErrUnavailable, Contents b)
          | Committed \<Rightarrow> (Inr (), Contents b))"

text \<open>The tail every writing method shares: the context is checked, the state validated, the file replaced.\<close>

definition commit :: "journal_lib \<Rightarrow> journal_env \<Rightarrow> disk \<Rightarrow> persisted_state \<Rightarrow> 'a \<Rightarrow> (journal_error + 'a) \<times> disk" where
  "commit L e d s v =
     (if \<not> je_live e then (Inl JournalErrContext, d)
      else if \<not> validate_persisted_state (jl_media L) s then (Inl JournalErrUnavailable, d)
      else case persist L (je_fate e) d s of
        (Inl err, d') \<Rightarrow> (Inl err, d')
      | (Inr u, d') \<Rightarrow> (Inr v, d'))"

text \<open>The head: the lock, then the state.\<close>

definition locked_load :: "journal_lib \<Rightarrow> journal_env \<Rightarrow> disk \<Rightarrow> journal_error + persisted_state" where
  "locked_load L e d = (if \<not> je_locked e then Inl JournalErrContext else load L d)"

definition mutate ::
    "journal_lib \<Rightarrow> journal_env \<Rightarrow> disk \<Rightarrow> (persisted_state \<Rightarrow> journal_error + ('a \<times> persisted_state option)) \<Rightarrow>
     (journal_error + 'a) \<times> disk" where
  "mutate L e d change =
     (case and_then (locked_load L e d) change of
        Inl err \<Rightarrow> (Inl err, d)
      | Inr (v, None) \<Rightarrow> (Inr v, d)
      | Inr (v, Some s) \<Rightarrow> commit L e d s v)"

text \<open>A method that returns the record only.\<close>

definition record_only :: "(journal_error + journal_record \<times> bool) \<times> disk \<Rightarrow> (journal_error + journal_record) \<times> disk" where
  "record_only = apfst (map_sum id fst)"

definition open_file_store :: "journal_lib \<Rightarrow> disk \<Rightarrow> journal_error + unit" where
  "open_file_store L d = map_sum id (\<lambda>_. ()) (load L d)"

section \<open>Reservations\<close>

definition lookup_exact :: "persisted_state \<Rightarrow> string \<Rightarrow> string \<Rightarrow> journal_error + journal_record" where
  "lookup_exact s i digest =
     (case fmlookup (ps_Records s) i of
        None \<Rightarrow> Inl JournalErrNotFound
      | Some r \<Rightarrow> if jr_RequestDigest r \<noteq> digest then Inl JournalErrConflict else Inr r)"

definition accepted_record :: "string \<Rightarrow> string \<Rightarrow> gotime \<Rightarrow> journal_record" where
  "accepted_record i digest now =
     \<lparr>jr_OperationID = i, jr_RequestDigest = digest, jr_State = StateAccepted, jr_OutcomeDigest = [],
      jr_Revision = 1, jr_CreatedAt = now, jr_UpdatedAt = now, jr_StartedAt = zero_time, jr_CompletedAt = zero_time\<rparr>"

definition put_record :: "persisted_state \<Rightarrow> journal_record \<Rightarrow> persisted_state" where
  "put_record s r = s\<lparr>ps_Records := fmupd (jr_OperationID r) r (ps_Records s)\<rparr>"

definition reserve_change ::
    "journal_env \<Rightarrow> reservation \<Rightarrow> persisted_state \<Rightarrow> journal_error + ((journal_record \<times> bool) \<times> persisted_state option)" where
  "reserve_change e q s =
     (case fmlookup (ps_Records s) (rs_OperationID q) of
        Some r \<Rightarrow> if jr_RequestDigest r \<noteq> rs_RequestDigest q then Inl JournalErrConflict else Inr ((r, False), None)
      | None \<Rightarrow>
          if fcard (fmdom (ps_Records s)) \<ge> max_journal_records then Inl JournalErrUnavailable
          else let r = accepted_record (rs_OperationID q) (rs_RequestDigest q) (journal_time (je_now e) zero_time) in
            Inr ((r, True), Some (put_record s r)))"

definition journal_reserve ::
    "journal_lib \<Rightarrow> journal_env \<Rightarrow> disk \<Rightarrow> reservation \<Rightarrow> (journal_error + journal_record \<times> bool) \<times> disk" where
  "journal_reserve L e d q =
     (if \<not> validate_reservation (rs_OperationID q) (rs_RequestDigest q) then (Inl JournalErrInvalidRecord, d)
      else mutate L e d (reserve_change e q))"

definition retained :: "gotime \<Rightarrow> (string, gotime) fmap \<Rightarrow> (string, gotime) fmap" where
  "retained now m = fmfilter (\<lambda>k. case fmlookup m k of None \<Rightarrow> False | Some t \<Rightarrow> before now t) m"

definition acceptance_change ::
    "journal_env \<Rightarrow> acceptance_reservation \<Rightarrow> persisted_state \<Rightarrow>
     journal_error + ((journal_record \<times> bool) \<times> persisted_state option)" where
  "acceptance_change e q s =
     (let now = journal_time (je_now e) zero_time; op = ac_Operation q in
      if \<not> before now (ac_ReplayRetainUntil q) then Inl JournalErrInvalidRecord
      else let s1 = s\<lparr>ps_Replay := retained now (ps_Replay s)\<rparr> in
        if (case fmlookup (ps_Replay s1) (ac_ReplayKey q) of None \<Rightarrow> False | Some t \<Rightarrow> before now t)
        then Inl JournalErrReplay
        else and_then
          (case fmlookup (ps_Records s1) (rs_OperationID op) of
             Some r \<Rightarrow> if jr_RequestDigest r \<noteq> rs_RequestDigest op then Inl JournalErrConflict else Inr ((r, False), s1)
           | None \<Rightarrow>
               if fcard (fmdom (ps_Records s1)) \<ge> max_journal_records then Inl JournalErrUnavailable
               else let r = accepted_record (rs_OperationID op) (rs_RequestDigest op) now in
                 Inr ((r, True), put_record s1 r))
          (\<lambda>(v, s2).
             if fcard (fmdom (ps_Replay s2)) \<ge> max_replay_records then Inl JournalErrUnavailable
             else Inr (v, Some (s2\<lparr>ps_Replay :=
               fmupd (ac_ReplayKey q) (utc (ac_ReplayRetainUntil q)) (ps_Replay s2)\<rparr>))))"

definition reserve_acceptance ::
    "journal_lib \<Rightarrow> journal_env \<Rightarrow> disk \<Rightarrow> acceptance_reservation \<Rightarrow> (journal_error + journal_record \<times> bool) \<times> disk" where
  "reserve_acceptance L e d q =
     (if \<not> validate_acceptance_reservation q then (Inl JournalErrInvalidRecord, d)
      else mutate L e d (acceptance_change e q))"

definition lookup :: "journal_lib \<Rightarrow> journal_env \<Rightarrow> disk \<Rightarrow> string \<Rightarrow> string \<Rightarrow> journal_error + journal_record" where
  "lookup L e d i digest =
     (if \<not> validate_reservation i digest then Inl JournalErrInvalidRecord
      else and_then (locked_load L e d) (\<lambda>s. lookup_exact s i digest))"

section \<open>Transitions\<close>

definition update_record ::
    "string \<Rightarrow> string \<Rightarrow> (journal_record \<Rightarrow> journal_error + journal_record \<times> bool) \<Rightarrow> persisted_state \<Rightarrow>
     journal_error + ((journal_record \<times> bool) \<times> persisted_state option)" where
  "update_record i digest change s =
     and_then (lookup_exact s i digest) (\<lambda>r. and_then (change r) (\<lambda>(r', changed).
       Inr ((r', changed), if changed then Some (s\<lparr>ps_Records := fmupd i r' (ps_Records s)\<rparr>) else None)))"

definition start_record :: "journal_env \<Rightarrow> journal_record \<Rightarrow> journal_error + journal_record \<times> bool" where
  "start_record e r =
     (case jr_State r of
        StateRunning \<Rightarrow> Inr (r, False)
      | StateAccepted \<Rightarrow>
          (let now = journal_time (je_now e) (jr_UpdatedAt r) in
           Inr (r\<lparr>jr_State := StateRunning, jr_StartedAt := now, jr_UpdatedAt := now,
                  jr_Revision := jr_Revision r + 1\<rparr>, True))
      | _ \<Rightarrow> Inl JournalErrInvalidTransition)"

definition mark_running ::
    "journal_lib \<Rightarrow> journal_env \<Rightarrow> disk \<Rightarrow> string \<Rightarrow> string \<Rightarrow> (journal_error + journal_record \<times> bool) \<times> disk" where
  "mark_running L e d i digest =
     (if \<not> validate_reservation i digest then (Inl JournalErrInvalidRecord, d)
      else mutate L e d (update_record i digest (start_record e)))"

definition lose_record :: "journal_env \<Rightarrow> journal_record \<Rightarrow> journal_error + journal_record \<times> bool" where
  "lose_record e r =
     (case jr_State r of
        StateIndeterminate \<Rightarrow> Inr (r, False)
      | StateRunning \<Rightarrow>
          (let now = journal_time (je_now e) (jr_UpdatedAt r) in
           Inr (r\<lparr>jr_State := StateIndeterminate, jr_UpdatedAt := now, jr_Revision := jr_Revision r + 1\<rparr>, True))
      | _ \<Rightarrow> Inl JournalErrInvalidTransition)"

definition mark_indeterminate ::
    "journal_lib \<Rightarrow> journal_env \<Rightarrow> disk \<Rightarrow> string \<Rightarrow> string \<Rightarrow> (journal_error + journal_record) \<times> disk" where
  "mark_indeterminate L e d i digest =
     (if \<not> validate_reservation i digest then (Inl JournalErrInvalidRecord, d)
      else record_only (mutate L e d (update_record i digest (lose_record e))))"

definition finalize_record :: "journal_env \<Rightarrow> finalization \<Rightarrow> journal_record \<Rightarrow> journal_error + journal_record \<times> bool" where
  "finalize_record e f r =
     (if journal_terminal (jr_State r) then
        (if jr_State r = fz_State f \<and> jr_OutcomeDigest r = fz_OutcomeDigest f then Inr (r, False)
         else Inl JournalErrConflict)
      else if jr_State r = StateAccepted \<and> fz_State f \<noteq> StateCanceled then Inl JournalErrInvalidTransition
      else if jr_State r \<noteq> StateAccepted \<and> jr_State r \<noteq> StateRunning \<and> jr_State r \<noteq> StateIndeterminate
      then Inl JournalErrInvalidTransition
      else let now = journal_time (je_now e) (jr_UpdatedAt r) in
        Inr (r\<lparr>jr_State := fz_State f, jr_OutcomeDigest := fz_OutcomeDigest f, jr_CompletedAt := now,
               jr_UpdatedAt := now, jr_Revision := jr_Revision r + 1\<rparr>, True))"

definition finalize ::
    "journal_lib \<Rightarrow> journal_env \<Rightarrow> disk \<Rightarrow> finalization \<Rightarrow> (journal_error + journal_record) \<times> disk" where
  "finalize L e d f =
     (if \<not> validate_finalization f then (Inl JournalErrInvalidRecord, d)
      else record_only (mutate L e d (update_record (fz_OperationID f) (fz_RequestDigest f) (finalize_record e f))))"

section \<open>Results\<close>

text \<open>\<^verbatim>\<open>sealedResultsEqual\<close> compares every field, so it is equality.\<close>

definition sealed_results_equal :: "sealed_result \<Rightarrow> sealed_result \<Rightarrow> bool" where
  "sealed_results_equal l r \<longleftrightarrow> sr_OperationID l = sr_OperationID r \<and> sr_RequestDigest l = sr_RequestDigest r \<and>
     sr_OutcomeDigest l = sr_OutcomeDigest r \<and> sr_MediaType l = sr_MediaType r \<and> sr_Envelope l = sr_Envelope r \<and>
     sr_PlaintextBytes l = sr_PlaintextBytes r \<and> sr_Nonce l = sr_Nonce r \<and> sr_Ciphertext l = sr_Ciphertext r"

definition result_change ::
    "journal_env \<Rightarrow> finalization \<Rightarrow> sealed_result \<Rightarrow> persisted_state \<Rightarrow>
     journal_error + ((journal_record \<times> bool) \<times> persisted_state option)" where
  "result_change e f v s =
     and_then (lookup_exact s (fz_OperationID f) (fz_RequestDigest f)) (\<lambda>r.
       if journal_terminal (jr_State r) then
         (if jr_State r = fz_State f \<and> jr_OutcomeDigest r = fz_OutcomeDigest f \<and>
             (case fmlookup (ps_Results s) (fz_OperationID f) of
                None \<Rightarrow> False | Some old \<Rightarrow> sealed_results_equal old v)
          then Inr ((r, False), None) else Inl JournalErrConflict)
       else if fmlookup (ps_Results s) (fz_OperationID f) \<noteq> None then Inl JournalErrUnavailable
       else and_then (finalize_record e f r) (\<lambda>(r', changed).
         if \<not> changed then Inl JournalErrConflict
         else Inr ((r', True), Some (s\<lparr>ps_Records := fmupd (fz_OperationID f) r' (ps_Records s),
           ps_Results := fmupd (fz_OperationID f) v (ps_Results s)\<rparr>))))"

definition finalize_with_result ::
    "journal_lib \<Rightarrow> journal_env \<Rightarrow> disk \<Rightarrow> finalization \<Rightarrow> sealed_result \<Rightarrow>
     (journal_error + journal_record) \<times> disk" where
  "finalize_with_result L e d f v =
     (if \<not> validate_finalization f then (Inl JournalErrInvalidRecord, d)
      else if fz_State f \<noteq> StateSucceeded \<or> fz_OutcomeDigest f = [] then (Inl JournalErrInvalidRecord, d)
      else if \<not> validate_sealed_result (jl_media L) v then (Inl JournalErrInvalidRecord, d)
      else if sr_OperationID v \<noteq> fz_OperationID f \<or> sr_RequestDigest v \<noteq> fz_RequestDigest f \<or>
        sr_OutcomeDigest v \<noteq> fz_OutcomeDigest f then (Inl JournalErrConflict, d)
      else record_only (mutate L e d (result_change e f v)))"

definition lookup_result ::
    "journal_lib \<Rightarrow> journal_env \<Rightarrow> disk \<Rightarrow> string \<Rightarrow> string \<Rightarrow> journal_error + journal_record \<times> sealed_result" where
  "lookup_result L e d i digest =
     (if \<not> validate_reservation i digest then Inl JournalErrInvalidRecord
      else and_then (locked_load L e d) (\<lambda>s.
        and_then (lookup_exact s i digest) (\<lambda>r.
          if jr_State r \<noteq> StateSucceeded \<or> jr_OutcomeDigest r = [] then Inl JournalErrInvalidTransition
          else case fmlookup (ps_Results s) i of
            None \<Rightarrow> Inl JournalErrNotFound
          | Some v \<Rightarrow>
              if sr_RequestDigest v \<noteq> digest \<or> sr_OutcomeDigest v \<noteq> jr_OutcomeDigest r
              then Inl JournalErrUnavailable else Inr (r, v))))"

end
