(* ===== verification/Journal_Invariant.thy ===== *)
theory Journal_Invariant
  imports Journal_Store Runs
begin

text \<open>
  Histories of the journal's file: what every method may do to the state, and what stays true of the
  file over any sequence of calls, whatever their clocks, contexts and storage errors.
\<close>

section \<open>Calls\<close>

datatype journal_call =
    Reserve reservation
  | ReserveAcceptance acceptance_reservation
  | MarkRunning string string
  | MarkIndeterminate string string
  | Finalize finalization
  | FinalizeWithResult finalization sealed_result

fun journal_file :: "journal_lib \<Rightarrow> journal_env \<Rightarrow> disk \<Rightarrow> journal_call \<Rightarrow> disk" where
  "journal_file L e d (Reserve q) = snd (journal_reserve L e d q)"
| "journal_file L e d (ReserveAcceptance q) = snd (reserve_acceptance L e d q)"
| "journal_file L e d (MarkRunning i g) = snd (mark_running L e d i g)"
| "journal_file L e d (MarkIndeterminate i g) = snd (mark_indeterminate L e d i g)"
| "journal_file L e d (Finalize f) = snd (finalize L e d f)"
| "journal_file L e d (FinalizeWithResult f v) = snd (finalize_with_result L e d f v)"

text \<open>The record a call acknowledges.\<close>

fun journal_ack :: "journal_lib \<Rightarrow> journal_env \<Rightarrow> disk \<Rightarrow> journal_call \<Rightarrow> journal_error + journal_record" where
  "journal_ack L e d (Reserve q) = map_sum id fst (fst (journal_reserve L e d q))"
| "journal_ack L e d (ReserveAcceptance q) = map_sum id fst (fst (reserve_acceptance L e d q))"
| "journal_ack L e d (MarkRunning i g) = map_sum id fst (fst (mark_running L e d i g))"
| "journal_ack L e d (MarkIndeterminate i g) = fst (mark_indeterminate L e d i g)"
| "journal_ack L e d (Finalize f) = fst (finalize L e d f)"
| "journal_ack L e d (FinalizeWithResult f v) = fst (finalize_with_result L e d f v)"

definition journal_step :: "journal_lib \<Rightarrow> disk \<Rightarrow> journal_env \<times> journal_call \<Rightarrow> disk \<Rightarrow> bool" where
  "journal_step L d c d' \<longleftrightarrow> d' = journal_file L (fst c) d (snd c)"

text \<open>The change each call asks \<open>mutate\<close> for.\<close>

fun call_change ::
    "journal_env \<Rightarrow> journal_call \<Rightarrow> persisted_state \<Rightarrow>
     journal_error + ((journal_record \<times> bool) \<times> persisted_state option)" where
  "call_change e (Reserve q) = reserve_change e q"
| "call_change e (ReserveAcceptance q) = acceptance_change e q"
| "call_change e (MarkRunning i g) = update_record i g (start_record e)"
| "call_change e (MarkIndeterminate i g) = update_record i g (lose_record e)"
| "call_change e (Finalize f) = update_record (fz_OperationID f) (fz_RequestDigest f) (finalize_record e f)"
| "call_change e (FinalizeWithResult f v) = result_change e f v"

text \<open>The checks before the lock.\<close>

fun call_valid :: "journal_lib \<Rightarrow> journal_call \<Rightarrow> bool" where
  "call_valid L (Reserve q) = validate_reservation (rs_OperationID q) (rs_RequestDigest q)"
| "call_valid L (ReserveAcceptance q) = validate_acceptance_reservation q"
| "call_valid L (MarkRunning i g) = validate_reservation i g"
| "call_valid L (MarkIndeterminate i g) = validate_reservation i g"
| "call_valid L (Finalize f) = validate_finalization f"
| "call_valid L (FinalizeWithResult f v) =
     (validate_finalization f \<and> \<not> (fz_State f \<noteq> StateSucceeded \<or> fz_OutcomeDigest f = []) \<and>
      validate_sealed_result (jl_media L) v \<and>
      \<not> (sr_OperationID v \<noteq> fz_OperationID f \<or> sr_RequestDigest v \<noteq> fz_RequestDigest f \<or>
         sr_OutcomeDigest v \<noteq> fz_OutcomeDigest f))"

lemma journal_file_mutate:
  "journal_file L e d c = (if call_valid L c then snd (mutate L e d (call_change e c)) else d)"
  by (cases c) (auto simp: journal_reserve_def reserve_acceptance_def mark_running_def mark_indeterminate_def finalize_def
      finalize_with_result_def record_only_def)

lemma journal_ack_mutate:
  "journal_ack L e d c = Inr r \<longleftrightarrow>
     call_valid L c \<and> map_sum id fst (fst (mutate L e d (call_change e c))) = Inr r"
  by (cases c) (auto simp: journal_reserve_def reserve_acceptance_def mark_running_def mark_indeterminate_def finalize_def
      finalize_with_result_def record_only_def)

section \<open>Replacing the file\<close>

text \<open>
  What the journal relies on of \<^verbatim>\<open>encoding/json\<close>: a valid state whose times are in UTC, when it can be
  encoded at all, is encoded in at least one byte and decoded to itself.
\<close>

definition file_of :: "persisted_state \<Rightarrow> persisted_file" where
  "file_of s = \<lparr>pf_Schema = ps_Schema s, pf_Records = Some (ps_Records s), pf_Replay = Some (ps_Replay s),
     pf_Results = Some (ps_Results s)\<rparr>"

definition in_utc :: "gotime \<Rightarrow> bool" where
  "in_utc t \<longleftrightarrow> location t = UTC"

definition record_utc :: "journal_record \<Rightarrow> bool" where
  "record_utc r \<longleftrightarrow> in_utc (jr_CreatedAt r) \<and> in_utc (jr_UpdatedAt r) \<and> in_utc (jr_StartedAt r) \<and> in_utc (jr_CompletedAt r)"

definition state_utc :: "persisted_state \<Rightarrow> bool" where
  "state_utc s \<longleftrightarrow> fmpred (\<lambda>_. record_utc) (ps_Records s) \<and> fmpred (\<lambda>_. in_utc) (ps_Replay s)"

definition json_faithful :: "journal_lib \<Rightarrow> bool" where
  "json_faithful L \<longleftrightarrow> (\<forall>s b. validate_persisted_state (jl_media L) s \<and> state_utc s \<and> jl_marshal L s = Some b \<longrightarrow>
     b \<noteq> [] \<and> jl_unmarshal L b = Some (file_of s))"

lemma load_written:
  assumes "json_faithful L" and "validate_persisted_state (jl_media L) s" and "state_utc s"
    and "jl_marshal L s = Some b" and "length b \<le> max_journal_bytes"
  shows "load L (Contents b) = Inr s"
proof -
  have b: "b \<noteq> []" "jl_unmarshal L b = Some (file_of s)"
    using assms(1-4) unfolding json_faithful_def by blast+
  have "ps_Schema s \<noteq> legacy_file_schema"
    using assms(2) by (simp add: validate_persisted_state_def file_schema_def legacy_file_schema_def)
  with b assms(2,5) show ?thesis
    by (cases s) (simp add: upgrade_file_def loaded_state_def file_of_def Let_def)
qed

text \<open>A call leaves the file alone or replaces it by one that holds the changed state.\<close>

lemma mutate_cases:
  assumes "mutate L e d change = (res, d')"
  obtains
    (failed) err where "res = Inl err" "d' = d"
  | (unchanged) s v where "load L d = Inr s" "change s = Inr (v, None)" "res = Inr v" "d' = d"
  | (written) s v s' b where "load L d = Inr s" "change s = Inr (v, Some s')" "validate_persisted_state (jl_media L) s'"
      "jl_marshal L s' = Some b" "length b \<le> max_journal_bytes" "d' = Contents b"
      "res = Inr v \<or> res = Inl JournalErrUnavailable \<and> je_fate e = FailAfterRename"
proof (cases "and_then (locked_load L e d) change")
  case (Inl err)
  with assms show thesis by (intro failed) (auto simp: mutate_def)
next
  case (Inr p)
  then obtain s where s: "load L d = Inr s" "change s = Inr p"
    by (auto simp: and_then_Inr_iff locked_load_def split: if_splits)
  obtain v o' where p: "p = (v, o')" by (cases p)
  show thesis
  proof (cases o')
    case None
    with assms Inr p s show thesis by (intro unchanged) (auto simp: mutate_def)
  next
    case (Some s')
    then have c: "commit L e d s' v = (res, d')" using assms Inr p by (simp add: mutate_def)
    show thesis
    proof (cases "je_live e \<and> validate_persisted_state (jl_media L) s' \<and>
        (\<exists>b. jl_marshal L s' = Some b \<and> length b \<le> max_journal_bytes) \<and> je_fate e \<noteq> FailBeforeRename")
      case True
      then obtain b where "jl_marshal L s' = Some b" "length b \<le> max_journal_bytes" by blast
      with True c s p Some show thesis
        by (intro written) (auto simp: commit_def persist_def split: persist_fate.splits)
    next
      case False
      with c have "(\<exists>err. res = Inl err) \<and> d' = d"
        by (auto simp: commit_def persist_def split: if_splits option.splits persist_fate.splits)
      then show thesis using failed by blast
    qed
  qed
qed

lemma journal_file_cases:
  assumes "journal_step L d c d'"
  obtains
    (kept) "d' = d"
  | (written) s v s' b where "call_valid L (snd c)" "load L d = Inr s" "call_change (fst c) (snd c) s = Inr (v, Some s')"
      "validate_persisted_state (jl_media L) s'" "jl_marshal L s' = Some b" "length b \<le> max_journal_bytes" "d' = Contents b"
proof (cases "call_valid L (snd c)")
  case True
  then have "mutate L (fst c) d (call_change (fst c) (snd c)) =
      (fst (mutate L (fst c) d (call_change (fst c) (snd c))), d')"
    using assms by (simp add: journal_step_def journal_file_mutate)
  then show thesis
    by (cases rule: mutate_cases) (use kept written True in blast)+
next
  case False
  with assms show thesis by (intro kept) (simp add: journal_step_def journal_file_mutate)
qed

section \<open>What a change may do\<close>

fun phase :: "journal_state \<Rightarrow> nat" where
  "phase StateAccepted = 0"
| "phase StateRunning = 1"
| "phase StateIndeterminate = 2"
| "phase (StateUnknown s) = 0"
| "phase _ = 3"

lemma terminal_phase: "journal_terminal st \<longleftrightarrow> phase st = 3"
  by (cases st) simp_all

text \<open>A record is replaced only by a later phase of the same request; results are never replaced.\<close>

definition record_advances :: "journal_record \<Rightarrow> journal_record \<Rightarrow> bool" where
  "record_advances r r' \<longleftrightarrow> r' = r \<or> jr_OperationID r' = jr_OperationID r \<and> jr_RequestDigest r' = jr_RequestDigest r \<and>
     jr_CreatedAt r' = jr_CreatedAt r \<and> phase (jr_State r) < phase (jr_State r')"

definition advances :: "persisted_state \<Rightarrow> persisted_state \<Rightarrow> bool" where
  "advances s s' \<longleftrightarrow>
     (\<forall>i r. fmlookup (ps_Records s) i = Some r \<longrightarrow>
        (\<exists>r'. fmlookup (ps_Records s') i = Some r' \<and> record_advances r r')) \<and>
     (\<forall>i v. fmlookup (ps_Results s) i = Some v \<longrightarrow> fmlookup (ps_Results s') i = Some v)"

lemma record_advances_refl [simp]: "record_advances r r"
  by (simp add: record_advances_def)

lemma record_advances_trans: "record_advances r r' \<Longrightarrow> record_advances r' r'' \<Longrightarrow> record_advances r r''"
  by (auto simp: record_advances_def)

lemma advances_refl [simp]: "advances s s"
  by (simp add: advances_def)

lemma advances_trans:
  assumes "advances s s'" and "advances s' s''"
  shows "advances s s''"
  using assms record_advances_trans unfolding advances_def by meson

lemma terminal_advances: "record_advances r r' \<Longrightarrow> journal_terminal (jr_State r) \<Longrightarrow> r' = r"
  using terminal_phase by (cases "jr_State r'") (auto simp: record_advances_def)

lemma record_change:
  assumes "start_record e r = Inr (r', c) \<or> lose_record e r = Inr (r', c) \<or>
      finalize_record e f r = Inr (r', c) \<and> journal_terminal (fz_State f)"
  shows "record_advances r r'" and "c \<Longrightarrow> phase (jr_State r) < phase (jr_State r')" and "\<not> c \<Longrightarrow> r' = r"
    and "jr_OperationID r' = jr_OperationID r" and "jr_RequestDigest r' = jr_RequestDigest r"
proof -
  have "record_advances r r' \<and> (c \<longrightarrow> phase (jr_State r) < phase (jr_State r')) \<and> (\<not> c \<longrightarrow> r' = r) \<and>
      jr_OperationID r' = jr_OperationID r \<and> jr_RequestDigest r' = jr_RequestDigest r"
    using assms
  proof (elim disjE conjE)
    assume "finalize_record e f r = Inr (r', c)" "journal_terminal (fz_State f)"
    then show ?thesis
      by (auto simp: finalize_record_def record_advances_def Let_def terminal_phase split: if_splits)
  qed (auto simp: start_record_def lose_record_def record_advances_def Let_def split: journal_state.splits)
  then show "record_advances r r'" and "c \<Longrightarrow> phase (jr_State r) < phase (jr_State r')" and "\<not> c \<Longrightarrow> r' = r"
    and "jr_OperationID r' = jr_OperationID r" and "jr_RequestDigest r' = jr_RequestDigest r" by blast+
qed

lemma in_utc_simps [simp]: "in_utc (utc t)" "in_utc unix_zero" "in_utc zero_time"
  by (simp_all add: in_utc_def unix_zero_def zero_time_def)

lemma journal_time_utc: "in_utc t \<Longrightarrow> in_utc (journal_time clock t)"
  by (simp add: journal_time_def Let_def)

lemma record_change_utc:
  assumes "start_record e r = Inr (r', c) \<or> lose_record e r = Inr (r', c) \<or> finalize_record e f r = Inr (r', c)"
    and "record_utc r"
  shows "record_utc r'"
  using assms journal_time_utc [of "jr_UpdatedAt r"]
  by (auto simp: start_record_def lose_record_def finalize_record_def record_utc_def Let_def
      split: journal_state.splits if_splits)

text \<open>What one call makes of the state: the record of its operation, and possibly a result or a replay key.\<close>

lemma lookup_exact_Inr:
  "lookup_exact s i g = Inr r \<longleftrightarrow> fmlookup (ps_Records s) i = Some r \<and> jr_RequestDigest r = g"
  by (auto simp: lookup_exact_def split: option.splits)

lemma update_record_Inr:
  "update_record i g change s = Inr (v, o') \<longleftrightarrow>
     (\<exists>r r' c. fmlookup (ps_Records s) i = Some r \<and> jr_RequestDigest r = g \<and> change r = Inr (r', c) \<and> v = (r', c) \<and>
       o' = (if c then Some (s\<lparr>ps_Records := fmupd i r' (ps_Records s)\<rparr>) else None))"
  by (auto simp: update_record_def and_then_Inr_iff lookup_exact_Inr)

text \<open>The shape of a change: one record is added or advanced, and results and replay keys only grow.\<close>

definition changed_record :: "persisted_state \<Rightarrow> journal_record \<Rightarrow> persisted_state \<Rightarrow> bool" where
  "changed_record s r s' \<longleftrightarrow>
     (ps_Records s' = ps_Records s \<and> fmlookup (ps_Records s) (jr_OperationID r) = Some r \<or>
      ps_Records s' = fmupd (jr_OperationID r) r (ps_Records s) \<and>
      (\<forall>r\<^sub>0. fmlookup (ps_Records s) (jr_OperationID r) = Some r\<^sub>0 \<longrightarrow> record_advances r\<^sub>0 r)) \<and>
     (ps_Results s' = ps_Results s \<or>
      fmlookup (ps_Results s) (jr_OperationID r) = None \<and> (\<exists>v. ps_Results s' = fmupd (jr_OperationID r) v (ps_Results s)))"

lemma changed_record_advances: "changed_record s r s' \<Longrightarrow> advances s s'"
  by (auto simp: changed_record_def advances_def)

lemma changed_record_lookup: "changed_record s r s' \<Longrightarrow> fmlookup (ps_Records s') (jr_OperationID r) = Some r"
  by (auto simp: changed_record_def)

lemma keyed: "validate_persisted_state m s \<Longrightarrow> fmlookup (ps_Records s) i = Some r \<Longrightarrow> jr_OperationID r = i"
  by (auto simp: validate_persisted_state_def dest: fmpredD)

lemma accepted_record_utc [simp]: "record_utc (accepted_record i g (journal_time clock zero_time))"
  using journal_time_utc [of zero_time clock] by (simp add: record_utc_def accepted_record_def)

lemma accepted_record_id [simp]: "jr_OperationID (accepted_record i g t) = i"
  by (simp add: accepted_record_def)

lemma reserve_change_record:
  assumes "reserve_change e q s = Inr ((r, c), Some s')"
  shows "changed_record s r s'" and "ps_Replay s' = ps_Replay s" and "state_utc s \<Longrightarrow> state_utc s'"
proof -
  have s': "s' = put_record s r" "r = accepted_record (rs_OperationID q) (rs_RequestDigest q) (journal_time (je_now e) zero_time)"
      "fmlookup (ps_Records s) (jr_OperationID r) = None"
    using assms by (auto simp: reserve_change_def Let_def split: option.splits if_splits)
  then show "changed_record s r s'" "ps_Replay s' = ps_Replay s"
    by (auto simp: changed_record_def put_record_def)
  show "state_utc s'" if "state_utc s"
    using that s'(1) s'(2) by (simp add: state_utc_def put_record_def fmpred_upd)
qed

lemma update_change_record:
  assumes "update_record i g change s = Inr ((r, c), Some s')" and "validate_persisted_state m s"
    and "\<And>r\<^sub>0. change r\<^sub>0 = Inr (r, c) \<Longrightarrow> record_advances r\<^sub>0 r \<and> jr_OperationID r = jr_OperationID r\<^sub>0 \<and> (record_utc r\<^sub>0 \<longrightarrow> record_utc r)"
  shows "changed_record s r s'" and "ps_Replay s' = ps_Replay s" and "state_utc s \<Longrightarrow> state_utc s'"
proof -
  obtain r\<^sub>0 where r0: "fmlookup (ps_Records s) i = Some r\<^sub>0" "change r\<^sub>0 = Inr (r, c)"
      and s': "s' = s\<lparr>ps_Records := fmupd i r (ps_Records s)\<rparr>"
    using assms(1) by (auto simp: update_record_Inr split: if_splits)
  have i: "jr_OperationID r = i" using keyed [OF assms(2) r0(1)] assms(3) [OF r0(2)] by simp
  show "changed_record s r s'" "ps_Replay s' = ps_Replay s"
    using assms(3) [OF r0(2)] r0(1) i s' by (auto simp: changed_record_def)
  show "state_utc s'" if "state_utc s"
  proof -
    have "record_utc r\<^sub>0" using that r0(1) by (auto simp: state_utc_def dest: fmpredD)
    then show ?thesis using that assms(3) [OF r0(2)] s' by (auto simp: state_utc_def)
  qed
qed

lemma result_change_record:
  assumes "result_change e f v s = Inr ((r, c), Some s')" and "validate_persisted_state m s"
    and "journal_terminal (fz_State f)"
  shows "changed_record s r s'" and "ps_Replay s' = ps_Replay s" and "state_utc s \<Longrightarrow> state_utc s'"
    and "jr_OperationID r = fz_OperationID f" and "fmlookup (ps_Results s') (fz_OperationID f) = Some v"
    and "jr_State r = fz_State f" and "jr_OutcomeDigest r = fz_OutcomeDigest f" and "jr_RequestDigest r = fz_RequestDigest f"
proof -
  obtain r\<^sub>0 where r0: "fmlookup (ps_Records s) (fz_OperationID f) = Some r\<^sub>0" "jr_RequestDigest r\<^sub>0 = fz_RequestDigest f"
      "\<not> journal_terminal (jr_State r\<^sub>0)" "fmlookup (ps_Results s) (fz_OperationID f) = None"
      "finalize_record e f r\<^sub>0 = Inr (r, True)"
      and s': "s' = s\<lparr>ps_Records := fmupd (fz_OperationID f) r (ps_Records s),
        ps_Results := fmupd (fz_OperationID f) v (ps_Results s)\<rparr>"
    using assms(1) by (auto simp: result_change_def and_then_Inr_iff lookup_exact_Inr split: if_splits)
  note rc = record_change [of e r\<^sub>0 r True f] record_change_utc [of e r\<^sub>0 r True f]
  show i: "jr_OperationID r = fz_OperationID f" using keyed [OF assms(2) r0(1)] rc(4) r0(5) assms(3) by simp
  show "changed_record s r s'"
    using rc(1) r0 i s' assms(3) by (auto simp: changed_record_def)
  show "ps_Replay s' = ps_Replay s" "fmlookup (ps_Results s') (fz_OperationID f) = Some v" using s' by simp_all
  show "jr_State r = fz_State f" "jr_OutcomeDigest r = fz_OutcomeDigest f" "jr_RequestDigest r = fz_RequestDigest f"
    using r0(2,3,5) by (auto simp: finalize_record_def Let_def)
  show "state_utc s'" if "state_utc s"
  proof -
    have "record_utc r\<^sub>0" using that r0(1) by (auto simp: state_utc_def dest: fmpredD)
    then show ?thesis using that rc(6) r0(5) s' by (auto simp: state_utc_def)
  qed
qed

lemma retained_lookup:
  "fmlookup (retained now m) k = (case fmlookup m k of None \<Rightarrow> None | Some t \<Rightarrow> if before now t then Some t else None)"
  by (auto simp: retained_def split: option.splits)

lemma acceptance_change_record:
  assumes "acceptance_change e q s = Inr ((r, c), o')" and "validate_persisted_state m s"
  obtains s' where "o' = Some s'" and "changed_record s r s'" and "state_utc s \<Longrightarrow> state_utc s'"
    and "fmlookup (ps_Replay s') (ac_ReplayKey q) = Some (utc (ac_ReplayRetainUntil q))"
    and "\<And>k t. fmlookup (ps_Replay s) k = Some t \<Longrightarrow> before (journal_time (je_now e) zero_time) t \<Longrightarrow>
      fmlookup (ps_Replay s') k = Some t"
    and "\<And>t. fmlookup (ps_Replay s) (ac_ReplayKey q) = Some t \<Longrightarrow> \<not> before (journal_time (je_now e) zero_time) t"
proof -
  let ?now = "journal_time (je_now e) zero_time" and ?i = "rs_OperationID (ac_Operation q)"
  let ?put = "\<lambda>s'. s'\<lparr>ps_Replay := fmupd (ac_ReplayKey q) (utc (ac_ReplayRetainUntil q)) (ps_Replay s')\<rparr>"
  let ?s1 = "s\<lparr>ps_Replay := retained ?now (ps_Replay s)\<rparr>"
  have free: "\<not> before ?now t" if "fmlookup (ps_Replay s) (ac_ReplayKey q) = Some t" for t
    using assms(1) that by (auto simp: acceptance_change_def Let_def retained_lookup split: if_splits)
  have "(fmlookup (ps_Records s) ?i = Some r \<and> o' = Some (?put ?s1)) \<or>
      (fmlookup (ps_Records s) ?i = None \<and> r = accepted_record ?i (rs_RequestDigest (ac_Operation q)) ?now \<and>
       o' = Some (?put (put_record ?s1 r)))"
    using assms(1)
    by (auto simp: acceptance_change_def Let_def and_then_Inr_iff split: if_splits option.splits)
  then obtain s' where s': "o' = Some s'" "ps_Results s' = ps_Results s"
      "ps_Replay s' = fmupd (ac_ReplayKey q) (utc (ac_ReplayRetainUntil q)) (retained ?now (ps_Replay s))"
      "ps_Records s' = ps_Records s \<and> fmlookup (ps_Records s) ?i = Some r \<or>
       ps_Records s' = fmupd ?i r (ps_Records s) \<and> fmlookup (ps_Records s) ?i = None \<and>
       r = accepted_record ?i (rs_RequestDigest (ac_Operation q)) ?now"
    by (auto simp: put_record_def accepted_record_def)
  have id: "jr_OperationID r = ?i"
    using s'(4) keyed [OF assms(2)] by (auto simp: accepted_record_def)
  show thesis
  proof (rule that [OF s'(1)])
    show "changed_record s r s'" using s'(2,4) id by (auto simp: changed_record_def)
    show "fmlookup (ps_Replay s') (ac_ReplayKey q) = Some (utc (ac_ReplayRetainUntil q))" using s'(3) by simp
    show "state_utc s'" if "state_utc s"
    proof -
      have "fmpred (\<lambda>_. in_utc) (retained ?now (ps_Replay s))"
        using that by (auto simp: state_utc_def retained_def)
      moreover have "fmpred (\<lambda>_. record_utc) (ps_Records s')"
        using that s'(4) by (auto simp: state_utc_def fmpred_upd)
      ultimately show ?thesis using s'(3) by (auto simp: state_utc_def)
    qed
    show "fmlookup (ps_Replay s') k = Some t" if "fmlookup (ps_Replay s) k = Some t" "before ?now t" for k t
      using s'(3) that free by (auto simp: retained_lookup)
    show "\<not> before ?now t" if "fmlookup (ps_Replay s) (ac_ReplayKey q) = Some t" for t
      using free that .
  qed
qed

lemma call_change_record:
  assumes "call_change e c s = Inr ((r, b), Some s')" and "validate_persisted_state m s" and "call_valid L c"
  shows "changed_record s r s'" and "state_utc s \<Longrightarrow> state_utc s'"
    and "\<And>k t. fmlookup (ps_Replay s) k = Some t \<Longrightarrow> before (journal_time (je_now e) zero_time) t \<Longrightarrow>
      fmlookup (ps_Replay s') k = Some t"
proof -
  have "changed_record s r s' \<and> (state_utc s \<longrightarrow> state_utc s') \<and>
      (\<forall>k t. fmlookup (ps_Replay s) k = Some t \<longrightarrow> before (journal_time (je_now e) zero_time) t \<longrightarrow>
        fmlookup (ps_Replay s') k = Some t)"
  proof (cases c)
    case (Reserve q)
    then show ?thesis using assms(1) reserve_change_record by simp
  next
    case (ReserveAcceptance q)
    then have "acceptance_change e q s = Inr ((r, b), Some s')" using assms(1) by simp
    then show ?thesis using acceptance_change_record [OF _ assms(2)] by (metis option.inject)
  next
    case (MarkRunning i g)
    with assms(1) have u: "update_record i g (start_record e) s = Inr ((r, b), Some s')" by simp
    have "record_advances r\<^sub>0 r \<and> jr_OperationID r = jr_OperationID r\<^sub>0 \<and> (record_utc r\<^sub>0 \<longrightarrow> record_utc r)"
      if "start_record e r\<^sub>0 = Inr (r, b)" for r\<^sub>0
      using that record_change(1,4) [of e r\<^sub>0 r b] record_change_utc [of e r\<^sub>0 r b] by blast
    from update_change_record [OF u assms(2) this] show ?thesis by simp
  next
    case (MarkIndeterminate i g)
    with assms(1) have u: "update_record i g (lose_record e) s = Inr ((r, b), Some s')" by simp
    have "record_advances r\<^sub>0 r \<and> jr_OperationID r = jr_OperationID r\<^sub>0 \<and> (record_utc r\<^sub>0 \<longrightarrow> record_utc r)"
      if "lose_record e r\<^sub>0 = Inr (r, b)" for r\<^sub>0
      using that record_change(1,4) [of e r\<^sub>0 r b] record_change_utc [of e r\<^sub>0 r b] by blast
    from update_change_record [OF u assms(2) this] show ?thesis by simp
  next
    case (Finalize f)
    with assms(1) have u: "update_record (fz_OperationID f) (fz_RequestDigest f) (finalize_record e f) s = Inr ((r, b), Some s')"
      by simp
    have "journal_terminal (fz_State f)" using assms(3) Finalize by (simp add: validate_finalization_def)
    then have "record_advances r\<^sub>0 r \<and> jr_OperationID r = jr_OperationID r\<^sub>0 \<and> (record_utc r\<^sub>0 \<longrightarrow> record_utc r)"
      if "finalize_record e f r\<^sub>0 = Inr (r, b)" for r\<^sub>0
      using that record_change(1,4) [of e r\<^sub>0 r b f] record_change_utc [of e r\<^sub>0 r b f] by blast
    from update_change_record [OF u assms(2) this] show ?thesis by simp
  next
    case (FinalizeWithResult f v)
    then have "result_change e f v s = Inr ((r, b), Some s')" "journal_terminal (fz_State f)"
      using assms(1,3) by (simp_all add: validate_finalization_def)
    from result_change_record [OF this(1) assms(2) this(2)] show ?thesis by simp
  qed
  then show "changed_record s r s'" and "state_utc s \<Longrightarrow> state_utc s'"
    and "\<And>k t. fmlookup (ps_Replay s) k = Some t \<Longrightarrow> before (journal_time (je_now e) zero_time) t \<Longrightarrow>
      fmlookup (ps_Replay s') k = Some t" by blast+
qed

lemma update_unchanged:
  assumes "update_record i g change s = Inr ((r, b), None)" and "validate_persisted_state m s"
    and "\<And>r\<^sub>0. change r\<^sub>0 = Inr (r, False) \<Longrightarrow> r = r\<^sub>0"
  shows "fmlookup (ps_Records s) (jr_OperationID r) = Some r"
  using assms(1,3) keyed [OF assms(2)] by (auto simp: update_record_Inr split: if_splits)

lemma call_unchanged:
  assumes "call_change e c s = Inr ((r, b), None)" and "validate_persisted_state m s" and "call_valid L c"
  shows "fmlookup (ps_Records s) (jr_OperationID r) = Some r"
proof (cases c)
  case (Reserve q)
  with assms(1) keyed [OF assms(2)] show ?thesis
    by (auto simp: reserve_change_def Let_def split: option.splits if_splits)
next
  case (ReserveAcceptance q)
  with assms(1) have "acceptance_change e q s = Inr ((r, b), None)" by simp
  then show ?thesis by (rule acceptance_change_record [OF _ assms(2)]) simp
next
  case (MarkRunning i g)
  with assms(1) show ?thesis
    using update_unchanged [OF _ assms(2), of i g "start_record e" r b] record_change(3) [of e _ r False] by auto
next
  case (MarkIndeterminate i g)
  with assms(1) show ?thesis
    using update_unchanged [OF _ assms(2), of i g "lose_record e" r b] record_change(3) [of e _ r False] by auto
next
  case (Finalize f)
  with assms(1,3) show ?thesis
    using update_unchanged [OF _ assms(2), of "fz_OperationID f" "fz_RequestDigest f" "finalize_record e f" r b]
      record_change(3) [of e _ r False f]
    by (auto simp: validate_finalization_def)
next
  case (FinalizeWithResult f v)
  with assms(1) keyed [OF assms(2)] show ?thesis
    by (auto simp: result_change_def and_then_Inr_iff lookup_exact_Inr split: if_splits option.splits)
qed

section \<open>Histories\<close>

lemma empty_state_valid: "validate_persisted_state m empty_state" "state_utc empty_state"
  by (simp_all add: validate_persisted_state_def empty_state_def state_utc_def fcard.rep_eq)

lemma load_valid: "load L d = Inr s \<Longrightarrow> validate_persisted_state (jl_media L) s"
  by (cases d) (auto simp: empty_state_valid and_then_Inr_iff loaded_state_def Let_def split: if_splits option.splits)

text \<open>The file holds a state that has advanced from \<open>s\<close>.\<close>

definition grown :: "journal_lib \<Rightarrow> persisted_state \<Rightarrow> disk \<Rightarrow> bool" where
  "grown L s d \<longleftrightarrow> (\<exists>s'. load L d = Inr s' \<and> state_utc s' \<and> advances s s')"

text \<open>A step, seen as a step of states.\<close>

lemma journal_step_state:
  assumes "json_faithful L" and "journal_step L d c d'" and "load L d = Inr s" and "state_utc s"
  obtains s' where "load L d' = Inr s'" and "state_utc s'" and "advances s s'"
    and "\<And>k t. fmlookup (ps_Replay s) k = Some t \<Longrightarrow> before (journal_time (je_now (fst c)) zero_time) t \<Longrightarrow>
      fmlookup (ps_Replay s') k = Some t"
  using assms(2)
proof (cases rule: journal_file_cases)
  case kept
  with assms that show thesis by simp
next
  case (written s\<^sub>1 v s' b)
  then have [simp]: "s\<^sub>1 = s" using assms(3) by simp
  obtain r c' where v: "v = (r, c')" by (cases v)
  note cr = call_change_record [OF written(3) [unfolded v] load_valid [OF written(2)] written(1)]
  have "state_utc s'" using cr(2) assms(4) by simp
  then have "load L d' = Inr s'"
    using load_written [OF assms(1) written(4) _ written(5,6)] written(7) by simp
  with \<open>state_utc s'\<close> cr show thesis
    using that changed_record_advances by simp
qed

interpretation journal_grows: preserved "journal_step L" "\<lambda>d. json_faithful L \<longrightarrow> grown L s\<^sub>0 d" for L s\<^sub>0
proof
  fix d c d'
  assume g: "json_faithful L \<longrightarrow> grown L s\<^sub>0 d" and step: "journal_step L d c d'"
  show "json_faithful L \<longrightarrow> grown L s\<^sub>0 d'"
  proof
    assume j: "json_faithful L"
    with g obtain s where s: "load L d = Inr s" "state_utc s" "advances s\<^sub>0 s" by (auto simp: grown_def)
    obtain s' where "load L d' = Inr s'" "state_utc s'" "advances s s'"
      by (rule journal_step_state [OF j step s(1,2)])
    with s(3) show "grown L s\<^sub>0 d'" using advances_trans unfolding grown_def by blast
  qed
qed

lemma run_grown:
  assumes "json_faithful L" and "run (journal_step L) d cs d'" and "load L d = Inr s" and "state_utc s"
  obtains s' where "load L d' = Inr s'" and "state_utc s'" and "advances s s'"
  using journal_grows.run_keeps [OF assms(2), of s] assms(1,3,4) advances_refl unfolding grown_def by blast

lemma run_new:
  assumes "json_faithful L" and "run (journal_step L) NoFile cs d"
  obtains s where "load L d = Inr s" and "state_utc s"
  using run_grown [OF assms, of empty_state] empty_state_valid by auto

lemma run_replay:
  assumes "run (journal_step L) d cs d'" and "json_faithful L" and "load L d = Inr s" and "state_utc s"
    and "fmlookup (ps_Replay s) k = Some t"
    and "list_all (\<lambda>c. before (journal_time (je_now (fst c)) zero_time) t) cs"
  shows "\<exists>s'. load L d' = Inr s' \<and> state_utc s' \<and> fmlookup (ps_Replay s') k = Some t"
  using assms
proof (induction arbitrary: s rule: run.induct)
  case (run_Cons d c d' cs d'')
  obtain s' where s': "load L d' = Inr s'" "state_utc s'" and "advances s s'"
      and k: "\<And>k t. fmlookup (ps_Replay s) k = Some t \<Longrightarrow> before (journal_time (je_now (fst c)) zero_time) t \<Longrightarrow>
        fmlookup (ps_Replay s') k = Some t"
    by (rule journal_step_state [OF run_Cons.prems(1) run_Cons.hyps(1) run_Cons.prems(2,3)]) blast
  have "fmlookup (ps_Replay s') k = Some t" using k run_Cons.prems(4,5) by simp
  from run_Cons.IH [OF run_Cons.prems(1) s' this] run_Cons.prems(5) show ?case by simp
qed auto

text \<open>What a call acknowledges is in the file it leaves.\<close>

lemma acknowledged:
  assumes "json_faithful L" and "load L d = Inr s" and "state_utc s"
    and "call_valid L c" and "mutate L e d (call_change e c) = (Inr (r, b), d')"
  obtains s' where "load L d' = Inr s'" and "state_utc s'" and "fmlookup (ps_Records s') (jr_OperationID r) = Some r"
  using assms(5)
proof (cases rule: mutate_cases)
  case (unchanged s\<^sub>1 v)
  then have "call_change e c s = Inr ((r, b), None)" using assms(2) by simp
  from call_unchanged [OF this load_valid [OF assms(2)] assms(4)] unchanged assms(2,3) show thesis
    using that by simp
next
  case (written s\<^sub>1 v s' bs)
  then have w: "call_change e c s = Inr ((r, b), Some s')" using assms(2) by auto
  note cr = call_change_record [OF w load_valid [OF assms(2)] assms(4)]
  have "load L d' = Inr s'"
    using load_written [OF assms(1) written(3) cr(2) written(4,5)] assms(3) written(6) by simp
  with cr assms(3) show thesis using that changed_record_lookup by blast
qed simp

end
