(* ===== verification/Journal_Properties.thy ===== *)
theory Journal_Properties
  imports Journal_Invariant
begin

text \<open>
  What the operation journal guarantees over every history of its file, storage errors with an unknown
  outcome included; each property is applied to one history in which an operation is accepted,
  started and finalized with a result.
\<close>

section \<open>Consequences of the histories\<close>

lemma lookup_loaded:
  assumes "validate_reservation i g" and "je_locked e" and "load L d = Inr s"
  shows "lookup L e d i g = lookup_exact s i g"
  using assms by (simp add: lookup_def locked_load_def)

lemma lookup_Inr:
  "lookup L e d i g = Inr r \<longleftrightarrow> validate_reservation i g \<and> je_locked e \<and>
     (\<exists>s. load L d = Inr s \<and> fmlookup (ps_Records s) i = Some r \<and> jr_RequestDigest r = g)"
  by (auto simp: lookup_def locked_load_def and_then_Inr_iff lookup_exact_Inr)

lemma record_valid:
  "load L d = Inr s \<Longrightarrow> fmlookup (ps_Records s) i = Some r \<Longrightarrow> validate_reservation i (jr_RequestDigest r) \<and> jr_OperationID r = i"
  using load_valid [of L d s]
  by (auto simp: validate_persisted_state_def validate_persisted_record_def dest!: fmpredD)

lemma advances_record:
  assumes "advances s s'" and "fmlookup (ps_Records s) i = Some r"
  obtains r' where "fmlookup (ps_Records s') i = Some r'" and "record_advances r r'"
  using assms unfolding advances_def by blast

lemma started_phase:
  assumes "mark_running L e d i g = (Inr (r, True), d')" and "load L d = Inr s"
  obtains r\<^sub>0 where "fmlookup (ps_Records s) i = Some r\<^sub>0" and "jr_State r\<^sub>0 = StateAccepted" and "jr_State r = StateRunning"
    and "jr_OperationID r = i"
proof -
  have "mutate L e d (update_record i g (start_record e)) = (Inr (r, True), d')"
    using assms(1) by (auto simp: mark_running_def split: if_splits)
  then show thesis
  proof (cases rule: mutate_cases)
    case (unchanged s\<^sub>1 v)
    then show thesis by (auto simp: update_record_Inr split: if_splits)
  next
    case (written s\<^sub>1 v s' b)
    then obtain r\<^sub>0 where "fmlookup (ps_Records s) i = Some r\<^sub>0" "start_record e r\<^sub>0 = Inr (r, True)"
      using assms(2) by (auto simp: update_record_Inr split: if_splits)
    with that record_valid [OF assms(2)] show thesis
      by (auto simp: start_record_def Let_def split: journal_state.splits)
  qed simp
qed

lemma sealed_results_equal_iff: "sealed_results_equal l r \<longleftrightarrow> l = r"
  by (cases l, cases r) (auto simp: sealed_results_equal_def)

lemma finalized_with_result:
  assumes "json_faithful L" and "load L d = Inr s" and "state_utc s"
    and "finalize_with_result L e d f v = (Inr r, d')"
  obtains s' where "load L d' = Inr s'" and "state_utc s'" and "fmlookup (ps_Records s') (fz_OperationID f) = Some r"
    and "fmlookup (ps_Results s') (fz_OperationID f) = Some v"
    and "jr_State r = StateSucceeded" and "jr_OutcomeDigest r = fz_OutcomeDigest f" and "jr_RequestDigest r = fz_RequestDigest f"
    and "fz_OutcomeDigest f \<noteq> []" and "sr_RequestDigest v = fz_RequestDigest f" and "sr_OutcomeDigest v = fz_OutcomeDigest f"
proof -
  have cv: "call_valid L (FinalizeWithResult f v)" "record_only (mutate L e d (result_change e f v)) = (Inr r, d')"
    using assms(4) by (auto simp: finalize_with_result_def split: if_splits)
  then have f: "fz_State f = StateSucceeded" "journal_terminal (fz_State f)" "fz_OutcomeDigest f \<noteq> []"
      "sr_RequestDigest v = fz_RequestDigest f" "sr_OutcomeDigest v = fz_OutcomeDigest f" by auto
  obtain c where m: "mutate L e d (result_change e f v) = (Inr (r, c), d')"
    using cv(2) by (cases "fst (mutate L e d (result_change e f v))")
      (auto simp: record_only_def apfst_def map_prod_def split: prod.splits)
  obtain s' where s': "load L d' = Inr s'" "state_utc s'" "fmlookup (ps_Records s') (jr_OperationID r) = Some r"
    using acknowledged [OF assms(1-3) cv(1), of e r c d'] m by auto
  have "fmlookup (ps_Results s') (fz_OperationID f) = Some v \<and> jr_State r = StateSucceeded \<and>
      jr_OperationID r = fz_OperationID f \<and> jr_OutcomeDigest r = fz_OutcomeDigest f \<and> jr_RequestDigest r = fz_RequestDigest f"
    using m
  proof (cases rule: mutate_cases)
    case (unchanged s\<^sub>1 w)
    then have "result_change e f v s' = Inr ((r, c), None)" using s'(1) by simp
    then show ?thesis
      using f record_valid [OF s'(1)]
      by (auto simp: result_change_def and_then_Inr_iff lookup_exact_Inr sealed_results_equal_iff split: if_splits option.splits)
  next
    case (written s\<^sub>1 w s\<^sub>2 b)
    then have w: "result_change e f v s = Inr ((r, c), Some s\<^sub>2)" using assms(2) by auto
    note rc = result_change_record [OF w load_valid [OF assms(2)] f(2)]
    have "load L d' = Inr s\<^sub>2"
      using load_written [OF assms(1) written(3) rc(3) written(4,5)] assms(3) written(6) by simp
    then show ?thesis using rc f s'(1) by simp
  qed simp
  with s' f show thesis using that by simp
qed

lemma accepted_replay_key:
  assumes "json_faithful L" and "load L d = Inr s" and "state_utc s"
    and "reserve_acceptance L e d q = (Inr v, d')"
  obtains s' where "load L d' = Inr s'" and "state_utc s'"
    and "fmlookup (ps_Replay s') (ac_ReplayKey q) = Some (utc (ac_ReplayRetainUntil q))"
    and "\<And>t. fmlookup (ps_Replay s) (ac_ReplayKey q) = Some t \<Longrightarrow> \<not> before (journal_time (je_now e) zero_time) t"
proof -
  obtain r c where v: "v = (r, c)" by (cases v)
  have m: "mutate L e d (acceptance_change e q) = (Inr (r, c), d')"
    using assms(4) v by (auto simp: reserve_acceptance_def split: if_splits)
  then show thesis
  proof (cases rule: mutate_cases)
    case (unchanged s\<^sub>1 w)
    then show thesis using acceptance_change_record [OF _ load_valid] by (metis option.distinct(1) sum.inject(2))
  next
    case (written s\<^sub>1 w s' b)
    then have a: "acceptance_change e q s = Inr ((r, c), Some s')" using assms(2) by auto
    show thesis
    proof (rule acceptance_change_record [OF a load_valid [OF assms(2)]])
      fix s'' assume s'': "Some s' = Some s''" "state_utc s \<Longrightarrow> state_utc s''"
        "fmlookup (ps_Replay s'') (ac_ReplayKey q) = Some (utc (ac_ReplayRetainUntil q))"
        "\<And>t. fmlookup (ps_Replay s) (ac_ReplayKey q) = Some t \<Longrightarrow> \<not> before (journal_time (je_now e) zero_time) t"
      then have "load L d' = Inr s'"
        using load_written [OF assms(1) written(3) _ written(4,5)] assms(3) written(6) by simp
      with s'' assms(3) that show thesis by simp
    qed
  qed simp
qed

section \<open>An example\<close>

definition jx_time :: "int \<Rightarrow> gotime" where
  "jx_time n = \<lparr>instant = n, location = UTC\<rparr>"

definition jx_hash :: "char \<Rightarrow> string" where
  "jx_hash c = sha256_prefix @ hex_encode (replicate 32 c)"

definition jx_key :: string where
  "jx_key = ''nonce'' @ CHR '':'' # hex_encode (replicate 32 CHR ''k'')"

definition jx_env :: "int \<Rightarrow> journal_env" where
  "jx_env n = \<lparr>je_now = jx_time n, je_locked = True, je_live = True, je_fate = Committed\<rparr>"

definition jx_acceptance :: acceptance_reservation where
  "jx_acceptance = \<lparr>ac_ReplayKey = jx_key, ac_ReplayRetainUntil = jx_time 100,
     ac_Operation = \<lparr>rs_OperationID = ''op-1'', rs_RequestDigest = jx_hash CHR ''r''\<rparr>\<rparr>"

definition jx_final :: finalization where
  "jx_final = \<lparr>fz_OperationID = ''op-1'', fz_RequestDigest = jx_hash CHR ''r'', fz_State = StateSucceeded,
     fz_OutcomeDigest = jx_hash CHR ''o''\<rparr>"

definition jx_result :: sealed_result where
  "jx_result = \<lparr>sr_OperationID = ''op-1'', sr_RequestDigest = jx_hash CHR ''r'', sr_OutcomeDigest = jx_hash CHR ''o'',
     sr_MediaType = ''text/plain'', sr_Envelope = sealed_result_envelope, sr_PlaintextBytes = 0,
     sr_Nonce = replicate 12 CHR ''n'', sr_Ciphertext = replicate 16 CHR ''c''\<rparr>"

definition jx_r1 :: journal_record where
  "jx_r1 = accepted_record ''op-1'' (jx_hash CHR ''r'') (jx_time 10)"

definition jx_r2 :: journal_record where
  "jx_r2 = jx_r1\<lparr>jr_State := StateRunning, jr_StartedAt := jx_time 20, jr_UpdatedAt := jx_time 20, jr_Revision := 2\<rparr>"

definition jx_r3 :: journal_record where
  "jx_r3 = jx_r2\<lparr>jr_State := StateSucceeded, jr_OutcomeDigest := jx_hash CHR ''o'', jr_CompletedAt := jx_time 30,
     jr_UpdatedAt := jx_time 30, jr_Revision := 3\<rparr>"

definition jx_state :: "journal_record \<Rightarrow> (string, sealed_result) fmap \<Rightarrow> persisted_state" where
  "jx_state r results = \<lparr>ps_Schema = file_schema, ps_Records = fmupd ''op-1'' r fmempty,
     ps_Replay = fmupd jx_key (jx_time 100) fmempty, ps_Results = results\<rparr>"

abbreviation "jx_s1 \<equiv> jx_state jx_r1 fmempty"
abbreviation "jx_s2 \<equiv> jx_state jx_r2 fmempty"
abbreviation "jx_s3 \<equiv> jx_state jx_r3 (fmupd ''op-1'' jx_result fmempty)"

text \<open>An encoder of these three states.\<close>

definition jx_lib :: journal_lib where
  "jx_lib =
     \<lparr>jl_marshal = (\<lambda>s. if s = jx_s1 then Some ''1'' else if s = jx_s2 then Some ''2'' else if s = jx_s3 then Some ''3''
        else None),
      jl_unmarshal = (\<lambda>b. if b = ''1'' then Some (file_of jx_s1) else if b = ''2'' then Some (file_of jx_s2)
        else if b = ''3'' then Some (file_of jx_s3) else None),
      jl_media = (\<lambda>v. v = ''text/plain'')\<rparr>"

lemma jx_faithful: "json_faithful jx_lib"
  by (auto simp: json_faithful_def jx_lib_def split: if_splits)

lemma journal_digest_hex: "length bs = 32 \<Longrightarrow> journal_validate_digest (sha256_prefix @ hex_encode bs) optional"
  by (simp add: journal_validate_digest_def has_prefix_def hex_encode_lower hex_encode_decodes Let_def)

lemma jx_hash_valid [simp]: "journal_validate_digest (jx_hash c) optional"
  by (simp add: jx_hash_def journal_digest_hex)

lemma jx_hash_nonempty [simp]: "jx_hash c \<noteq> []"
  by (simp add: jx_hash_def sha256_prefix_def)

lemma validate_operation_id_printable:
  assumes "printable s" and "s \<noteq> []" and "length s \<le> max_operation_id_bytes"
  shows "validate_operation_id s"
  using assms printable_runes [OF assms(1)]
  by (auto simp: validate_operation_id_def valid_utf8_ascii printable_ascii trim_space_printable list_all_iff
      not_control_printable rune_error_def in_range_def)

lemma jx_reservation [simp]: "validate_reservation ''op-1'' (jx_hash c)"
proof -
  have "validate_operation_id ''op-1''"
    by (rule validate_operation_id_printable) (simp_all add: printable_def in_range_def byte_def max_operation_id_bytes_def)
  then show ?thesis by (simp add: validate_reservation_def)
qed

lemma split_last_app: "c \<notin> set x \<Longrightarrow> split_last c (d @ c # x) = Some (d, x)"
proof -
  assume "c \<notin> set x"
  then have "takeWhile (\<lambda>y. y \<noteq> c) (rev x @ c # rev d) = rev x" "dropWhile (\<lambda>y. y \<noteq> c) (rev x @ c # rev d) = c # rev d"
    by (subst takeWhile_append2 dropWhile_append2; auto)+
  then show ?thesis by (simp add: split_last_def)
qed

lemma hex_no_colon: "CHR '':'' \<notin> set (hex_encode bs)"
proof
  assume "CHR '':'' \<in> set (hex_encode bs)"
  then have "hex_digit CHR '':''" using hex_encode_digits [of bs] by (simp only: list_all_iff)
  then show False by (simp add: hex_digit_def in_range_def byte_def)
qed

lemma jx_key_valid [simp]: "validate_replay_key jx_key"
proof -
  have p: "printable jx_key" by (simp add: jx_key_def printable_def in_range_def byte_def)
    (use hex_encode_printable [of "replicate 32 CHR ''k''"] in \<open>simp add: printable_def in_range_def byte_def\<close>)
  have "split_last CHR '':'' jx_key = Some (''nonce'', hex_encode (replicate 32 CHR ''k''))"
    unfolding jx_key_def by (rule split_last_app [OF hex_no_colon])
  moreover have "list_all (\<lambda>p. domain_rune (fst p)) (runes ''nonce'')"
    by (simp add: runes_ascii byte_def domain_rune_def in_range_def)
  moreover have "jx_key \<noteq> []" "length jx_key \<le> max_replay_key_bytes"
    by (simp_all add: jx_key_def max_replay_key_bytes_def)
  ultimately show ?thesis
    using p by (simp add: validate_replay_key_def valid_utf8_ascii printable_ascii trim_space_printable hex_encode_lower
        hex_encode_decodes)
qed

lemma jx_acceptance_valid: "validate_acceptance_reservation jx_acceptance"
  by (simp add: validate_acceptance_reservation_def jx_acceptance_def jx_time_def time_defs)

lemma jx_result_valid: "validate_sealed_result (jl_media jx_lib) jx_result"
proof -
  have "printable ''text/plain''" by (simp add: printable_def in_range_def byte_def)
  note this trim_space_printable [OF this] valid_utf8_ascii [OF printable_ascii [OF this]]
  then show ?thesis
    by (simp add: validate_sealed_result_def jx_result_def jx_lib_def max_result_media_type_def max_result_plaintext_def aes_gcm_nonce_bytes_def aes_gcm_tag_bytes_def)
qed

lemmas jx_record_defs = jx_r1_def jx_r2_def jx_r3_def accepted_record_def

lemma jx_records_valid: "validate_persisted_record jx_r1" "validate_persisted_record jx_r2" "validate_persisted_record jx_r3"
  by (simp_all add: validate_persisted_record_def jx_record_defs jx_time_def time_defs zero_time_def
      journal_validate_digest_def [of "[]"])

lemma jx_state_valid:
  assumes "validate_persisted_record r" and "jr_OperationID r = ''op-1''"
  shows "validate_persisted_state m (jx_state r fmempty)"
  using assms
  by (simp add: validate_persisted_state_def jx_state_def fcard.rep_eq max_journal_records_def max_replay_records_def
      fmpred_upd jx_time_def time_defs)

lemma jx_states_valid:
  "validate_persisted_state m jx_s1" "validate_persisted_state m jx_s2" "validate_persisted_state (jl_media jx_lib) jx_s3"
proof -
  show "validate_persisted_state m jx_s1" "validate_persisted_state m jx_s2"
    using jx_records_valid by (auto intro: jx_state_valid simp: jx_record_defs)
  show "validate_persisted_state (jl_media jx_lib) jx_s3"
    using jx_state_valid [OF jx_records_valid(3), of "jl_media jx_lib"] jx_result_valid
    by (simp add: validate_persisted_state_def jx_state_def fcard.rep_eq max_journal_records_def jx_record_defs
        result_matches_def jx_result_def fmpred_upd)
qed

lemma jx_state_record: "fmlookup (ps_Records (jx_state r v)) ''op-1'' = Some r"
  by (simp add: jx_state_def)

lemma jx_state_neq: "r \<noteq> r' \<Longrightarrow> jx_state r v \<noteq> jx_state r' v'"
  using jx_state_record by (metis option.inject)

lemma jx_records_neq: "jx_r1 \<noteq> jx_r2" "jx_r1 \<noteq> jx_r3" "jx_r2 \<noteq> jx_r3"
  by (simp_all add: jx_record_defs)

lemma jx_marshal:
  "jl_marshal jx_lib jx_s1 = Some ''1''" "jl_marshal jx_lib jx_s2 = Some ''2''" "jl_marshal jx_lib jx_s3 = Some ''3''"
  using jx_state_neq [OF jx_records_neq(1) [symmetric]] jx_state_neq [OF jx_records_neq(2) [symmetric]]
    jx_state_neq [OF jx_records_neq(3) [symmetric]]
  by (simp_all add: jx_lib_def)

lemma jx_utc: "state_utc jx_s1" "state_utc jx_s2" "state_utc jx_s3"
  by (simp_all add: state_utc_def jx_state_def fmpred_upd record_utc_def in_utc_def jx_record_defs jx_time_def zero_time_def)

lemma jx_load:
  "load jx_lib (Contents ''1'') = Inr jx_s1" "load jx_lib (Contents ''2'') = Inr jx_s2" "load jx_lib (Contents ''3'') = Inr jx_s3"
  by (rule load_written [OF jx_faithful]; simp add: jx_states_valid jx_utc jx_marshal max_journal_bytes_def)+

lemma jx_times: "journal_time (jx_time 10) zero_time = jx_time 10" "journal_time (jx_time 20) (jx_time 10) = jx_time 20"
  "journal_time (jx_time 30) (jx_time 20) = jx_time 30"
  by (simp_all add: journal_time_def jx_time_def utc_def zero_time_def time_defs)

lemma jx_locked [simp]: "je_locked (jx_env n)"
  by (simp add: jx_env_def)

lemma jx_commit:
  assumes "jl_marshal jx_lib s = Some b" and "length b \<le> 1" and "validate_persisted_state (jl_media jx_lib) s"
  shows "commit jx_lib (jx_env n) d s v = (Inr v, Contents b)"
  using assms by (simp add: commit_def persist_def jx_env_def max_journal_bytes_def)

lemma jx_accept: "reserve_acceptance jx_lib (jx_env 10) NoFile jx_acceptance = (Inr (jx_r1, True), Contents ''1'')"
proof -
  have "acceptance_change (jx_env 10) jx_acceptance empty_state = Inr ((jx_r1, True), Some jx_s1)"
    by (simp add: acceptance_change_def jx_env_def jx_times jx_acceptance_def empty_state_def retained_def Let_def)
      (simp add: jx_time_def time_defs put_record_def jx_state_def jx_r1_def fcard.rep_eq max_journal_records_def
        max_replay_records_def utc_def)
  then show ?thesis
    using jx_commit [OF jx_marshal(1) _ jx_states_valid(1), where v = "(jx_r1, True)"] jx_acceptance_valid
    by (simp add: reserve_acceptance_def mutate_def locked_load_def)
qed

lemma jx_start: "mark_running jx_lib (jx_env 20) (Contents ''1'') ''op-1'' (jx_hash CHR ''r'') = (Inr (jx_r2, True), Contents ''2'')"
proof -
  have "start_record (jx_env 20) jx_r1 = Inr (jx_r2, True)"
    by (simp add: start_record_def jx_r1_def accepted_record_def jx_env_def jx_times Let_def)
      (simp add: jx_r2_def jx_r1_def accepted_record_def)
  moreover have "jr_RequestDigest jx_r1 = jx_hash CHR ''r''" by (simp add: jx_record_defs)
  ultimately have "update_record ''op-1'' (jx_hash CHR ''r'') (start_record (jx_env 20)) jx_s1 = Inr ((jx_r2, True), Some jx_s2)"
    by (simp add: update_record_def lookup_exact_def jx_state_record) (simp add: jx_state_def)
  then show ?thesis
    using jx_commit [OF jx_marshal(2) _ jx_states_valid(2), where v = "(jx_r2, True)"]
    by (simp add: mark_running_def mutate_def locked_load_def jx_load del: load.simps)
qed

lemma jx_finish: "finalize_with_result jx_lib (jx_env 30) (Contents ''2'') jx_final jx_result = (Inr jx_r3, Contents ''3'')"
proof -
  have "finalize_record (jx_env 30) jx_final jx_r2 = Inr (jx_r3, True)"
    by (simp add: finalize_record_def jx_r2_def jx_r1_def accepted_record_def jx_env_def jx_times Let_def jx_final_def)
      (simp add: jx_record_defs)
  moreover have "jr_RequestDigest jx_r2 = jx_hash CHR ''r''" "jr_State jx_r2 = StateRunning" by (simp_all add: jx_record_defs)
  ultimately have "result_change (jx_env 30) jx_final jx_result jx_s2 = Inr ((jx_r3, True), Some jx_s3)"
    by (simp add: result_change_def lookup_exact_def jx_final_def jx_state_record) (simp add: jx_state_def)
  moreover have "validate_finalization jx_final" by (simp add: validate_finalization_def jx_final_def)
  ultimately show ?thesis
    using jx_commit [OF jx_marshal(3) _ jx_states_valid(3), where v = "(jx_r3, True)"] jx_result_valid
    by (simp add: finalize_with_result_def mutate_def locked_load_def jx_load record_only_def del: load.simps)
      (simp add: jx_final_def jx_result_def)
qed

section \<open>Properties\<close>

text \<open>C4. Execution is started at most once: after \<^verbatim>\<open>MarkRunning\<close> told a caller to start an operation, no call
  in any later state, whatever failed in between, tells a caller to start it again.\<close>

theorem started_once:
  assumes "json_faithful L" and "run (journal_step L) NoFile cs d"
    and "mark_running L e d i g = (Inr (r, True), d')" and "run (journal_step L) d' cs' d''"
  shows "\<forall>r'. fst (mark_running L e' d'' i g') \<noteq> Inr (r', True)"
proof (intro allI notI)
  fix r' assume again: "fst (mark_running L e' d'' i g') = Inr (r', True)"
  obtain s where s: "load L d = Inr s" "state_utc s" by (rule run_new [OF assms(1,2)])
  have r: "jr_State r = StateRunning" "jr_OperationID r = i" by (rule started_phase [OF assms(3) s(1)], simp)+
  have "call_valid L (MarkRunning i g)" "mutate L e d (call_change e (MarkRunning i g)) = (Inr (r, True), d')"
    using assms(3) by (auto simp: mark_running_def split: if_splits)
  then obtain s' where s': "load L d' = Inr s'" "state_utc s'" "fmlookup (ps_Records s') i = Some r"
    using acknowledged [OF assms(1) s] r(2) by blast
  obtain s'' where s'': "load L d'' = Inr s''" "state_utc s''" "advances s' s''"
    by (rule run_grown [OF assms(1,4) s'(1,2)])
  obtain r'' where r'': "fmlookup (ps_Records s'') i = Some r''" "record_advances r r''"
    by (rule advances_record [OF s''(3) s'(3)])
  have "mark_running L e' d'' i g' = (Inr (r', True), snd (mark_running L e' d'' i g'))"
    using again by (metis prod.collapse)
  then obtain r\<^sub>1 where "fmlookup (ps_Records s'') i = Some r\<^sub>1" "jr_State r\<^sub>1 = StateAccepted" "jr_State r' = StateRunning"
      "jr_OperationID r' = i"
    by (rule started_phase [OF _ s''(1)])
  with r'' r(1) show False by (simp add: record_advances_def)
qed

theorem started_once_witness:
  "mark_running jx_lib (jx_env 20) (Contents ''1'') ''op-1'' (jx_hash CHR ''r'') = (Inr (jx_r2, True), Contents ''2'') \<and>
   (\<forall>r'. fst (mark_running jx_lib (jx_env 40) (Contents ''3'') ''op-1'' (jx_hash CHR ''r'')) \<noteq> Inr (r', True))"
proof -
  have "run (journal_step jx_lib) NoFile [(jx_env 10, ReserveAcceptance jx_acceptance)] (Contents ''1'')"
    "run (journal_step jx_lib) (Contents ''2'') [(jx_env 30, FinalizeWithResult jx_final jx_result)] (Contents ''3'')"
    by (simp_all add: journal_step_def jx_accept jx_finish)
  from started_once [OF jx_faithful this(1) jx_start this(2)] jx_start show ?thesis by blast
qed

text \<open>A terminal decision is final: once \<^verbatim>\<open>Lookup\<close> returned a terminal record, every later lookup that
  gets the lock returns the same record.\<close>

theorem terminal_decision_final:
  assumes "json_faithful L" and "run (journal_step L) NoFile cs d"
    and "lookup L e d i g = Inr r" and "journal_terminal (jr_State r)"
    and "run (journal_step L) d cs' d'" and "je_locked e'"
  shows "lookup L e' d' i g = Inr r"
proof -
  obtain s where s: "load L d = Inr s" "state_utc s" by (rule run_new [OF assms(1,2)])
  have r: "validate_reservation i g" "fmlookup (ps_Records s) i = Some r" "jr_RequestDigest r = g"
    using assms(3) s(1) by (auto simp: lookup_Inr)
  obtain s' where s': "load L d' = Inr s'" "state_utc s'" "advances s s'" by (rule run_grown [OF assms(1,5) s])
  obtain r' where "fmlookup (ps_Records s') i = Some r'" "record_advances r r'"
    by (rule advances_record [OF s'(3) r(2)])
  with terminal_advances [OF _ assms(4)] r s'(1) assms(6) show ?thesis
    by (auto simp: lookup_Inr)
qed

theorem terminal_decision_final_witness:
  "journal_terminal (jr_State jx_r3) \<and>
   lookup jx_lib (jx_env 50) (Contents ''3'') ''op-1'' (jx_hash CHR ''r'') = Inr jx_r3"
proof -
  have run: "run (journal_step jx_lib) NoFile [(jx_env 10, ReserveAcceptance jx_acceptance),
      (jx_env 20, MarkRunning ''op-1'' (jx_hash CHR ''r'')), (jx_env 30, FinalizeWithResult jx_final jx_result)] (Contents ''3'')"
    by (simp add: journal_step_def jx_accept jx_start jx_finish)
  have "lookup jx_lib (jx_env 40) (Contents ''3'') ''op-1'' (jx_hash CHR ''r'') = Inr jx_r3" "journal_terminal (jr_State jx_r3)"
    by (auto simp: lookup_Inr jx_load jx_state_record jx_record_defs simp del: load.simps)
  from terminal_decision_final [OF jx_faithful run this run_Nil, of "jx_env 50"] this show ?thesis by simp
qed

text \<open>C13. A result that was stored can always be read back: after \<^verbatim>\<open>FinalizeWithResult\<close> succeeded, every later
  \<^verbatim>\<open>LookupResult\<close> of the request that gets the lock returns the acknowledged record and exactly the sealed
  result that was given.\<close>

theorem result_recoverable:
  assumes "json_faithful L" and "run (journal_step L) NoFile cs d"
    and "finalize_with_result L e d f v = (Inr r, d')" and "run (journal_step L) d' cs' d''" and "je_locked e'"
  shows "lookup_result L e' d'' (fz_OperationID f) (fz_RequestDigest f) = Inr (r, v)"
proof -
  obtain s where s: "load L d = Inr s" "state_utc s" by (rule run_new [OF assms(1,2)])
  obtain s' where s': "load L d' = Inr s'" "state_utc s'" "fmlookup (ps_Records s') (fz_OperationID f) = Some r"
      "fmlookup (ps_Results s') (fz_OperationID f) = Some v" "jr_State r = StateSucceeded"
      "jr_OutcomeDigest r = fz_OutcomeDigest f" "jr_RequestDigest r = fz_RequestDigest f" "fz_OutcomeDigest f \<noteq> []"
      "sr_RequestDigest v = fz_RequestDigest f" "sr_OutcomeDigest v = fz_OutcomeDigest f"
    by (rule finalized_with_result [OF assms(1) s assms(3)])
  obtain s'' where s'': "load L d'' = Inr s''" "state_utc s''" "advances s' s''"
    by (rule run_grown [OF assms(1,4) s'(1,2)])
  obtain r'' where "fmlookup (ps_Records s'') (fz_OperationID f) = Some r''" "record_advances r r''"
    by (rule advances_record [OF s''(3) s'(3)])
  then have "fmlookup (ps_Records s'') (fz_OperationID f) = Some r" using terminal_advances s'(5) by auto
  moreover have "fmlookup (ps_Results s'') (fz_OperationID f) = Some v" using s''(3) s'(4) by (auto simp: advances_def)
  moreover have "validate_reservation (fz_OperationID f) (fz_RequestDigest f)"
    using record_valid [OF s'(1,3)] s'(7) by simp
  ultimately show ?thesis
    using assms(5) s''(1) s'(5-10) by (simp add: lookup_result_def locked_load_def lookup_exact_def)
qed

theorem result_recoverable_witness:
  "finalize_with_result jx_lib (jx_env 30) (Contents ''2'') jx_final jx_result = (Inr jx_r3, Contents ''3'') \<and>
   lookup_result jx_lib (jx_env 40) (Contents ''3'') ''op-1'' (jx_hash CHR ''r'') = Inr (jx_r3, jx_result)"
proof -
  have "run (journal_step jx_lib) NoFile [(jx_env 10, ReserveAcceptance jx_acceptance),
      (jx_env 20, MarkRunning ''op-1'' (jx_hash CHR ''r''))] (Contents ''2'')"
    by (simp add: journal_step_def jx_accept jx_start)
  from result_recoverable [OF jx_faithful this jx_finish run_Nil, of "jx_env 40"] jx_finish show ?thesis
    by (simp add: jx_final_def)
qed

text \<open>C29. A replay key is accepted once while it is retained: after \<^verbatim>\<open>ReserveAcceptance\<close> succeeded, no call with
  the same key succeeds before the retention time, if no call in between read a clock past it.\<close>

theorem replay_key_accepted_once:
  assumes "json_faithful L" and "run (journal_step L) NoFile cs d"
    and "reserve_acceptance L e d q = (Inr v, d')" and "run (journal_step L) d' cs' d''"
    and "list_all (\<lambda>c. before (journal_time (je_now (fst c)) zero_time) (ac_ReplayRetainUntil q)) cs'"
    and "before (journal_time (je_now e') zero_time) (ac_ReplayRetainUntil q)"
    and "ac_ReplayKey q' = ac_ReplayKey q"
  shows "\<forall>w. fst (reserve_acceptance L e' d'' q') \<noteq> Inr w"
proof (intro allI notI)
  fix w assume again: "fst (reserve_acceptance L e' d'' q') = Inr w"
  obtain s where s: "load L d = Inr s" "state_utc s" by (rule run_new [OF assms(1,2)])
  obtain s' where s': "load L d' = Inr s'" "state_utc s'"
      "fmlookup (ps_Replay s') (ac_ReplayKey q) = Some (utc (ac_ReplayRetainUntil q))"
    by (rule accepted_replay_key [OF assms(1) s assms(3)]) blast
  obtain s'' where s'': "load L d'' = Inr s''" "state_utc s''"
      "fmlookup (ps_Replay s'') (ac_ReplayKey q) = Some (utc (ac_ReplayRetainUntil q))"
    using run_replay [OF assms(4,1) s'] assms(5) by auto
  have "reserve_acceptance L e' d'' q' = (Inr w, snd (reserve_acceptance L e' d'' q'))"
    using again by (metis prod.collapse)
  from accepted_replay_key [OF assms(1) s''(1,2) this] s''(3) assms(6,7) show False by auto
qed

theorem replay_key_accepted_once_witness:
  "reserve_acceptance jx_lib (jx_env 10) NoFile jx_acceptance = (Inr (jx_r1, True), Contents ''1'') \<and>
   (\<forall>w. fst (reserve_acceptance jx_lib (jx_env 10) (Contents ''2'') jx_acceptance) \<noteq> Inr w)"
proof -
  have "run (journal_step jx_lib) (Contents ''1'') [(jx_env 20, MarkRunning ''op-1'' (jx_hash CHR ''r''))] (Contents ''2'')"
    by (simp add: journal_step_def jx_start)
  moreover have "list_all (\<lambda>c. before (journal_time (je_now (fst c)) zero_time) (ac_ReplayRetainUntil jx_acceptance))
      [(jx_env 20, MarkRunning ''op-1'' (jx_hash CHR ''r''))]"
    "before (journal_time (je_now (jx_env 10)) zero_time) (ac_ReplayRetainUntil jx_acceptance)"
    by (simp_all add: jx_env_def jx_acceptance_def journal_time_def jx_time_def zero_time_def utc_def time_defs Let_def)
  ultimately show ?thesis
    using replay_key_accepted_once [OF jx_faithful run_Nil jx_accept _ _ _ refl] jx_accept by blast
qed

text \<open>C30. The journal never locks itself out and never forgets what it acknowledged: over every history the
  file it leaves can be opened again, and the record a successful call returned is what a lookup of
  that request then returns.\<close>

theorem acknowledged_durable:
  assumes "json_faithful L" and "run (journal_step L) NoFile cs d" and "je_locked e'"
  shows "open_file_store L d = Inr () \<and>
    (\<forall>r. journal_ack L e d c = Inr r \<longrightarrow>
      lookup L e' (journal_file L e d c) (jr_OperationID r) (jr_RequestDigest r) = Inr r)"
proof -
  obtain s where s: "load L d = Inr s" "state_utc s" by (rule run_new [OF assms(1,2)])
  have "lookup L e' (journal_file L e d c) (jr_OperationID r) (jr_RequestDigest r) = Inr r"
    if "journal_ack L e d c = Inr r" for r
  proof -
    have cv: "call_valid L c" "map_sum id fst (fst (mutate L e d (call_change e c))) = Inr r"
      using that by (simp_all add: journal_ack_mutate)
    then obtain b where "mutate L e d (call_change e c) = (Inr (r, b), journal_file L e d c)"
      by (cases "fst (mutate L e d (call_change e c))") (auto simp: journal_file_mutate prod_eq_iff)
    then obtain s' where s': "load L (journal_file L e d c) = Inr s'" "state_utc s'"
        "fmlookup (ps_Records s') (jr_OperationID r) = Some r"
      by (rule acknowledged [OF assms(1) s cv(1)])
    with record_valid [OF s'(1,3)] assms(3) show ?thesis by (auto simp: lookup_Inr)
  qed
  with s(1) show ?thesis by (simp add: open_file_store_def)
qed

theorem acknowledged_durable_witness:
  "open_file_store jx_lib (Contents ''1'') = Inr () \<and>
   lookup jx_lib (jx_env 25) (Contents ''2'') ''op-1'' (jx_hash CHR ''r'') = Inr jx_r2"
proof -
  have "run (journal_step jx_lib) NoFile [(jx_env 10, ReserveAcceptance jx_acceptance)] (Contents ''1'')"
    by (simp add: journal_step_def jx_accept)
  moreover have "journal_ack jx_lib (jx_env 20) (Contents ''1'') (MarkRunning ''op-1'' (jx_hash CHR ''r'')) = Inr jx_r2"
    "journal_file jx_lib (jx_env 20) (Contents ''1'') (MarkRunning ''op-1'' (jx_hash CHR ''r'')) = Contents ''2''"
    by (simp_all add: jx_start)
  moreover have "jr_OperationID jx_r2 = ''op-1''" "jr_RequestDigest jx_r2 = jx_hash CHR ''r''"
    by (simp_all add: jx_record_defs)
  ultimately show ?thesis
    using acknowledged_durable [OF jx_faithful, of _ "Contents ''1''" "jx_env 25" "jx_env 20"
        "MarkRunning ''op-1'' (jx_hash CHR ''r'')"] by force
qed

end
