(* ===== verification/Privilege_Model.thy ===== *)
theory Privilege_Model
  imports SHA256 "HOL-Library.List_Lexorder" "HOL-Library.Char_ord" "HOL-Library.Product_Lexorder"
begin

text \<open>
  Package \<^verbatim>\<open>pkg/leastprivilege\<close>: the problem and its compiled form of \<^verbatim>\<open>model.go\<close>, the search of
  \<^verbatim>\<open>solver.go\<close> and the check of \<^verbatim>\<open>verifier.go\<close>. Contexts are never nil and never cancelled during a
  call. \<open>marshal\<close> stands for \<^verbatim>\<open>json.Marshal\<close> of the normalized problem. Sorting uses a stable sort:
  where Go's is not stable, entries that compare equal are refused afterwards.
\<close>

section \<open>Data\<close>

datatype privilege_error = ErrInvalidProblem | ErrInvalidSolution | ErrInfeasible | ErrNotOptimal | ErrLimit

record permission =
  pm_ID :: string
  pm_Cost :: uint64

record grant =
  gr_ID :: string
  gr_Permissions :: "string list"

record implication =
  im_AllOf :: "string list"
  im_Then :: "string list"

record problem =
  pb_Schema :: string
  pb_Permissions :: "permission list"
  pb_Grants :: "grant list"
  pb_Required :: "string list"
  pb_Allowed :: "string list"
  pb_Implications :: "implication list"
  pb_ForbiddenTogether :: "string list list"

record solution =
  sl_Schema :: string
  sl_ProblemDigest :: string
  sl_Grants :: "string list"
  sl_Effective :: "string list"
  sl_Cost :: uint64

definition ProblemSchemaV1 :: string where
  "ProblemSchemaV1 = ''asb.least-privilege.problem/v1''"

definition SolutionSchemaV1 :: string where
  "SolutionSchemaV1 = ''asb.least-privilege.solution/v1''"

definition MaxGrants :: nat where
  "MaxGrants = 20"

definition MaxPermissions :: nat where
  "MaxPermissions = 256"

definition MaxImplications :: nat where
  "MaxImplications = 256"

definition MaxForbiddenSets :: nat where
  "MaxForbiddenSets = 256"

definition MaxIDBytes :: nat where
  "MaxIDBytes = 128"

section \<open>Permission sets\<close>

text \<open>\<^verbatim>\<open>permissionSet\<close> is an array of four words; a set of the right length is one of that type.\<close>

type_synonym permission_set = "uint64 list"

definition no_permissions :: permission_set where
  "no_permissions = replicate (MaxPermissions div 64) 0"

definition add_permission :: "permission_set \<Rightarrow> nat \<Rightarrow> permission_set" where
  "add_permission s i = s[i div 64 := s ! (i div 64) OR push_bit (i mod 64) 1]"

definition set_contains :: "permission_set \<Rightarrow> permission_set \<Rightarrow> bool" where
  "set_contains s t \<longleftrightarrow> list_all (\<lambda>i. s ! i AND t ! i = t ! i) [0..<length s]"

definition set_union :: "permission_set \<Rightarrow> permission_set \<Rightarrow> permission_set" where
  "set_union s t = map (\<lambda>i. s ! i OR t ! i) [0..<length s]"

definition union_changed :: "permission_set \<Rightarrow> permission_set \<Rightarrow> bool" where
  "union_changed s t \<longleftrightarrow> list_ex (\<lambda>i. s ! i OR t ! i \<noteq> s ! i) [0..<length s]"

definition has_permission :: "permission_set \<Rightarrow> nat \<Rightarrow> bool" where
  "has_permission s i \<longleftrightarrow> s ! (i div 64) AND push_bit (i mod 64) 1 \<noteq> 0"

record compiled_problem =
  cp_problem :: problem
  cp_digest :: string
  cp_grants :: "permission_set list"
  cp_required :: permission_set
  cp_allowed :: permission_set
  cp_rules :: "(permission_set \<times> permission_set) list"
  cp_forbidden :: "permission_set list"

section \<open>Compilation\<close>

definition valid_id :: "string \<Rightarrow> bool" where
  "valid_id v \<longleftrightarrow> \<not> (length v = 0 \<or> length v > MaxIDBytes \<or> \<not> valid_utf8 v) \<and>
     list_all (\<lambda>p. \<not> (is_space (fst p) \<or> is_control (fst p))) (runes v)"

text \<open>The loop over the sorted permissions: no invalid identifier, zero cost, duplicate or overflow of the sum.\<close>

fun costs_ok :: "string list \<Rightarrow> uint64 \<Rightarrow> permission list \<Rightarrow> bool" where
  "costs_ok seen acc [] = True"
| "costs_ok seen acc (p # ps) =
     (\<not> (\<not> valid_id (pm_ID p) \<or> pm_Cost p = 0) \<and> \<not> pm_ID p \<in> set seen \<and> \<not> acc > - 1 - pm_Cost p \<and>
      costs_ok (pm_ID p # seen) (acc + pm_Cost p) ps)"

definition permission_index :: "permission list \<Rightarrow> string \<Rightarrow> nat option" where
  "permission_index ps = map_of (zip (map pm_ID ps) [0..<length ps])"

definition refs :: "(string \<Rightarrow> nat option) \<Rightarrow> string list \<Rightarrow> privilege_error + string list" where
  "refs index ids =
     (if length ids > MaxPermissions then Inl ErrInvalidProblem
      else if \<not> list_all valid_id ids then Inl ErrInvalidProblem
      else let out = sort ids in
        if list_all (\<lambda>i. index i \<noteq> None) out \<and> distinct_adj out then Inr out else Inl ErrInvalidProblem)"

fun refs_all :: "(string \<Rightarrow> nat option) \<Rightarrow> string list list \<Rightarrow> privilege_error + string list list" where
  "refs_all index [] = Inr []"
| "refs_all index (x # xs) = and_then (refs index x) (\<lambda>y. and_then (refs_all index xs) (\<lambda>ys. Inr (y # ys)))"

fun check_grants :: "(string \<Rightarrow> nat option) \<Rightarrow> string list \<Rightarrow> grant list \<Rightarrow> privilege_error + grant list" where
  "check_grants index seen [] = Inr []"
| "check_grants index seen (g # gs) =
     (if \<not> valid_id (gr_ID g) \<or> gr_ID g \<in> set seen then Inl ErrInvalidProblem
      else and_then (refs index (gr_Permissions g)) (\<lambda>ps.
        and_then (check_grants index (gr_ID g # seen) gs) (\<lambda>gs'. Inr (\<lparr>gr_ID = gr_ID g, gr_Permissions = ps\<rparr> # gs'))))"

fun check_implications :: "(string \<Rightarrow> nat option) \<Rightarrow> implication list \<Rightarrow> privilege_error + implication list" where
  "check_implications index [] = Inr []"
| "check_implications index (r # rs) =
     (if im_Then r = [] then Inl ErrInvalidProblem
      else and_then (refs index (im_AllOf r)) (\<lambda>a. and_then (refs index (im_Then r)) (\<lambda>t.
        and_then (check_implications index rs) (\<lambda>rs'. Inr (\<lparr>im_AllOf = a, im_Then = t\<rparr> # rs')))))"

definition rule_key :: "implication \<Rightarrow> string list \<times> string list" where
  "rule_key r = (im_AllOf r, im_Then r)"

text \<open>Normalization: everything sorted, every reference known.\<close>

definition normalize_problem :: "problem \<Rightarrow> privilege_error + problem" where
  "normalize_problem p =
     (if pb_Schema p \<noteq> ProblemSchemaV1 then Inl ErrInvalidProblem
      else if length (pb_Permissions p) > MaxPermissions \<or> length (pb_Grants p) > MaxGrants \<or>
        length (pb_Implications p) > MaxImplications \<or> length (pb_ForbiddenTogether p) > MaxForbiddenSets
      then Inl ErrInvalidProblem
      else let ps = sort_key pm_ID (pb_Permissions p); index = permission_index ps in
        if \<not> costs_ok [] 0 ps then Inl ErrInvalidProblem
        else and_then (refs index (pb_Required p)) (\<lambda>required.
          and_then (refs index (pb_Allowed p)) (\<lambda>allowed.
          and_then (check_grants index [] (pb_Grants p)) (\<lambda>gs.
          and_then (check_implications index (pb_Implications p)) (\<lambda>rs.
            let rules = sort_key rule_key rs in
            if \<not> distinct_adj (map rule_key rules) then Inl ErrInvalidProblem
            else if \<not> list_all (\<lambda>g. length g \<ge> 2) (pb_ForbiddenTogether p) then Inl ErrInvalidProblem
            else and_then (refs_all index (pb_ForbiddenTogether p)) (\<lambda>fs.
              let groups = sort fs in
              if \<not> distinct_adj groups then Inl ErrInvalidProblem
              else Inr \<lparr>pb_Schema = pb_Schema p, pb_Permissions = ps, pb_Grants = sort_key gr_ID gs,
                pb_Required = required, pb_Allowed = allowed, pb_Implications = rules,
                pb_ForbiddenTogether = groups\<rparr>))))))"

definition to_set :: "(string \<Rightarrow> nat option) \<Rightarrow> string list \<Rightarrow> permission_set" where
  "to_set index ids = foldl (\<lambda>s i. add_permission s (the (index i))) no_permissions ids"

definition compile_problem :: "(problem \<Rightarrow> bytes option) \<Rightarrow> problem \<Rightarrow> privilege_error + compiled_problem" where
  "compile_problem marshal p =
     and_then (normalize_problem p) (\<lambda>n.
       case marshal n of
         None \<Rightarrow> Inl ErrInvalidProblem
       | Some data \<Rightarrow>
           let index = permission_index (pb_Permissions n) in
           Inr \<lparr>cp_problem = n, cp_digest = sha256_text data,
             cp_grants = map (\<lambda>g. to_set index (gr_Permissions g)) (pb_Grants n),
             cp_required = to_set index (pb_Required n), cp_allowed = to_set index (pb_Allowed n),
             cp_rules = map (\<lambda>r. (to_set index (im_AllOf r), to_set index (im_Then r))) (pb_Implications n),
             cp_forbidden = map (to_set index) (pb_ForbiddenTogether n)\<rparr>)"

definition digest_problem :: "(problem \<Rightarrow> bytes option) \<Rightarrow> problem \<Rightarrow> privilege_error + string" where
  "digest_problem marshal p = and_then (compile_problem marshal p) (\<lambda>cp. Inr (cp_digest cp))"

section \<open>Evaluation of a selection\<close>

definition selected :: "uint64 \<Rightarrow> nat \<Rightarrow> bool" where
  "selected m i \<longleftrightarrow> m AND push_bit i 1 \<noteq> 0"

fun granted_permissions :: "uint64 \<Rightarrow> nat \<Rightarrow> permission_set list \<Rightarrow> permission_set \<Rightarrow> permission_set" where
  "granted_permissions m i [] s = s"
| "granted_permissions m i (g # gs) s =
     granted_permissions m (Suc i) gs (if selected m i then set_union s g else s)"

text \<open>One pass over the rules, and whether it changed anything.\<close>

fun rule_pass :: "(permission_set \<times> permission_set) list \<Rightarrow> permission_set \<Rightarrow> permission_set \<times> bool" where
  "rule_pass [] s = (s, False)"
| "rule_pass ((a, t) # rules) s =
     (if set_contains s a
      then (let (s', c) = rule_pass rules (set_union s t) in (s', union_changed s t \<or> c))
      else rule_pass rules s)"

text \<open>The passes repeat until one changes nothing; each that does sets another bit of the words.\<close>

definition unset_bits :: "permission_set \<Rightarrow> nat" where
  "unset_bits s = sum_list (map (\<lambda>w. card {i. i < 64 \<and> \<not> bit w i}) s)"

lemma unset_bits_union:
  "unset_bits (set_union s t) \<le> unset_bits s" "union_changed s t \<Longrightarrow> unset_bits (set_union s t) < unset_bits s"
proof -
  let ?f = "\<lambda>w :: uint64. card {i. i < 64 \<and> \<not> bit w i}"
  have le: "?f (w OR v) \<le> ?f w" for w v
    by (rule card_mono) (auto simp: bit_or_iff)
  have less: "?f (w OR v) < ?f w" if "w OR v \<noteq> w" for w v
  proof (rule psubset_card_mono)
    have "\<exists>i<LENGTH(64). bit (w OR v) i \<noteq> bit w i" using that bit_word_eqI [of "w OR v" w] by blast
    then obtain i where "i < 64" "bit (w OR v) i" "\<not> bit w i" by (auto simp: bit_or_iff)
    then show "{i. i < 64 \<and> \<not> bit (w OR v) i} \<subset> {i. i < 64 \<and> \<not> bit w i}" by (auto simp: bit_or_iff)
  qed simp
  have eq: "unset_bits s = (\<Sum>i\<leftarrow>[0..<length s]. ?f (s ! i))"
  proof -
    have "unset_bits s = sum_list (map ?f (map ((!) s) [0..<length s]))" by (simp only: unset_bits_def map_nth)
    then show ?thesis by (simp only: map_map comp_def)
  qed
  have eq': "unset_bits (set_union s t) = (\<Sum>i\<leftarrow>[0..<length s]. ?f (s ! i OR t ! i))"
    by (simp add: unset_bits_def set_union_def comp_def)
  show "unset_bits (set_union s t) \<le> unset_bits s"
    unfolding eq eq' by (rule sum_list_mono) (rule le)
  assume "union_changed s t"
  then obtain j where "j < length s" "s ! j OR t ! j \<noteq> s ! j" by (auto simp: union_changed_def list_ex_iff)
  then have "(\<Sum>i\<in>{0..<length s}. ?f (s ! i OR t ! i)) < (\<Sum>i\<in>{0..<length s}. ?f (s ! i))"
    using le less [of "s ! j" "t ! j"] by (intro sum_strict_mono_ex1) (auto intro: bexI [of _ j])
  then show "unset_bits (set_union s t) < unset_bits s"
    unfolding eq eq' by (simp add: sum_list_distinct_conv_sum_set)
qed

lemma rule_pass_bits:
  "unset_bits (fst (rule_pass rules s)) \<le> unset_bits s \<and>
   (snd (rule_pass rules s) \<longrightarrow> unset_bits (fst (rule_pass rules s)) < unset_bits s)"
proof (induction rules s rule: rule_pass.induct)
  case (2 a t rules s)
  then show ?case
    using unset_bits_union [of s t] by (auto split: prod.splits)
qed simp

function close_rules :: "(permission_set \<times> permission_set) list \<Rightarrow> permission_set \<Rightarrow> permission_set" where
  "close_rules rules s =
     (case rule_pass rules s of (s', changed) \<Rightarrow> if changed then close_rules rules s' else s')"
  by pat_completeness auto
termination
  by (relation "measure (unset_bits \<circ> snd)") (simp, simp, metis rule_pass_bits fst_conv snd_conv)

declare close_rules.simps [simp del]

fun selection_cost :: "permission_set \<Rightarrow> nat \<Rightarrow> permission list \<Rightarrow> uint64" where
  "selection_cost s i [] = 0"
| "selection_cost s i (p # ps) = (if has_permission s i then pm_Cost p else 0) + selection_cost s (Suc i) ps"

text \<open>The effective permissions, their cost, and whether the selection is feasible.\<close>

definition evaluate :: "compiled_problem \<Rightarrow> uint64 \<Rightarrow> permission_set \<times> uint64 \<times> bool" where
  "evaluate cp m =
     (let effective = close_rules (cp_rules cp) (granted_permissions m 0 (cp_grants cp) no_permissions) in
      if \<not> set_contains effective (cp_required cp) \<or> \<not> set_contains (cp_allowed cp) effective then (effective, 0, False)
      else if list_ex (set_contains effective) (cp_forbidden cp) then (effective, 0, False)
      else (effective, selection_cost effective 0 (pb_Permissions (cp_problem cp)), True))"

fun pick_ids :: "(nat \<Rightarrow> bool) \<Rightarrow> nat \<Rightarrow> string list \<Rightarrow> string list" where
  "pick_ids P i [] = []"
| "pick_ids P i (x # xs) = (if P i then x # pick_ids P (Suc i) xs else pick_ids P (Suc i) xs)"

definition effective_ids :: "compiled_problem \<Rightarrow> permission_set \<Rightarrow> string list" where
  "effective_ids cp s = pick_ids (has_permission s) 0 (map pm_ID (pb_Permissions (cp_problem cp)))"

definition grant_ids :: "compiled_problem \<Rightarrow> uint64 \<Rightarrow> string list" where
  "grant_ids cp m = pick_ids (selected m) 0 (map gr_ID (pb_Grants (cp_problem cp)))"

section \<open>Search\<close>

record search =
  se_evaluations :: uint64
  se_found :: bool
  se_mask :: uint64
  se_cost :: uint64
  se_effective :: permission_set

definition visit_leaf :: "compiled_problem \<Rightarrow> uint64 \<Rightarrow> uint64 \<Rightarrow> search \<Rightarrow> privilege_error + search" where
  "visit_leaf cp budget m st =
     (if se_evaluations st \<ge> budget then Inl ErrLimit
      else let st' = st\<lparr>se_evaluations := se_evaluations st + 1\<rparr> in
        case evaluate cp m of (effective, cost, feasible) \<Rightarrow>
          if feasible \<and> (\<not> se_found st \<or> cost < se_cost st)
          then Inr (st'\<lparr>se_found := True, se_mask := m, se_cost := cost, se_effective := effective\<rparr>)
          else Inr st')"

text \<open>\<open>visit cp budget k index m\<close> with \<open>k\<close> grants left to decide: first without, then with the grant at \<open>index\<close>.\<close>

fun visit :: "compiled_problem \<Rightarrow> uint64 \<Rightarrow> nat \<Rightarrow> nat \<Rightarrow> uint64 \<Rightarrow> search \<Rightarrow> privilege_error + search" where
  "visit cp budget 0 index m st = visit_leaf cp budget m st"
| "visit cp budget (Suc k) index m st =
     and_then (visit cp budget k (Suc index) m st)
       (\<lambda>st'. visit cp budget k (Suc index) (m OR push_bit index 1) st')"

definition start_search :: search where
  "start_search = \<lparr>se_evaluations = 0, se_found = False, se_mask = 0, se_cost = 0, se_effective = no_permissions\<rparr>"

definition solve :: "(problem \<Rightarrow> bytes option) \<Rightarrow> problem \<Rightarrow> uint64 \<Rightarrow> privilege_error + solution" where
  "solve marshal p budget =
     (if budget = 0 then Inl ErrLimit
      else and_then (compile_problem marshal p) (\<lambda>cp.
        and_then (visit cp budget (length (cp_grants cp)) 0 0 start_search) (\<lambda>st.
          if \<not> se_found st then Inl ErrInfeasible
          else Inr \<lparr>sl_Schema = SolutionSchemaV1, sl_ProblemDigest = cp_digest cp, sl_Grants = grant_ids cp (se_mask st),
            sl_Effective = effective_ids cp (se_effective st), sl_Cost = se_cost st\<rparr>)))"

section \<open>Verification\<close>

definition grant_index :: "compiled_problem \<Rightarrow> string \<Rightarrow> nat option" where
  "grant_index cp = map_of (zip (map gr_ID (pb_Grants (cp_problem cp))) [0..<length (pb_Grants (cp_problem cp))])"

fun candidate_mask :: "(string \<Rightarrow> nat option) \<Rightarrow> uint64 \<Rightarrow> string list \<Rightarrow> privilege_error + uint64" where
  "candidate_mask index m [] = Inr m"
| "candidate_mask index m (x # xs) =
     (if \<not> valid_id x then Inl ErrInvalidSolution
      else case index x of
        None \<Rightarrow> Inl ErrInvalidSolution
      | Some i \<Rightarrow>
          if selected m i then Inl ErrInvalidSolution
          else candidate_mask index (m OR push_bit i 1) xs)"

text \<open>The loop over the other selections, from \<open>m\<close> upwards with \<open>k\<close> of them left.\<close>

fun alternatives ::
    "compiled_problem \<Rightarrow> uint64 \<Rightarrow> uint64 \<Rightarrow> uint64 \<Rightarrow> nat \<Rightarrow> uint64 \<Rightarrow> uint64 \<Rightarrow> privilege_error + unit" where
  "alternatives cp budget candidate cost 0 m evaluations = Inr ()"
| "alternatives cp budget candidate cost (Suc k) m evaluations =
     (if m = candidate then alternatives cp budget candidate cost k (m + 1) evaluations
      else if evaluations \<ge> budget then Inl ErrLimit
      else case evaluate cp m of (_, c, feasible) \<Rightarrow>
        if feasible \<and> c < cost then Inl ErrNotOptimal
        else alternatives cp budget candidate cost k (m + 1) (evaluations + 1))"

definition verify :: "(problem \<Rightarrow> bytes option) \<Rightarrow> problem \<Rightarrow> solution \<Rightarrow> uint64 \<Rightarrow> privilege_error + unit" where
  "verify marshal p sol budget =
     (if budget = 0 then Inl ErrLimit
      else and_then (compile_problem marshal p) (\<lambda>cp.
        if sl_Schema sol \<noteq> SolutionSchemaV1 \<or> sl_ProblemDigest sol \<noteq> cp_digest cp then Inl ErrInvalidSolution
        else if length (sl_Grants sol) > length (cp_grants cp) \<or>
          length (sl_Effective sol) > length (pb_Permissions (cp_problem cp)) then Inl ErrInvalidSolution
        else and_then (candidate_mask (grant_index cp) 0 (sl_Grants sol)) (\<lambda>m.
          case evaluate cp m of (effective, cost, feasible) \<Rightarrow>
            if \<not> feasible \<or> cost \<noteq> sl_Cost sol then Inl ErrInvalidSolution
            else if \<not> list_all valid_id (sl_Effective sol) then Inl ErrInvalidSolution
            else if sort (sl_Effective sol) \<noteq> effective_ids cp effective then Inl ErrInvalidSolution
            else alternatives cp budget m cost (2 ^ length (cp_grants cp)) 0 1)))"

end
