(* ===== verification/Capability_Model.thy ===== *)
theory Capability_Model
  imports Privilege_Model Go_Time
begin

text \<open>
  Package \<^verbatim>\<open>pkg/leastprivilege\<close>: the capabilities of \<^verbatim>\<open>authorization.go\<close> and the process-local use store of
  \<^verbatim>\<open>use_store.go\<close>. Parameters, collected in \<open>authority_lib\<close>: \<^verbatim>\<open>json.Marshal\<close> at the types that are digested or
  signed, the JSON round trip that copies a problem, and \<^verbatim>\<open>crypto/ed25519\<close>. The readings of the clock and of the
  random source are arguments. Pointers and contexts are not nil, contexts are not cancelled.
\<close>

section \<open>Data\<close>

datatype authority_error = Privilege privilege_error | ErrInvalidMandate | ErrHumanRequired | ErrBinding | ErrExpired
  | ErrInvalidCapability | ErrReplay | ErrCapacity | MarshalFailed | RandomFailed

definition CapabilitySchemaV1 :: string where
  "CapabilitySchemaV1 = ''asb.least-privilege.capability/v1''"

text \<open>\<^verbatim>\<open>Arguments\<close> may be the nil slice.\<close>

record action =
  ac_Operation :: string
  ac_Resource :: string
  ac_Arguments :: "bytes option"

record request =
  rq_ActorID :: string
  rq_TaskID :: string
  rq_Action :: action

record mandate =
  ma_ID :: string
  ma_PolicyRef :: string
  ma_ActorID :: string
  ma_TaskID :: string
  ma_ActionDigest :: string
  ma_ProblemDigest :: string
  ma_NotBefore :: gotime
  ma_ExpiresAt :: gotime
  ma_MaxTTLSeconds :: uint32
  ma_AllowAutomatic :: bool

record capability_claims =
  cc_Schema :: string
  cc_ID :: string
  cc_MandateID :: string
  cc_MandateDigest :: string
  cc_PolicyRef :: string
  cc_ActorID :: string
  cc_TaskID :: string
  cc_ActionDigest :: string
  cc_IssuedAt :: gotime
  cc_ExpiresAt :: gotime
  cc_Solution :: solution

record capability =
  cb_Claims :: capability_claims
  cb_Signature :: bytes

record authorizer_config =
  az_Problem :: problem
  az_Mandate :: mandate
  az_SigningKey :: bytes
  az_MaxEvaluations :: uint64

record authorizer =
  au_problem :: problem
  au_mandate :: mandate
  au_key :: bytes
  au_budget :: uint64

record authority_lib =
  al_problem :: "problem \<Rightarrow> bytes option"
  al_copy :: "problem \<Rightarrow> problem option"
  al_action :: "action \<Rightarrow> bytes option"
  al_mandate :: "mandate \<Rightarrow> bytes option"
  al_claims :: "capability_claims \<Rightarrow> bytes option"
  al_capability :: "capability \<Rightarrow> bytes option"
  al_key_from_seed :: "bytes \<Rightarrow> bytes"
  al_sign :: "bytes \<Rightarrow> bytes \<Rightarrow> bytes"
  al_verify :: "bytes \<Rightarrow> bytes \<Rightarrow> bytes \<Rightarrow> bool"

text \<open>\<^verbatim>\<open>Time.Add\<close> of a duration in nanoseconds; \<^verbatim>\<open>Time.Sub\<close>, which saturates at the range of \<^verbatim>\<open>int64\<close>.\<close>

definition add_duration :: "gotime \<Rightarrow> int \<Rightarrow> gotime" where
  "add_duration t d = t\<lparr>instant := instant t + d\<rparr>"

definition sub_time :: "gotime \<Rightarrow> gotime \<Rightarrow> int" where
  "sub_time t u = max (- (2 ^ 63)) (min (2 ^ 63 - 1) (instant t - instant u))"

section \<open>Checks and digests\<close>

definition bounded_text :: "string \<Rightarrow> nat \<Rightarrow> bool" where
  "bounded_text s mx \<longleftrightarrow> \<not> (s = [] \<or> length s > mx \<or> \<not> valid_utf8 s \<or> trim_space s \<noteq> s) \<and>
     list_all (\<lambda>p. \<not> is_control (fst p)) (runes s)"

definition canonical_digest :: "string \<Rightarrow> bool" where
  "canonical_digest s \<longleftrightarrow> \<not> (length s \<noteq> 71 \<or> \<not> has_prefix s sha256_prefix \<or> to_lower s \<noteq> s) \<and> hex_decodes (drop 7 s)"

definition digest_value :: "string \<Rightarrow> bytes option \<Rightarrow> authority_error + string" where
  "digest_value domain raw =
     (case raw of None \<Rightarrow> Inl MarshalFailed | Some r \<Rightarrow> Inr (sha256_text ((domain @ [char_of (0 :: nat)]) @ r)))"

text \<open>A nil slice of arguments is digested as an empty one.\<close>

definition plain_action :: "action \<Rightarrow> action" where
  "plain_action a = (if ac_Arguments a = None then a\<lparr>ac_Arguments := Some []\<rparr> else a)"

definition DigestAction :: "authority_lib \<Rightarrow> action \<Rightarrow> authority_error + string" where
  "DigestAction L a =
     (if \<not> bounded_text (ac_Operation a) 256 \<or> \<not> bounded_text (ac_Resource a) 2048 \<or>
        (case ac_Arguments a of None \<Rightarrow> False | Some args \<Rightarrow> length args > 65536)
      then Inl ErrBinding
      else digest_value ''asb.least-privilege.action/v1'' (al_action L (plain_action a)))"

definition validate_mandate :: "mandate \<Rightarrow> authority_error + unit" where
  "validate_mandate m =
     (if \<not> bounded_text (ma_ID m) 256 \<or> \<not> bounded_text (ma_PolicyRef m) 2048 \<or> \<not> bounded_text (ma_ActorID m) 256 \<or>
        \<not> bounded_text (ma_TaskID m) 256 \<or> \<not> canonical_digest (ma_ActionDigest m) \<or> \<not> canonical_digest (ma_ProblemDigest m) \<or>
        is_zero (ma_NotBefore m) \<or> is_zero (ma_ExpiresAt m) \<or> \<not> after (ma_ExpiresAt m) (ma_NotBefore m) \<or>
        ma_MaxTTLSeconds m = 0 \<or> ma_MaxTTLSeconds m > 3600
      then Inl ErrInvalidMandate else Inr ())"

definition DigestMandate :: "authority_lib \<Rightarrow> mandate \<Rightarrow> authority_error + string" where
  "DigestMandate L m =
     and_then (validate_mandate m) (\<lambda>_.
       digest_value ''asb.least-privilege.mandate/v1''
         (al_mandate L (m\<lparr>ma_NotBefore := utc (ma_NotBefore m), ma_ExpiresAt := utc (ma_ExpiresAt m)\<rparr>)))"

definition check_request :: "authority_lib \<Rightarrow> mandate \<Rightarrow> request \<Rightarrow> gotime \<Rightarrow> authority_error + unit" where
  "check_request L m r now =
     (if is_zero now \<or> before now (ma_NotBefore m) \<or> \<not> before now (ma_ExpiresAt m) then Inl ErrExpired
      else and_then (DigestAction L (rq_Action r)) (\<lambda>digest.
        if rq_ActorID r \<noteq> ma_ActorID m \<or> rq_TaskID r \<noteq> ma_TaskID m \<or> digest \<noteq> ma_ActionDigest m then Inl ErrBinding
        else if \<not> ma_AllowAutomatic m then Inl ErrHumanRequired
        else Inr ()))"

definition capability_message :: "authority_lib \<Rightarrow> capability_claims \<Rightarrow> authority_error + bytes" where
  "capability_message L c =
     (if cc_Schema c \<noteq> CapabilitySchemaV1 \<or> length (cc_ID c) \<noteq> 64 \<or> \<not> canonical_digest (sha256_prefix @ cc_ID c) \<or>
        \<not> bounded_text (cc_MandateID c) 256 \<or> \<not> bounded_text (cc_PolicyRef c) 2048 \<or>
        \<not> bounded_text (cc_ActorID c) 256 \<or> \<not> bounded_text (cc_TaskID c) 256 \<or>
        \<not> canonical_digest (cc_MandateDigest c) \<or> \<not> canonical_digest (cc_ActionDigest c) \<or>
        sl_Schema (cc_Solution c) \<noteq> SolutionSchemaV1 \<or> \<not> canonical_digest (sl_ProblemDigest (cc_Solution c)) \<or>
        length (sl_Grants (cc_Solution c)) > MaxGrants \<or> length (sl_Effective (cc_Solution c)) > MaxPermissions
      then Inl ErrInvalidCapability
      else if \<not> list_all (list_all (\<lambda>i. bounded_text i 256)) [sl_Grants (cc_Solution c), sl_Effective (cc_Solution c)]
      then Inl ErrInvalidCapability
      else case al_claims L c of
        None \<Rightarrow> Inl MarshalFailed
      | Some raw \<Rightarrow> Inr ((CapabilitySchemaV1 @ [char_of (0 :: nat)]) @ raw))"

definition DigestCapability :: "authority_lib \<Rightarrow> capability \<Rightarrow> authority_error + string" where
  "DigestCapability L c =
     and_then (capability_message L (cb_Claims c)) (\<lambda>_.
       if length (cb_Signature c) \<noteq> 64 then Inl ErrInvalidCapability
       else digest_value ''asb.least-privilege.evidence/v1'' (al_capability L c))"

section \<open>Issuing\<close>

definition lift_privilege :: "privilege_error + 'a \<Rightarrow> authority_error + 'a" where
  "lift_privilege r = (case r of Inl e \<Rightarrow> Inl (Privilege e) | Inr v \<Rightarrow> Inr v)"

definition NewAuthorizer :: "authority_lib \<Rightarrow> authorizer_config \<Rightarrow> authority_error + authorizer" where
  "NewAuthorizer L c =
     and_then (lift_privilege (digest_problem (al_problem L) (az_Problem c))) (\<lambda>digest.
       and_then (validate_mandate (az_Mandate c)) (\<lambda>_.
         if digest \<noteq> ma_ProblemDigest (az_Mandate c) then Inl ErrBinding
         else if length (az_SigningKey c) \<noteq> 64 \<or> al_key_from_seed L (take 32 (az_SigningKey c)) \<noteq> az_SigningKey c
         then Inl ErrInvalidMandate
         else if az_MaxEvaluations c = 0 then Inl (Privilege ErrLimit)
         else case al_copy L (az_Problem c) of
           None \<Rightarrow> Inl MarshalFailed
         | Some copy \<Rightarrow> Inr \<lparr>au_problem = copy, au_mandate = az_Mandate c, au_key = az_SigningKey c,
             au_budget = az_MaxEvaluations c\<rparr>))"

text \<open>\<open>t1\<close> and \<open>t2\<close> are the two readings of the clock, \<open>random\<close> the 32 bytes drawn for the identifier.\<close>

definition Authorize ::
    "authority_lib \<Rightarrow> authorizer \<Rightarrow> request \<Rightarrow> solution \<Rightarrow> gotime \<Rightarrow> gotime \<Rightarrow> bytes option \<Rightarrow> authority_error + capability" where
  "Authorize L a r cand t1 t2 random =
     (if length (sl_Grants cand) > MaxGrants \<or> length (sl_Effective cand) > MaxPermissions
      then Inl (Privilege ErrInvalidSolution)
      else and_then (check_request L (au_mandate a) r t1) (\<lambda>_.
        and_then (lift_privilege (verify (al_problem L) (au_problem a) cand (au_budget a))) (\<lambda>_.
          let now = utc t2 in
          and_then (check_request L (au_mandate a) r now) (\<lambda>_.
            and_then (DigestMandate L (au_mandate a)) (\<lambda>md.
              case random of
                None \<Rightarrow> Inl RandomFailed
              | Some rid \<Rightarrow>
                  let expires = add_duration now (int (unat (ma_MaxTTLSeconds (au_mandate a))) * ns_per_sec);
                    expires' = (if after expires (ma_ExpiresAt (au_mandate a)) then utc (ma_ExpiresAt (au_mandate a)) else expires);
                    claims = \<lparr>cc_Schema = CapabilitySchemaV1, cc_ID = hex_encode rid,
                      cc_MandateID = ma_ID (au_mandate a), cc_MandateDigest = md, cc_PolicyRef = ma_PolicyRef (au_mandate a),
                      cc_ActorID = rq_ActorID r, cc_TaskID = rq_TaskID r, cc_ActionDigest = ma_ActionDigest (au_mandate a),
                      cc_IssuedAt = now, cc_ExpiresAt = expires', cc_Solution = cand\<rparr> in
                  and_then (capability_message L claims) (\<lambda>message.
                    Inr \<lparr>cb_Claims = claims, cb_Signature = al_sign L (au_key a) message\<rparr>))))))"

section \<open>Checking and consuming\<close>

definition claims_bound :: "capability_claims \<Rightarrow> mandate \<Rightarrow> string \<Rightarrow> request \<Rightarrow> bool" where
  "claims_bound c m md r \<longleftrightarrow> \<not> (cc_MandateID c \<noteq> ma_ID m \<or> cc_MandateDigest c \<noteq> md \<or> cc_PolicyRef c \<noteq> ma_PolicyRef m \<or>
     cc_ActorID c \<noteq> rq_ActorID r \<or> cc_TaskID c \<noteq> rq_TaskID r \<or> cc_ActionDigest c \<noteq> ma_ActionDigest m \<or>
     sl_ProblemDigest (cc_Solution c) \<noteq> ma_ProblemDigest m)"

definition claims_current :: "capability_claims \<Rightarrow> mandate \<Rightarrow> gotime \<Rightarrow> bool" where
  "claims_current c m now \<longleftrightarrow> \<not> (is_zero (cc_IssuedAt c) \<or> is_zero (cc_ExpiresAt c) \<or> \<not> after (cc_ExpiresAt c) (cc_IssuedAt c) \<or>
     before (cc_IssuedAt c) (ma_NotBefore m) \<or> after (cc_IssuedAt c) now \<or> \<not> before now (cc_ExpiresAt c) \<or>
     after (cc_ExpiresAt c) (ma_ExpiresAt m) \<or>
     sub_time (cc_ExpiresAt c) (cc_IssuedAt c) > int (unat (ma_MaxTTLSeconds m)) * ns_per_sec)"

definition CheckCapability ::
    "authority_lib \<Rightarrow> capability \<Rightarrow> bytes \<Rightarrow> mandate \<Rightarrow> request \<Rightarrow> gotime \<Rightarrow> authority_error + unit" where
  "CheckCapability L cap key m r now =
     (if length key \<noteq> 32 \<or> length (cb_Signature cap) \<noteq> 64 then Inl ErrInvalidCapability
      else and_then (capability_message L (cb_Claims cap)) (\<lambda>message.
        if \<not> al_verify L key message (cb_Signature cap) then Inl ErrInvalidCapability
        else and_then (validate_mandate m) (\<lambda>_.
          and_then (check_request L m r now) (\<lambda>_.
            and_then (DigestMandate L m) (\<lambda>md.
              if \<not> claims_bound (cb_Claims cap) m md r then Inl ErrBinding
              else if \<not> claims_current (cb_Claims cap) m now then Inl ErrExpired
              else Inr ())))))"

record use_store =
  us_capacity :: int
  us_used :: "(string \<times> gotime) list"
  us_prunedUntil :: gotime

definition NewMemoryUseStore :: "int \<Rightarrow> authority_error + use_store" where
  "NewMemoryUseStore capacity =
     (if capacity \<le> 0 \<or> capacity > 1000000 then Inl ErrCapacity
      else Inr \<lparr>us_capacity = capacity, us_used = [], us_prunedUntil = zero_time\<rparr>)"

text \<open>The loop over the map, which deletes what expired and raises the floor; a map is a list with distinct keys.\<close>

fun prune_uses :: "gotime \<Rightarrow> (string \<times> gotime) list \<Rightarrow> gotime \<Rightarrow> (string \<times> gotime) list \<times> gotime" where
  "prune_uses now [] floor = ([], floor)"
| "prune_uses now ((k, expiry) # used) floor =
     (if \<not> before now expiry then prune_uses now used (if after expiry floor then expiry else floor)
      else (let (kept, floor') = prune_uses now used floor in ((k, expiry) # kept, floor')))"

definition use_mandate :: "use_store \<Rightarrow> string \<Rightarrow> gotime \<Rightarrow> gotime \<Rightarrow> use_store \<times> (authority_error + unit)" where
  "use_mandate s key expires now =
     (if \<not> bounded_text key 512 then (s, Inl ErrInvalidCapability)
      else if is_zero now \<or> before now (us_prunedUntil s) \<or> \<not> after expires now then (s, Inl ErrExpired)
      else case prune_uses now (us_used s) (us_prunedUntil s) of (used, floor) \<Rightarrow>
        let s' = s\<lparr>us_used := used, us_prunedUntil := floor\<rparr> in
        if map_of used key \<noteq> None then (s', Inl ErrReplay)
        else if int (length used) \<ge> us_capacity s then (s', Inl ErrCapacity)
        else (s'\<lparr>us_used := (key, expires) # used\<rparr>, Inr ()))"

definition ConsumeCapability ::
    "authority_lib \<Rightarrow> use_store \<Rightarrow> capability \<Rightarrow> bytes \<Rightarrow> mandate \<Rightarrow> request \<Rightarrow> gotime \<Rightarrow> use_store \<times> (authority_error + unit)" where
  "ConsumeCapability L s cap key m r now =
     (case CheckCapability L cap key m r now of
        Inl e \<Rightarrow> (s, Inl e)
      | Inr _ \<Rightarrow> use_mandate s (''asb.least-privilege/'' @ ma_ID m) (ma_ExpiresAt m) now)"

end
