(* ===== verification/Privilege_Sets.thy ===== *)
theory Privilege_Sets
  imports Privilege_Model
begin

text \<open>
  The bit sets of \<^verbatim>\<open>model.go\<close> as sets of permission numbers: each array operation implements the set
  operation it is named after, and the loop over the rules computes the least closed set.
\<close>

section \<open>Members\<close>

definition wf_set :: "permission_set \<Rightarrow> bool" where
  "wf_set s \<longleftrightarrow> length s = 4"

definition members :: "permission_set \<Rightarrow> nat set" where
  "members s = {i. i < 256 \<and> bit (s ! (i div 64)) (i mod 64)}"

lemma and_push_bit: "i < 64 \<Longrightarrow> (w :: uint64) AND push_bit i 1 \<noteq> 0 \<longleftrightarrow> bit w i"
proof -
  assume i: "i < 64"
  have "(w AND push_bit i 1) = 0 \<longleftrightarrow> \<not> bit w i"
  proof
    assume z: "w AND push_bit i 1 = 0"
    have "bit (w AND push_bit i 1) i \<longleftrightarrow> bit w i" using i by (simp add: bit_simps)
    with z show "\<not> bit w i" by simp
  qed (auto intro!: bit_word_eqI simp: bit_simps)
  then show ?thesis by simp
qed

lemma has_permission_iff: "i < 256 \<Longrightarrow> has_permission s i \<longleftrightarrow> i \<in> members s"
  unfolding has_permission_def members_def using and_push_bit [of "i mod 64" "s ! (i div 64)"] by auto

lemma wf_no_permissions [simp]: "wf_set no_permissions"
  by (simp add: wf_set_def no_permissions_def MaxPermissions_def)

lemma members_none [simp]: "members no_permissions = {}"
  by (auto simp: members_def no_permissions_def MaxPermissions_def)

lemma wf_add [simp]: "wf_set (add_permission s i) = wf_set s"
  by (simp add: wf_set_def add_permission_def)

lemma members_add:
  assumes "wf_set s" and "i < 256"
  shows "members (add_permission s i) = insert i (members s)"
proof -
  have "bit (add_permission s i ! (j div 64)) (j mod 64) \<longleftrightarrow> j = i \<or> bit (s ! (j div 64)) (j mod 64)" if "j < 256" for j
  proof (cases "j div 64 = i div 64")
    case True
    then have "j = i \<longleftrightarrow> j mod 64 = i mod 64" by (metis div_mod_decomp)
    with True assms show ?thesis
      by (auto simp: add_permission_def wf_set_def bit_simps)
  next
    case False
    with assms show ?thesis by (auto simp: add_permission_def wf_set_def)
  qed
  with assms show ?thesis by (auto simp: members_def)
qed

lemma wf_union [simp]: "wf_set (set_union s t) = wf_set s"
  by (simp add: wf_set_def set_union_def)

lemma members_union: "wf_set s \<Longrightarrow> members (set_union s t) = members s \<union> members t"
  by (auto simp: members_def set_union_def wf_set_def bit_or_iff)

text \<open>A condition on every bit of every word is one on every number below 256.\<close>

lemma all_words:
  "(\<forall>i<4. \<forall>j<64. P i j) \<longleftrightarrow> (\<forall>n<256. P (n div 64) (n mod (64 :: nat)))" for P :: "nat \<Rightarrow> nat \<Rightarrow> bool"
proof
  assume all: "\<forall>n<256. P (n div 64) (n mod 64)"
  have "P i j" if "i < 4" "j < 64" for i j
    using all [rule_format, of "64 * i + j"] that by simp
  then show "\<forall>i<4. \<forall>j<64. P i j" by blast
qed auto

lemma and_eq_iff: "(w :: uint64) AND v = v \<longleftrightarrow> (\<forall>j<64. bit v j \<longrightarrow> bit w j)"
  by (auto simp: bit_and_iff intro!: bit_word_eqI) (metis bit_and_iff)

lemma or_eq_iff: "(w :: uint64) OR v = w \<longleftrightarrow> (\<forall>j<64. bit v j \<longrightarrow> bit w j)"
  by (auto simp: bit_or_iff intro!: bit_word_eqI) (metis bit_or_iff)

lemma set_contains_iff: "wf_set s \<Longrightarrow> set_contains s t \<longleftrightarrow> members t \<subseteq> members s"
  using all_words [of "\<lambda>i j. bit (t ! i) j \<longrightarrow> bit (s ! i) j"]
  by (auto simp: set_contains_def wf_set_def list_all_iff and_eq_iff members_def)

lemma union_changed_iff: "wf_set s \<Longrightarrow> union_changed s t \<longleftrightarrow> \<not> members t \<subseteq> members s"
  using all_words [of "\<lambda>i j. bit (t ! i) j \<longrightarrow> bit (s ! i) j"]
  by (auto simp: union_changed_def wf_set_def list_ex_iff or_eq_iff members_def)

section \<open>Closing under the rules\<close>

definition closed_under :: "(nat set \<times> nat set) set \<Rightarrow> nat set \<Rightarrow> bool" where
  "closed_under R X \<longleftrightarrow> (\<forall>(a, t)\<in>R. a \<subseteq> X \<longrightarrow> t \<subseteq> X)"

abbreviation rule_members :: "(permission_set \<times> permission_set) list \<Rightarrow> (nat set \<times> nat set) set" where
  "rule_members rules \<equiv> map_prod members members ` set rules"

lemma rule_pass_members:
  assumes "wf_set s" and "rule_pass rules s = (s', changed)"
  shows "wf_set s'" and "members s \<subseteq> members s'"
    and "\<And>X. members s \<subseteq> X \<Longrightarrow> closed_under (rule_members rules) X \<Longrightarrow> members s' \<subseteq> X"
    and "\<not> changed \<Longrightarrow> members s' = members s \<and> closed_under (rule_members rules) (members s)"
proof -
  have "wf_set s' \<and> members s \<subseteq> members s' \<and>
      (\<forall>X. members s \<subseteq> X \<longrightarrow> closed_under (rule_members rules) X \<longrightarrow> members s' \<subseteq> X) \<and>
      (\<not> changed \<longrightarrow> members s' = members s \<and> closed_under (rule_members rules) (members s))"
    using assms
  proof (induction rules s arbitrary: s' changed rule: rule_pass.induct)
    case (2 a t rules s)
    show ?case
    proof (cases "set_contains s a")
      case True
      obtain s1 c where p: "rule_pass rules (set_union s t) = (s1, c)" by (cases "rule_pass rules (set_union s t)")
      have wf: "wf_set (set_union s t)" using "2.prems"(1) by simp
      from "2.IH"(1) [OF True wf p] have i1: "wf_set s1" and i2: "members (set_union s t) \<subseteq> members s1"
        and i3: "\<And>X. members (set_union s t) \<subseteq> X \<Longrightarrow> closed_under (rule_members rules) X \<Longrightarrow> members s1 \<subseteq> X"
        and i4: "\<not> c \<Longrightarrow> members s1 = members (set_union s t) \<and> closed_under (rule_members rules) (members (set_union s t))"
        by simp_all
      have u: "members (set_union s t) = members s \<union> members t" by (rule members_union [OF "2.prems"(1)])
      have a: "members a \<subseteq> members s" using True set_contains_iff [OF "2.prems"(1)] by simp
      have s': "s' = s1" "changed \<longleftrightarrow> union_changed s t \<or> c" using "2.prems"(2) True p by auto
      have cl: "closed_under (rule_members ((a, t) # rules)) X \<longleftrightarrow>
          (members a \<subseteq> X \<longrightarrow> members t \<subseteq> X) \<and> closed_under (rule_members rules) X" for X
        by (simp add: closed_under_def)
      have "members s1 \<subseteq> X" if "members s \<subseteq> X" "closed_under (rule_members ((a, t) # rules)) X" for X
      proof (rule i3)
        have "members t \<subseteq> X" using that cl [of X] order_trans [OF a that(1)] by simp
        then show "members (set_union s t) \<subseteq> X" using u that(1) by simp
        show "closed_under (rule_members rules) X" using that(2) cl [of X] by simp
      qed
      moreover have "members s1 = members s \<and> closed_under (rule_members ((a, t) # rules)) (members s)" if "\<not> changed"
      proof -
        have "members t \<subseteq> members s" "\<not> c" using that s'(2) union_changed_iff [OF "2.prems"(1)] by auto
        moreover from this have "members (set_union s t) = members s" using u by blast
        ultimately show ?thesis using i4 cl by simp
      qed
      moreover have "members s \<subseteq> members s1" using i2 u by simp
      ultimately show ?thesis using i1 s'(1) by simp
    next
      case False
      note IH = "2.IH"(2) [OF False "2.prems"(1)]
      have "rule_pass rules s = (s', changed)" using "2.prems"(2) False by simp
      moreover have "\<not> members a \<subseteq> members s" using False set_contains_iff [OF "2.prems"(1)] by simp
      moreover have "closed_under (rule_members ((a, t) # rules)) X \<longleftrightarrow>
          (members a \<subseteq> X \<longrightarrow> members t \<subseteq> X) \<and> closed_under (rule_members rules) X" for X
        by (simp add: closed_under_def)
      ultimately show ?thesis using IH by simp
    qed
  qed (simp add: closed_under_def)
  then show "wf_set s'" and "members s \<subseteq> members s'"
    and "\<And>X. members s \<subseteq> X \<Longrightarrow> closed_under (rule_members rules) X \<Longrightarrow> members s' \<subseteq> X"
    and "\<not> changed \<Longrightarrow> members s' = members s \<and> closed_under (rule_members rules) (members s)" by blast+
qed

text \<open>The result of the loop is the least set that contains the start and is closed under the rules.\<close>

lemma close_rules_least:
  assumes "wf_set s"
  shows "wf_set (close_rules rules s) \<and> members s \<subseteq> members (close_rules rules s) \<and>
    closed_under (rule_members rules) (members (close_rules rules s)) \<and>
    (\<forall>X. members s \<subseteq> X \<longrightarrow> closed_under (rule_members rules) X \<longrightarrow> members (close_rules rules s) \<subseteq> X)"
  using assms
proof (induction rules s rule: close_rules.induct)
  case (1 rules s)
  obtain s' c where p: "rule_pass rules s = (s', c)" by (cases "rule_pass rules s")
  note m = rule_pass_members [OF "1.prems" p]
  show ?case
  proof (cases c)
    case True
    then have "close_rules rules s = close_rules rules s'" using p by (simp add: close_rules.simps [of rules s])
    then have eq: "close_rules rules s = close_rules rules s'" .
    note IH = "1.IH" [OF p [symmetric] True m(1)]
    have "members (close_rules rules s') \<subseteq> X" if "members s \<subseteq> X" "closed_under (rule_members rules) X" for X
      using IH m(3) [OF that] that(2) by simp
    moreover have "members s \<subseteq> members (close_rules rules s')" using IH m(2) by (meson order_trans)
    ultimately show ?thesis using IH by (simp add: eq)
  next
    case False
    then have "close_rules rules s = s'" using p by (simp add: close_rules.simps [of rules s])
    with m False show ?thesis by simp
  qed
qed

end
