(* ===== verification/Privilege_Spec.thy ===== *)
theory Privilege_Spec
  imports Privilege_Sets "HOL-Library.Multiset"
begin

text \<open>
  What a least-privilege problem asks for, in terms of permission and grant identifiers, and that the
  compiled problem evaluates every selection as specified.
\<close>

section \<open>The specification\<close>

text \<open>The permissions a selection of grants gives, directly or through an implication.\<close>

inductive_set effective :: "problem \<Rightarrow> string set \<Rightarrow> string set"
  for p :: problem and G :: "string set" where
  eff_grant: "g \<in> set (pb_Grants p) \<Longrightarrow> gr_ID g \<in> G \<Longrightarrow> x \<in> set (gr_Permissions g) \<Longrightarrow> x \<in> effective p G"
| eff_rule: "r \<in> set (pb_Implications p) \<Longrightarrow> \<forall>x\<in>set (im_AllOf r). x \<in> effective p G \<Longrightarrow> y \<in> set (im_Then r) \<Longrightarrow>
    y \<in> effective p G"

definition feasible :: "problem \<Rightarrow> string set \<Rightarrow> bool" where
  "feasible p E \<longleftrightarrow> set (pb_Required p) \<subseteq> E \<and> E \<subseteq> set (pb_Allowed p) \<and> (\<forall>f\<in>set (pb_ForbiddenTogether p). \<not> set f \<subseteq> E)"

definition total_cost :: "problem \<Rightarrow> string set \<Rightarrow> nat" where
  "total_cost p E = (\<Sum>q\<leftarrow>pb_Permissions p. if pm_ID q \<in> E then unat (pm_Cost q) else 0)"

definition grant_names :: "problem \<Rightarrow> string set" where
  "grant_names p = gr_ID ` set (pb_Grants p)"

text \<open>A selection that is feasible, and one that is cheapest among those.\<close>

definition admissible :: "problem \<Rightarrow> string set \<Rightarrow> bool" where
  "admissible p G \<longleftrightarrow> G \<subseteq> grant_names p \<and> feasible p (effective p G)"

definition optimal :: "problem \<Rightarrow> string set \<Rightarrow> bool" where
  "optimal p G \<longleftrightarrow> admissible p G \<and>
     (\<forall>G'. admissible p G' \<longrightarrow> total_cost p (effective p G) \<le> total_cost p (effective p G'))"

section \<open>Normalization\<close>

lemma sum_list_sort: "sum_list (map h (sort_key k xs)) = sum_list (map h xs)" for h :: "'a \<Rightarrow> nat"
  by (metis mset_sort mset_map sum_mset_sum_list)

lemma refs_Inr: "refs index ids = Inr out \<longleftrightarrow> length ids \<le> MaxPermissions \<and> list_all valid_id ids \<and> out = sort ids \<and>
    list_all (\<lambda>i. index i \<noteq> None) ids \<and> distinct_adj out"
  by (auto simp: refs_def Let_def list_all_iff)

lemma refs_set: "refs index ids = Inr out \<Longrightarrow> set out = set ids"
  by (auto simp: refs_Inr)

lemma refs_known: "refs index ids = Inr out \<Longrightarrow> \<forall>i\<in>set out. index i \<noteq> None \<and> valid_id i"
  by (auto simp: refs_Inr list_all_iff)

definition grant_view :: "grant \<Rightarrow> string \<times> string set" where
  "grant_view g = (gr_ID g, set (gr_Permissions g))"

definition rule_view :: "implication \<Rightarrow> string set \<times> string set" where
  "rule_view r = (set (im_AllOf r), set (im_Then r))"

lemma refs_all_sets: "refs_all index xs = Inr ys \<Longrightarrow> map set ys = map set xs \<and> (\<forall>y\<in>set ys. \<forall>i\<in>set y. index i \<noteq> None)"
proof (induction xs arbitrary: ys)
  case (Cons x xs)
  then obtain y ys' where "refs index x = Inr y" "refs_all index xs = Inr ys'" "ys = y # ys'"
    by (auto simp: and_then_Inr_iff)
  with Cons.IH show ?case using refs_set refs_known by fastforce
qed simp

lemma check_grants_view:
  "check_grants index seen gs = Inr gs' \<Longrightarrow> map grant_view gs' = map grant_view gs \<and>
     (\<forall>g\<in>set gs'. valid_id (gr_ID g) \<and> (\<forall>i\<in>set (gr_Permissions g). index i \<noteq> None)) \<and>
     distinct (map gr_ID gs') \<and> set seen \<inter> gr_ID ` set gs' = {}"
proof (induction gs arbitrary: seen gs')
  case (Cons g gs)
  then obtain ps gs'' where g: "valid_id (gr_ID g)" "gr_ID g \<notin> set seen" "refs index (gr_Permissions g) = Inr ps"
      "check_grants index (gr_ID g # seen) gs = Inr gs''" "gs' = \<lparr>gr_ID = gr_ID g, gr_Permissions = ps\<rparr> # gs''"
    by (auto simp: and_then_Inr_iff)
  from Cons.IH [OF g(4)] g refs_set [OF g(3)] refs_known [OF g(3)] show ?case
    by (auto simp: grant_view_def)
qed simp

lemma check_implications_view:
  "check_implications index rs = Inr rs' \<Longrightarrow> map rule_view rs' = map rule_view rs \<and>
     (\<forall>r\<in>set rs'. (\<forall>i\<in>set (im_AllOf r). index i \<noteq> None) \<and> (\<forall>i\<in>set (im_Then r). index i \<noteq> None))"
proof (induction rs arbitrary: rs')
  case (Cons r rs)
  then obtain a t rs'' where r: "refs index (im_AllOf r) = Inr a" "refs index (im_Then r) = Inr t"
      "check_implications index rs = Inr rs''" "rs' = \<lparr>im_AllOf = a, im_Then = t\<rparr> # rs''"
    by (auto simp: and_then_Inr_iff)
  from Cons.IH [OF r(3)] r refs_set [OF r(1)] refs_set [OF r(2)] refs_known [OF r(1)] refs_known [OF r(2)] show ?case
    by (auto simp: rule_view_def)
qed simp

text \<open>Two problems that say the same: equal up to order and repetition.\<close>

definition same_problem :: "problem \<Rightarrow> problem \<Rightarrow> bool" where
  "same_problem p q \<longleftrightarrow> grant_view ` set (pb_Grants p) = grant_view ` set (pb_Grants q) \<and>
     rule_view ` set (pb_Implications p) = rule_view ` set (pb_Implications q) \<and>
     set (pb_Required p) = set (pb_Required q) \<and> set (pb_Allowed p) = set (pb_Allowed q) \<and>
     set ` set (pb_ForbiddenTogether p) = set ` set (pb_ForbiddenTogether q) \<and>
     mset (pb_Permissions p) = mset (pb_Permissions q)"

lemma same_problem_sym: "same_problem p q \<Longrightarrow> same_problem q p"
  by (simp add: same_problem_def)

lemma effective_mono_view:
  assumes "same_problem p q"
  shows "effective p G \<subseteq> effective q G"
proof
  fix x assume "x \<in> effective p G"
  then show "x \<in> effective q G"
  proof induction
    case (eff_grant g x)
    then have "grant_view g \<in> grant_view ` set (pb_Grants q)" using assms by (auto simp: same_problem_def)
    with eff_grant show ?case by (auto simp: grant_view_def intro: effective.eff_grant)
  next
    case (eff_rule r y)
    then have "rule_view r \<in> rule_view ` set (pb_Implications q)" using assms by (auto simp: same_problem_def)
    then obtain r' where r': "r' \<in> set (pb_Implications q)" "set (im_AllOf r') = set (im_AllOf r)" "set (im_Then r') = set (im_Then r)"
      by (auto simp: rule_view_def)
    show ?case by (rule effective.eff_rule [OF r'(1)]) (use r' eff_rule in auto)
  qed
qed

lemma same_problem_spec:
  assumes "same_problem p q"
  shows "effective p = effective q" and "feasible p = feasible q" and "total_cost p = total_cost q"
    and "grant_names p = grant_names q" and "admissible p = admissible q" and "optimal p = optimal q"
proof -
  show e: "effective p = effective q"
    using effective_mono_view [OF assms] effective_mono_view [OF same_problem_sym [OF assms]] by blast
  have "feasible r E \<longleftrightarrow> set (pb_Required r) \<subseteq> E \<and> E \<subseteq> set (pb_Allowed r) \<and>
      (\<forall>f\<in>set ` set (pb_ForbiddenTogether r). \<not> f \<subseteq> E)" for r E
    by (simp add: feasible_def)
  then show f: "feasible p = feasible q" using assms unfolding fun_eq_iff same_problem_def by (simp only:) simp
  show c: "total_cost p = total_cost q"
    using assms unfolding fun_eq_iff total_cost_def same_problem_def sum_mset_sum_list [symmetric] mset_map by simp
  have "grant_names r = fst ` (grant_view ` set (pb_Grants r))" for r
    by (auto simp: grant_names_def grant_view_def image_image)
  then show g: "grant_names p = grant_names q" using assms by (simp add: same_problem_def)
  show a: "admissible p = admissible q" by (simp add: fun_eq_iff admissible_def e f g)
  show "optimal p = optimal q" by (simp add: fun_eq_iff optimal_def a e c)
qed

section \<open>Well-formed normal forms\<close>

definition known :: "problem \<Rightarrow> string list \<Rightarrow> bool" where
  "known n xs \<longleftrightarrow> set xs \<subseteq> pm_ID ` set (pb_Permissions n)"

definition normal_problem :: "problem \<Rightarrow> bool" where
  "normal_problem n \<longleftrightarrow> distinct (map pm_ID (pb_Permissions n)) \<and> length (pb_Permissions n) \<le> 256 \<and>
     list_all (\<lambda>q. valid_id (pm_ID q)) (pb_Permissions n) \<and> sorted (map pm_ID (pb_Permissions n)) \<and>
     (\<Sum>q\<leftarrow>pb_Permissions n. unat (pm_Cost q)) < 2 ^ 64 \<and>
     distinct (map gr_ID (pb_Grants n)) \<and> length (pb_Grants n) \<le> 20 \<and> list_all (\<lambda>g. valid_id (gr_ID g)) (pb_Grants n) \<and>
     list_all (\<lambda>g. known n (gr_Permissions g)) (pb_Grants n) \<and>
     list_all (\<lambda>r. known n (im_AllOf r) \<and> known n (im_Then r)) (pb_Implications n) \<and>
     known n (pb_Required n) \<and> known n (pb_Allowed n) \<and> list_all (known n) (pb_ForbiddenTogether n)"

lemma costs_ok_sum:
  "costs_ok seen acc ps \<Longrightarrow> unat acc + (\<Sum>q\<leftarrow>ps. unat (pm_Cost q)) < 2 ^ 64 \<and> distinct (map pm_ID ps) \<and>
     list_all (\<lambda>q. valid_id (pm_ID q)) ps \<and> set seen \<inter> pm_ID ` set ps = {}"
proof (induction seen acc ps rule: costs_ok.induct)
  case (1 seen acc)
  show ?case using unsigned_less [of acc, where ?'a = nat] by simp
next
  case (2 seen acc p ps)
  have "\<not> - 1 - pm_Cost p < acc" using 2 by simp
  then have "unat acc \<le> unat (- 1 - pm_Cost p)" by (simp add: word_le_nat_alt not_less)
  also have "unat (- 1 - pm_Cost p) = unat (- 1 :: uint64) - unat (pm_Cost p)" by (rule unat_sub) simp
  finally have "unat acc + unat (pm_Cost p) < 2 ^ 64"
    using unsigned_less [of "pm_Cost p", where ?'a = nat] by (simp add: unsigned_minus_1_eq_mask mask_eq_exp_minus_1)
  then have "unat (acc + pm_Cost p) = unat acc + unat (pm_Cost p)" by (simp add: unat_word_ariths)
  with 2 show ?case by auto
qed

lemma position_Some:
  assumes "distinct xs"
  shows "map_of (zip xs [0..<length xs]) x = Some i \<longleftrightarrow> i < length xs \<and> xs ! i = x"
proof -
  have "map_of (zip xs [0..<length xs]) x = Some i \<longleftrightarrow> (x, i) \<in> set (zip xs [0..<length xs])"
    using assms by (intro map_of_eq_Some_iff) simp
  then show ?thesis by (auto simp: set_zip)
qed

lemma position_None: "map_of (zip xs [0..<length xs]) x = None \<longleftrightarrow> x \<notin> set xs"
  by (simp only: map_of_eq_None_iff set_map [symmetric] map_fst_zip length_upt)

lemma permission_index_None: "permission_index ps x \<noteq> None \<longleftrightarrow> x \<in> pm_ID ` set ps"
  using position_None [of "map pm_ID ps" x] by (simp add: permission_index_def)

lemma distinct_sort_key: "distinct (map f (sort_key k xs)) \<longleftrightarrow> distinct (map f xs)"
  by (metis mset_eq_imp_distinct_iff mset_map mset_sort)

lemma normalize_problem_ok:
  assumes "normalize_problem p = Inr n"
  shows "normal_problem n" and "same_problem p n" and "length (pb_Grants n) = length (pb_Grants p)"
proof -
  let ?ps = "sort_key pm_ID (pb_Permissions p)"
  let ?index = "permission_index ?ps"
  obtain required allowed gs rs fs where
      b: "\<not> (length (pb_Permissions p) > MaxPermissions \<or> length (pb_Grants p) > MaxGrants)"
      and c: "costs_ok [] 0 ?ps"
      and r: "refs ?index (pb_Required p) = Inr required" "refs ?index (pb_Allowed p) = Inr allowed"
      and g: "check_grants ?index [] (pb_Grants p) = Inr gs"
      and i: "check_implications ?index (pb_Implications p) = Inr rs"
      and f: "refs_all ?index (pb_ForbiddenTogether p) = Inr fs"
      and n: "n = \<lparr>pb_Schema = pb_Schema p, pb_Permissions = ?ps, pb_Grants = sort_key gr_ID gs, pb_Required = required,
        pb_Allowed = allowed, pb_Implications = sort_key rule_key rs, pb_ForbiddenTogether = sort fs\<rparr>"
    using assms unfolding normalize_problem_def Let_def by (auto simp: and_then_Inr_iff split: if_splits)
  have idx: "?index x \<noteq> None \<longleftrightarrow> x \<in> pm_ID ` set (pb_Permissions n)" for x
    using permission_index_None [of ?ps x] n by simp
  note cs = costs_ok_sum [OF c] and gv = check_grants_view [OF g] and iv = check_implications_view [OF i]
    and fv = refs_all_sets [OF f]
  have len: "length gs = length (pb_Grants p)" using gv by (metis length_map)
  then show "length (pb_Grants n) = length (pb_Grants p)" using n by simp
  have "known n required" "known n allowed"
    using refs_known [OF r(1)] refs_known [OF r(2)] idx by (auto simp: known_def)
  moreover have "list_all (\<lambda>g. known n (gr_Permissions g)) (pb_Grants n)"
    "list_all (\<lambda>r. known n (im_AllOf r) \<and> known n (im_Then r)) (pb_Implications n)" "list_all (known n) (pb_ForbiddenTogether n)"
    using gv iv fv idx n by (auto simp: known_def list_all_iff)
  moreover have "distinct (map gr_ID (pb_Grants n))" "list_all (\<lambda>g. valid_id (gr_ID g)) (pb_Grants n)"
    using gv n by (simp_all add: distinct_sort_key list_all_iff)
  ultimately show "normal_problem n"
    using cs b len n by (simp add: normal_problem_def MaxPermissions_def MaxGrants_def)
  have "set (map grant_view gs) = set (map grant_view (pb_Grants p))" "set (map rule_view rs) = set (map rule_view (pb_Implications p))"
    "set (map set fs) = set (map set (pb_ForbiddenTogether p))"
    using gv iv fv by simp_all
  then show "same_problem p n"
    using n refs_set [OF r(1)] refs_set [OF r(2)] by (simp add: same_problem_def)
qed

section \<open>Numbers and names\<close>

text \<open>The numbers of a set of permission names.\<close>

definition numbers :: "problem \<Rightarrow> string set \<Rightarrow> nat set" where
  "numbers n E = {i. i < length (pb_Permissions n) \<and> pm_ID (pb_Permissions n ! i) \<in> E}"

lemma numbers_subset:
  assumes "A \<subseteq> pm_ID ` set (pb_Permissions n)"
  shows "numbers n A \<subseteq> numbers n B \<longleftrightarrow> A \<subseteq> B"
proof
  assume sub: "numbers n A \<subseteq> numbers n B"
  show "A \<subseteq> B"
  proof
    fix x assume "x \<in> A"
    then obtain i where "i < length (pb_Permissions n)" "pm_ID (pb_Permissions n ! i) = x"
      using assms by (metis imageE in_set_conv_nth subsetD)
    with sub \<open>x \<in> A\<close> show "x \<in> B" by (auto simp: numbers_def)
  qed
qed (auto simp: numbers_def)

lemma to_set_numbers:
  assumes "normal_problem n" and "known n xs"
  shows "wf_set (to_set (permission_index (pb_Permissions n)) xs)"
    and "members (to_set (permission_index (pb_Permissions n)) xs) = numbers n (set xs)"
proof -
  let ?index = "permission_index (pb_Permissions n)"
  let ?add = "\<lambda>s i. add_permission s (the (?index i))"
  have d: "distinct (map pm_ID (pb_Permissions n))" "length (pb_Permissions n) \<le> 256"
    using assms(1) by (simp_all add: normal_problem_def)
  have number: "\<exists>i. ?index x = Some i \<and> i < 256 \<and> (\<forall>j. j \<in> numbers n {x} \<longleftrightarrow> j = i)" if x: "x \<in> pm_ID ` set (pb_Permissions n)" for x
  proof -
    obtain i where i: "?index x = Some i" using permission_index_None [of "pb_Permissions n" x] x by auto
    have s: "?index x = Some j \<longleftrightarrow> j < length (pb_Permissions n) \<and> pm_ID (pb_Permissions n ! j) = x" for j
      using position_Some [OF d(1), of x j] by (auto simp: permission_index_def)
    from i s [of i] d(2) have "i < 256" by simp
    moreover have "j \<in> numbers n {x} \<longleftrightarrow> j = i" for j using s [of j] i by (auto simp: numbers_def)
    ultimately show ?thesis using i by blast
  qed
  have "wf_set (foldl ?add s xs) \<and> members (foldl ?add s xs) = members s \<union> numbers n (set xs)"
    if "wf_set s" "set xs \<subseteq> pm_ID ` set (pb_Permissions n)" for s xs
    using that
  proof (induction xs arbitrary: s)
    case (Cons x xs)
    obtain i where i: "?index x = Some i" "i < 256" "numbers n {x} = {i}" using number [of x] Cons.prems(2) by fastforce
    have "numbers n (set (x # xs)) = {i} \<union> numbers n (set xs)" using i(3) by (auto simp: numbers_def)
    then show ?case
      using Cons.IH [of "?add s x"] Cons.prems i members_add [OF Cons.prems(1) i(2)] by simp
  qed (simp add: numbers_def)
  then show "wf_set (to_set ?index xs)" "members (to_set ?index xs) = numbers n (set xs)"
    using assms(2) by (simp_all add: to_set_def known_def)
qed

end
