(* ===== verification/Privilege_Evaluate.thy ===== *)
theory Privilege_Evaluate
  imports Privilege_Spec
begin

text \<open>
  The compiled problem against the specification: for every mask, \<^verbatim>\<open>evaluate\<close> computes exactly the
  effective permissions of the grants it selects, decides feasibility, and sums their costs without overflow.
\<close>

section \<open>Compiled problems\<close>

definition compiled :: "compiled_problem \<Rightarrow> problem \<Rightarrow> bool" where
  "compiled cp n \<longleftrightarrow> normal_problem n \<and> cp_problem cp = n \<and>
     cp_grants cp = map (\<lambda>g. to_set (permission_index (pb_Permissions n)) (gr_Permissions g)) (pb_Grants n) \<and>
     cp_required cp = to_set (permission_index (pb_Permissions n)) (pb_Required n) \<and>
     cp_allowed cp = to_set (permission_index (pb_Permissions n)) (pb_Allowed n) \<and>
     cp_rules cp = map (\<lambda>r. (to_set (permission_index (pb_Permissions n)) (im_AllOf r),
       to_set (permission_index (pb_Permissions n)) (im_Then r))) (pb_Implications n) \<and>
     cp_forbidden cp = map (to_set (permission_index (pb_Permissions n))) (pb_ForbiddenTogether n)"

lemma compile_problem_compiled:
  assumes "compile_problem marshal p = Inr cp"
  obtains n where "normalize_problem p = Inr n" and "compiled cp n" and "same_problem p n"
proof -
  obtain n data where n: "normalize_problem p = Inr n" "marshal n = Some data"
    and cp: "compiled cp n \<or> \<not> normal_problem n"
    using assms by (auto simp: compile_problem_def and_then_Inr_iff compiled_def Let_def split: option.splits)
  note ok = normalize_problem_ok [OF n(1)]
  show ?thesis by (rule that [OF n(1)]) (use cp ok in auto)
qed

text \<open>The names of the grants a mask selects.\<close>

definition chosen :: "problem \<Rightarrow> uint64 \<Rightarrow> string set" where
  "chosen n m = {gr_ID (pb_Grants n ! i) | i. i < length (pb_Grants n) \<and> bit m i}"

lemma selected_iff: "i < 64 \<Longrightarrow> selected m i \<longleftrightarrow> bit m i"
  by (simp only: selected_def and_push_bit)

lemma chosen_grant:
  assumes "normal_problem n" and "i < length (pb_Grants n)"
  shows "gr_ID (pb_Grants n ! i) \<in> chosen n m \<longleftrightarrow> bit m i"
proof -
  have d: "distinct (map gr_ID (pb_Grants n))" using assms(1) by (simp add: normal_problem_def)
  have "j = i" if "j < length (pb_Grants n)" "gr_ID (pb_Grants n ! i) = gr_ID (pb_Grants n ! j)" for j
    using nth_eq_iff_index_eq [OF d, of i j] that assms(2) by simp
  then show ?thesis using assms(2) by (auto simp: chosen_def)
qed

lemma chosen_names: "chosen n m \<subseteq> grant_names n"
  by (auto simp: chosen_def grant_names_def)

section \<open>Granted permissions\<close>

lemma granted_members:
  assumes "wf_set s" and "i + length gs \<le> 64"
  shows "wf_set (granted_permissions m i gs s) \<and>
    members (granted_permissions m i gs s) = members s \<union> (\<Union>j\<in>{j. j < length gs \<and> bit m (i + j)}. members (gs ! j))"
  using assms
proof (induction gs arbitrary: i s)
  case (Cons g gs)
  let ?s = "if selected m i then set_union s g else s"
  have wf: "wf_set ?s" using Cons.prems by simp
  have split: "{j. j < length (g # gs) \<and> bit m (i + j)} = (if bit m i then {0} else {}) \<union> Suc ` {j. j < length gs \<and> bit m (Suc i + j)}"
    by (auto simp: image_iff less_Suc_eq_0_disj)
  have ms: "members ?s = members s \<union> (if bit m i then members g else {})"
    using Cons.prems selected_iff [of i m] members_union [OF Cons.prems(1), of g] by simp
  from Cons.IH [OF wf, of "Suc i"] Cons.prems(2) show ?case
    unfolding split by (simp add: ms Un_assoc)
qed simp

lemma numbers_Union: "numbers n (\<Union>A) = (\<Union>X\<in>A. numbers n X)"
  by (auto simp: numbers_def)

lemma numbers_mono: "A \<subseteq> B \<Longrightarrow> numbers n A \<subseteq> numbers n B"
  by (auto simp: numbers_def)

lemma granted_numbers:
  assumes "compiled cp n"
  shows "wf_set (granted_permissions m 0 (cp_grants cp) no_permissions) \<and>
    members (granted_permissions m 0 (cp_grants cp) no_permissions) =
      numbers n {x. \<exists>g\<in>set (pb_Grants n). gr_ID g \<in> chosen n m \<and> x \<in> set (gr_Permissions g)}"
proof -
  have n: "normal_problem n" and gs: "cp_grants cp = map (\<lambda>g. to_set (permission_index (pb_Permissions n)) (gr_Permissions g)) (pb_Grants n)"
    using assms by (simp_all add: compiled_def)
  have kn: "known n (gr_Permissions g)" if "g \<in> set (pb_Grants n)" for g
    using n that by (auto simp: normal_problem_def list_all_iff)
  have len: "length (pb_Grants n) \<le> 64" using n by (simp add: normal_problem_def)
  have g: "members (cp_grants cp ! j) = numbers n (set (gr_Permissions (pb_Grants n ! j)))" if "j < length (pb_Grants n)" for j
    using that gs to_set_numbers(2) [OF n kn, of "pb_Grants n ! j"] by simp
  have "(\<Union>j\<in>{j. j < length (pb_Grants n) \<and> bit m j}. members (cp_grants cp ! j)) =
      (\<Union>j\<in>{j. j < length (pb_Grants n) \<and> bit m j}. numbers n (set (gr_Permissions (pb_Grants n ! j))))"
    by (rule SUP_cong [OF refl]) (use g in auto)
  also have "\<dots> = numbers n (\<Union>j\<in>{j. j < length (pb_Grants n) \<and> bit m j}. set (gr_Permissions (pb_Grants n ! j)))"
    by (simp add: numbers_Union image_image)
  also have "(\<Union>j\<in>{j. j < length (pb_Grants n) \<and> bit m j}. set (gr_Permissions (pb_Grants n ! j))) =
      {x. \<exists>g\<in>set (pb_Grants n). gr_ID g \<in> chosen n m \<and> x \<in> set (gr_Permissions g)}"
  proof -
    have "(\<exists>j. j < length (pb_Grants n) \<and> bit m j \<and> x \<in> set (gr_Permissions (pb_Grants n ! j))) \<longleftrightarrow>
        (\<exists>g\<in>set (pb_Grants n). gr_ID g \<in> chosen n m \<and> x \<in> set (gr_Permissions g))" for x
      using chosen_grant [OF n, of _ m] by (metis in_set_conv_nth)
    then show ?thesis by auto
  qed
  finally show ?thesis using granted_members [of no_permissions 0 "cp_grants cp" m] gs len by simp
qed

section \<open>Effective permissions\<close>

lemma effective_known:
  assumes "normal_problem n"
  shows "effective n G \<subseteq> pm_ID ` set (pb_Permissions n)"
proof
  fix x assume "x \<in> effective n G"
  then show "x \<in> pm_ID ` set (pb_Permissions n)"
    using assms by induction (auto simp: normal_problem_def list_all_iff known_def)
qed

definition closed_permissions :: "compiled_problem \<Rightarrow> uint64 \<Rightarrow> permission_set" where
  "closed_permissions cp m = close_rules (cp_rules cp) (granted_permissions m 0 (cp_grants cp) no_permissions)"

lemma rule_members_numbers:
  assumes "compiled cp n"
  shows "closed_under (rule_members (cp_rules cp)) X \<longleftrightarrow>
    (\<forall>r\<in>set (pb_Implications n). numbers n (set (im_AllOf r)) \<subseteq> X \<longrightarrow> numbers n (set (im_Then r)) \<subseteq> X)"
proof -
  have n: "normal_problem n"
    and rs: "cp_rules cp = map (\<lambda>r. (to_set (permission_index (pb_Permissions n)) (im_AllOf r),
       to_set (permission_index (pb_Permissions n)) (im_Then r))) (pb_Implications n)"
    using assms by (simp_all add: compiled_def)
  have "known n (im_AllOf r)" "known n (im_Then r)" if "r \<in> set (pb_Implications n)" for r
    using n that by (auto simp: normal_problem_def list_all_iff)
  then have "members (to_set (permission_index (pb_Permissions n)) (im_AllOf r)) = numbers n (set (im_AllOf r))"
    "members (to_set (permission_index (pb_Permissions n)) (im_Then r)) = numbers n (set (im_Then r))"
    if "r \<in> set (pb_Implications n)" for r
    using that to_set_numbers(2) [OF n] by auto
  then show ?thesis by (simp add: closed_under_def rs)
qed

lemma closed_permissions_numbers:
  assumes cp: "compiled cp n"
  shows "wf_set (closed_permissions cp m)" and "members (closed_permissions cp m) = numbers n (effective n (chosen n m))"
proof -
  let ?E = "effective n (chosen n m)" and ?M = "members (closed_permissions cp m)"
  let ?D = "{x. \<exists>g\<in>set (pb_Grants n). gr_ID g \<in> chosen n m \<and> x \<in> set (gr_Permissions g)}"
  have n: "normal_problem n" using cp by (simp add: compiled_def)
  note start = granted_numbers [OF cp, of m]
  note least = close_rules_least [OF conjunct1 [OF start], of "cp_rules cp", folded closed_permissions_def]
  show "wf_set (closed_permissions cp m)" using least by simp
  have sub: "numbers n ?D \<subseteq> ?M" using least start by simp
  have cl: "numbers n (set (im_Then r)) \<subseteq> ?M" if "r \<in> set (pb_Implications n)" "numbers n (set (im_AllOf r)) \<subseteq> ?M" for r
    using least rule_members_numbers [OF cp, of ?M] that by simp
  have "numbers n {x} \<subseteq> ?M" if "x \<in> ?E" for x
    using that
  proof induction
    case (eff_grant g x)
    then show ?case using sub numbers_mono [of "{x}" ?D n] by blast
  next
    case (eff_rule r y)
    have "numbers n (set (im_AllOf r)) \<subseteq> ?M" using eff_rule.IH by (auto simp: numbers_def)
    from cl [OF eff_rule.hyps(1) this] eff_rule.hyps show ?case using numbers_mono [of "{y}" "set (im_Then r)" n] by auto
  qed
  then have "numbers n ?E \<subseteq> ?M" by (auto simp: numbers_def)
  moreover have "?M \<subseteq> numbers n ?E"
  proof -
    have "numbers n ?D \<subseteq> numbers n ?E" by (rule numbers_mono) (auto intro: effective.eff_grant)
    moreover have "numbers n (set (im_Then r)) \<subseteq> numbers n ?E"
      if r: "r \<in> set (pb_Implications n)" "numbers n (set (im_AllOf r)) \<subseteq> numbers n ?E" for r
    proof -
      have "known n (im_AllOf r)" using n r(1) by (auto simp: normal_problem_def list_all_iff)
      then have "set (im_AllOf r) \<subseteq> ?E" using numbers_subset r(2) by (simp add: known_def)
      then have "set (im_Then r) \<subseteq> ?E" using r(1) by (auto intro: effective.eff_rule)
      then show ?thesis by (rule numbers_mono)
    qed
    ultimately show ?thesis using least start rule_members_numbers [OF cp, of "numbers n ?E"] by simp
  qed
  ultimately show "?M = numbers n ?E" by simp
qed

section \<open>Feasibility, cost and names\<close>

lemma selection_cost_sum:
  assumes "\<And>j. j < length ps \<Longrightarrow> has_permission s (i + j) \<longleftrightarrow> pm_ID (ps ! j) \<in> E"
    and "(\<Sum>q\<leftarrow>ps. unat (pm_Cost q)) < 2 ^ 64"
  shows "unat (selection_cost s i ps) = (\<Sum>q\<leftarrow>ps. if pm_ID q \<in> E then unat (pm_Cost q) else 0)"
  using assms
proof (induction ps arbitrary: i)
  case (Cons p ps)
  let ?sum = "\<Sum>q\<leftarrow>ps. if pm_ID q \<in> E then unat (pm_Cost q) else 0"
  have le: "?sum \<le> (\<Sum>q\<leftarrow>ps. unat (pm_Cost q))" by (rule sum_list_mono) simp
  have h: "has_permission s i \<longleftrightarrow> pm_ID p \<in> E" using Cons.prems(1) [of 0] by simp
  have ih: "unat (selection_cost s (Suc i) ps) = ?sum"
  proof (rule Cons.IH)
    show "has_permission s (Suc i + j) \<longleftrightarrow> pm_ID (ps ! j) \<in> E" if "j < length ps" for j
      using Cons.prems(1) [of "Suc j"] that by simp
    show "(\<Sum>q\<leftarrow>ps. unat (pm_Cost q)) < 2 ^ 64" using Cons.prems(2) by simp
  qed
  have "unat (pm_Cost p) + unat (selection_cost s (Suc i) ps) < 2 ^ 64" using ih le Cons.prems(2) by simp
  then have "unat (pm_Cost p + selection_cost s (Suc i) ps) = unat (pm_Cost p) + ?sum"
    using ih by (simp add: unat_word_ariths)
  then show ?case using h ih by simp
qed simp

lemma pick_ids_filter:
  assumes "\<And>j. j < length xs \<Longrightarrow> P (i + j) \<longleftrightarrow> xs ! j \<in> E"
  shows "pick_ids P i xs = filter (\<lambda>x. x \<in> E) xs"
  using assms
proof (induction xs arbitrary: i)
  case (Cons x xs)
  have "pick_ids P (Suc i) xs = filter (\<lambda>x. x \<in> E) xs"
    by (rule Cons.IH) (use Cons.prems [of "Suc _"] in simp)
  then show ?case using Cons.prems [of 0] by simp
qed simp

lemma closed_permissions_has:
  assumes cp: "compiled cp n" and j: "j < length (pb_Permissions n)"
  shows "has_permission (closed_permissions cp m) j \<longleftrightarrow> pm_ID (pb_Permissions n ! j) \<in> effective n (chosen n m)"
proof -
  have "j < 256" using cp j by (simp add: compiled_def normal_problem_def)
  then show ?thesis using has_permission_iff closed_permissions_numbers(2) [OF cp, of m] j by (simp add: numbers_def)
qed

text \<open>What \<^verbatim>\<open>evaluate\<close> returns for a mask.\<close>

lemma evaluate_correct:
  assumes cp: "compiled cp n" and e: "evaluate cp m = (s, c, ok)"
  shows "s = closed_permissions cp m" and "ok \<longleftrightarrow> feasible n (effective n (chosen n m))"
    and "ok \<Longrightarrow> unat c = total_cost n (effective n (chosen n m))"
proof -
  let ?E = "effective n (chosen n m)" and ?s = "closed_permissions cp m"
  have n: "normal_problem n" and f: "cp_required cp = to_set (permission_index (pb_Permissions n)) (pb_Required n)"
      "cp_allowed cp = to_set (permission_index (pb_Permissions n)) (pb_Allowed n)"
      "cp_forbidden cp = map (to_set (permission_index (pb_Permissions n))) (pb_ForbiddenTogether n)" "cp_problem cp = n"
    using cp by (simp_all add: compiled_def)
  have k: "known n (pb_Required n)" "known n (pb_Allowed n)" "\<And>g. g \<in> set (pb_ForbiddenTogether n) \<Longrightarrow> known n g"
    using n by (simp_all add: normal_problem_def list_all_iff)
  note s = closed_permissions_numbers [OF cp, of m]
  have inside: "set_contains ?s (to_set (permission_index (pb_Permissions n)) xs) \<longleftrightarrow> set xs \<subseteq> ?E" if "known n xs" for xs
    using set_contains_iff [OF s(1)] to_set_numbers(2) [OF n that] s(2) numbers_subset [of "set xs" n ?E] that
    by (simp add: known_def)
  have r: "set_contains ?s (cp_required cp) \<longleftrightarrow> set (pb_Required n) \<subseteq> ?E" using inside [OF k(1)] f(1) by simp
  have a: "set_contains (cp_allowed cp) ?s \<longleftrightarrow> ?E \<subseteq> set (pb_Allowed n)"
    using set_contains_iff to_set_numbers [OF n k(2)] f(2) s(2) numbers_subset [OF effective_known [OF n]] by simp
  have b: "list_ex (set_contains ?s) (cp_forbidden cp) \<longleftrightarrow> (\<exists>g\<in>set (pb_ForbiddenTogether n). set g \<subseteq> ?E)"
    using inside k(3) f(3) by (auto simp: list_ex_iff)
  have ev: "evaluate cp m = (if feasible n ?E then (?s, selection_cost ?s 0 (pb_Permissions n), True) else (?s, 0, False))"
    using r a b f(4) by (auto simp: evaluate_def Let_def closed_permissions_def [symmetric] feasible_def)
  show "s = ?s" "ok \<longleftrightarrow> feasible n ?E" using e ev by (auto split: if_splits)
  assume ok
  then have "c = selection_cost ?s 0 (pb_Permissions n)" using e ev by (auto split: if_splits)
  moreover have "unat (selection_cost ?s 0 (pb_Permissions n)) = (\<Sum>q\<leftarrow>pb_Permissions n. if pm_ID q \<in> ?E then unat (pm_Cost q) else 0)"
    using closed_permissions_has [OF cp, of _ m] n by (intro selection_cost_sum) (simp_all add: normal_problem_def)
  ultimately show "unat c = total_cost n ?E" by (simp add: total_cost_def)
qed

lemma effective_ids_correct:
  assumes cp: "compiled cp n"
  shows "effective_ids cp (closed_permissions cp m) = filter (\<lambda>x. x \<in> effective n (chosen n m)) (map pm_ID (pb_Permissions n))"
proof -
  have "pick_ids (has_permission (closed_permissions cp m)) 0 (map pm_ID (pb_Permissions n)) =
      filter (\<lambda>x. x \<in> effective n (chosen n m)) (map pm_ID (pb_Permissions n))"
    by (rule pick_ids_filter) (use closed_permissions_has [OF cp] in simp)
  then show ?thesis using cp by (simp add: effective_ids_def compiled_def)
qed

lemma grant_ids_correct:
  assumes cp: "compiled cp n"
  shows "grant_ids cp m = filter (\<lambda>x. x \<in> chosen n m) (map gr_ID (pb_Grants n))"
proof -
  have n: "normal_problem n" "cp_problem cp = n" "length (pb_Grants n) \<le> 64"
    using cp by (simp_all add: compiled_def normal_problem_def)
  have "pick_ids (selected m) 0 (map gr_ID (pb_Grants n)) = filter (\<lambda>x. x \<in> chosen n m) (map gr_ID (pb_Grants n))"
    by (rule pick_ids_filter) (use n chosen_grant [OF n(1)] selected_iff in simp)
  then show ?thesis using n by (simp add: grant_ids_def)
qed

lemma effective_ids_set:
  assumes "compiled cp n"
  shows "set (effective_ids cp (closed_permissions cp m)) = effective n (chosen n m)"
  using effective_known [of n "chosen n m"] assms by (auto simp: effective_ids_correct [OF assms] compiled_def)

lemma grant_ids_set:
  assumes "compiled cp n"
  shows "set (grant_ids cp m) = chosen n m"
  using chosen_names [of n m] by (auto simp: grant_ids_correct [OF assms] grant_names_def)

end
