(* ===== verification/Privilege_Search.thy ===== *)
theory Privilege_Search
  imports Privilege_Evaluate
begin

text \<open>
  The two searches over the selections: the recursion of \<^verbatim>\<open>solver.go\<close> visits every selection once and keeps
  the cheapest, the loop of \<^verbatim>\<open>verifier.go\<close> compares a candidate with every other selection.
\<close>

section \<open>Every selection has a mask\<close>

fun leaves :: "nat \<Rightarrow> nat \<Rightarrow> uint64 \<Rightarrow> uint64 list" where
  "leaves 0 index m = [m]"
| "leaves (Suc k) index m = leaves k (Suc index) m @ leaves k (Suc index) (m OR push_bit index 1)"

lemma length_leaves: "length (leaves k index m) = 2 ^ k"
  by (induction k arbitrary: index m) simp_all

lemma leaves_cover:
  assumes "i + k \<le> 64" and "\<And>j. i \<le> j \<Longrightarrow> \<not> bit m j"
  shows "\<exists>m'\<in>set (leaves k i m). (\<forall>j<i. bit m' j \<longleftrightarrow> bit m j) \<and> (\<forall>j. i \<le> j \<and> j < i + k \<longrightarrow> (bit m' j \<longleftrightarrow> P j))"
  using assms
proof (induction k arbitrary: i m)
  case (Suc k)
  let ?m = "if P i then m OR push_bit i 1 else m"
  have b: "bit ?m j \<longleftrightarrow> (if j = i then P i else bit m j)" if "j < 64" for j
    using Suc.prems that by (auto simp: bit_simps)
  have "\<not> bit ?m j" if "Suc i \<le> j" for j
    using b [of j] that Suc.prems(2) [of j] bit_imp_le_length [of ?m j] by force
  then obtain m' where m': "m' \<in> set (leaves k (Suc i) ?m)" "\<forall>j<Suc i. bit m' j \<longleftrightarrow> bit ?m j"
      "\<forall>j. Suc i \<le> j \<and> j < Suc i + k \<longrightarrow> (bit m' j \<longleftrightarrow> P j)"
    using Suc.IH [of "Suc i" ?m] Suc.prems(1) by auto
  have "m' \<in> set (leaves (Suc k) i m)" using m'(1) by (auto split: if_splits)
  moreover have "bit m' j \<longleftrightarrow> bit m j" if "j < i" for j using m'(2) b [of j] that Suc.prems(1) by simp
  moreover have "bit m' j \<longleftrightarrow> P j" if "i \<le> j" "j < i + Suc k" for j
    using m'(2,3) b [of i] that Suc.prems(1) by (cases "j = i") auto
  ultimately show ?case by blast
qed auto

lemma chosen_cover:
  assumes n: "normal_problem n" and "G \<subseteq> grant_names n"
  shows "\<exists>m\<in>set (leaves (length (pb_Grants n)) 0 0). chosen n m = G"
proof -
  have len: "0 + length (pb_Grants n) \<le> 64" using n by (simp add: normal_problem_def)
  obtain m where m: "m \<in> set (leaves (length (pb_Grants n)) 0 0)"
      "\<forall>j. 0 \<le> j \<and> j < 0 + length (pb_Grants n) \<longrightarrow> (bit m j \<longleftrightarrow> gr_ID (pb_Grants n ! j) \<in> G)"
    using leaves_cover [OF len, of 0 "\<lambda>j. gr_ID (pb_Grants n ! j) \<in> G"] by auto
  have "chosen n m = {gr_ID (pb_Grants n ! j) | j. j < length (pb_Grants n) \<and> gr_ID (pb_Grants n ! j) \<in> G}"
    using m(2) by (auto simp: chosen_def)
  also have "\<dots> = G"
  proof -
    have "\<exists>j<length (pb_Grants n). gr_ID (pb_Grants n ! j) = x" if "x \<in> G" for x
      using assms(2) that unfolding grant_names_def by (metis imageE in_set_conv_nth subsetD)
    then show ?thesis by blast
  qed
  finally show ?thesis using m(1) by blast
qed

lemma chosen_take_bit: "chosen n (take_bit (length (pb_Grants n)) m) = chosen n m"
  by (auto simp: chosen_def bit_take_bit_iff)

section \<open>The solver\<close>

definition mask_feasible :: "problem \<Rightarrow> uint64 \<Rightarrow> bool" where
  "mask_feasible n m \<longleftrightarrow> feasible n (effective n (chosen n m))"

definition mask_cost :: "problem \<Rightarrow> uint64 \<Rightarrow> nat" where
  "mask_cost n m = total_cost n (effective n (chosen n m))"

text \<open>The state of the search after the selections \<open>seen\<close>.\<close>

definition searched :: "compiled_problem \<Rightarrow> problem \<Rightarrow> uint64 list \<Rightarrow> search \<Rightarrow> bool" where
  "searched cp n seen st \<longleftrightarrow> unat (se_evaluations st) = length seen \<and>
     (se_found st \<longleftrightarrow> (\<exists>m\<in>set seen. mask_feasible n m)) \<and>
     (se_found st \<longrightarrow> se_mask st \<in> set seen \<and> mask_feasible n (se_mask st) \<and>
        unat (se_cost st) = mask_cost n (se_mask st) \<and> se_effective st = closed_permissions cp (se_mask st) \<and>
        (\<forall>m\<in>set seen. mask_feasible n m \<longrightarrow> mask_cost n (se_mask st) \<le> mask_cost n m))"

lemma searched_start: "searched cp n [] start_search"
  by (simp add: searched_def start_search_def)

lemma visit_leaf_searched:
  assumes cp: "compiled cp n" and st: "searched cp n seen st"
  shows "if length seen < unat budget then \<exists>st'. visit_leaf cp budget m st = Inr st' \<and> searched cp n (seen @ [m]) st'
    else visit_leaf cp budget m st = Inl ErrLimit"
proof -
  obtain s c ok where e: "evaluate cp m = (s, c, ok)" by (cases "evaluate cp m")
  note ev = evaluate_correct [OF cp e]
  have lim: "se_evaluations st \<ge> budget \<longleftrightarrow> \<not> length seen < unat budget"
    using st by (auto simp: searched_def word_le_nat_alt)
  show ?thesis
  proof (cases "length seen < unat budget")
    case True
    have "unat (se_evaluations st) + 1 < 2 ^ LENGTH(64)"
      using True st unsigned_less [of budget, where ?'a = nat] by (simp add: searched_def)
    then have count: "unat (se_evaluations st + 1) = length seen + 1" using st by (simp add: unat_word_ariths searched_def)
    have less: "c < se_cost st \<longleftrightarrow> unat c < unat (se_cost st)" by (simp add: word_less_nat_alt)
    show ?thesis
    proof (cases "ok \<and> (\<not> se_found st \<or> c < se_cost st)")
      case True
      then have "mask_feasible n m" "unat c = mask_cost n m" using ev by (simp_all add: mask_feasible_def mask_cost_def)
      then show ?thesis
        using True \<open>length seen < unat budget\<close> lim e st ev(1) count less
        by (fastforce simp: visit_leaf_def Let_def searched_def)
    next
      case False
      have "mask_feasible n m \<longleftrightarrow> ok" "ok \<Longrightarrow> unat c = mask_cost n m" using ev by (simp_all add: mask_feasible_def mask_cost_def)
      then show ?thesis
        using False \<open>length seen < unat budget\<close> lim e st count less
        by (auto simp: visit_leaf_def Let_def searched_def)
    qed
  qed (simp add: visit_leaf_def lim)
qed

lemma visit_searched:
  assumes cp: "compiled cp n" and st: "searched cp n seen st"
  shows "if length seen + 2 ^ k \<le> unat budget
    then \<exists>st'. visit cp budget k i m st = Inr st' \<and> searched cp n (seen @ leaves k i m) st'
    else visit cp budget k i m st = Inl ErrLimit"
  using st
proof (induction k arbitrary: i m st seen)
  case 0
  show ?case using visit_leaf_searched [OF cp 0, of budget m] by (simp split: if_splits)
next
  case (Suc k)
  note first = Suc.IH [OF Suc.prems, of "Suc i" m]
  show ?case
  proof (cases "length seen + 2 ^ k \<le> unat budget")
    case True
    then obtain st' where s: "visit cp budget k (Suc i) m st = Inr st'" "searched cp n (seen @ leaves k (Suc i) m) st'"
      using first by auto
    from Suc.IH [OF s(2), of "Suc i" "m OR push_bit i 1"] s(1) show ?thesis
      by (simp add: length_leaves and_then_def mult_2 add.assoc cong: if_cong)
  next
    case False
    then show ?thesis using first by (simp add: and_then_def)
  qed
qed

lemma admissible_mask:
  assumes "normal_problem n"
  shows "(\<exists>m\<in>set (leaves (length (pb_Grants n)) 0 0). mask_feasible n m) \<longleftrightarrow> (\<exists>G. admissible n G)"
  using chosen_cover [OF assms] chosen_names [of n] unfolding mask_feasible_def admissible_def by metis

lemma optimal_mask:
  assumes "normal_problem n" and "mask_feasible n m"
    and min: "\<forall>m'\<in>set (leaves (length (pb_Grants n)) 0 0). mask_feasible n m' \<longrightarrow> mask_cost n m \<le> mask_cost n m'"
  shows "optimal n (chosen n m)"
proof -
  have "total_cost n (effective n (chosen n m)) \<le> total_cost n (effective n G)" if G: "admissible n G" for G
  proof -
    obtain m' where "m' \<in> set (leaves (length (pb_Grants n)) 0 0)" "chosen n m' = G"
      using chosen_cover [OF assms(1)] G unfolding admissible_def by metis
    then show ?thesis using min G by (auto simp: mask_feasible_def mask_cost_def admissible_def)
  qed
  then show ?thesis using assms(2) chosen_names [of n m] by (simp add: optimal_def admissible_def mask_feasible_def)
qed

text \<open>The outcome of \<^verbatim>\<open>Solve\<close> on a valid problem, in terms of the specification.\<close>

lemma solve_outcome:
  assumes cp: "compile_problem marshal p = Inr cp"
  shows "unat budget < 2 ^ length (pb_Grants p) \<Longrightarrow> solve marshal p budget = Inl ErrLimit"
    and "\<not> unat budget < 2 ^ length (pb_Grants p) \<Longrightarrow> \<not> (\<exists>G. admissible p G) \<Longrightarrow> solve marshal p budget = Inl ErrInfeasible"
    and "\<not> unat budget < 2 ^ length (pb_Grants p) \<Longrightarrow> \<exists>G. admissible p G \<Longrightarrow>
      \<exists>m. optimal p (chosen (cp_problem cp) m) \<and> solve marshal p budget =
        Inr \<lparr>sl_Schema = SolutionSchemaV1, sl_ProblemDigest = cp_digest cp, sl_Grants = grant_ids cp m,
          sl_Effective = effective_ids cp (closed_permissions cp m),
          sl_Cost = of_nat (total_cost p (effective p (chosen (cp_problem cp) m)))\<rparr>"
proof -
  obtain n where nn: "normalize_problem p = Inr n" and c: "compiled cp n" and same: "same_problem p n"
    by (rule compile_problem_compiled [OF cp])
  have n: "normal_problem n" "cp_problem cp = n" "length (cp_grants cp) = length (pb_Grants n)"
    and len: "length (pb_Grants n) = length (pb_Grants p)"
    using c normalize_problem_ok(3) [OF nn] by (simp_all add: compiled_def)
  note spec = same_problem_spec [OF same]
  let ?L = "leaves (length (pb_Grants n)) 0 0"
  note v = visit_searched [OF c searched_start, of "length (pb_Grants n)" budget 0 0]
  have z: "budget = 0 \<Longrightarrow> unat budget < 2 ^ length (pb_Grants p)" by simp
  { assume "unat budget < 2 ^ length (pb_Grants p)"
    then show "solve marshal p budget = Inl ErrLimit"
      using v cp n(3) len by (simp add: solve_def) }
  { assume b: "\<not> unat budget < 2 ^ length (pb_Grants p)"
    then obtain st where st: "visit cp budget (length (cp_grants cp)) 0 0 start_search = Inr st" "searched cp n ?L st"
      using v n(3) len by auto
    have found: "se_found st \<longleftrightarrow> (\<exists>G. admissible p G)"
      using st(2) admissible_mask [OF n(1)] spec(5) by (simp add: searched_def)
    have b0: "budget \<noteq> 0" using b z by blast
    { assume "\<not> (\<exists>G. admissible p G)"
      then show "solve marshal p budget = Inl ErrInfeasible"
        using st(1) b0 cp found by (simp add: solve_def) }
    { assume adm: "\<exists>G. admissible p G"
      let ?m = "se_mask st"
      have m: "mask_feasible n ?m" "unat (se_cost st) = mask_cost n ?m" "se_effective st = closed_permissions cp ?m"
          "\<forall>m\<in>set ?L. mask_feasible n m \<longrightarrow> mask_cost n ?m \<le> mask_cost n m"
        using st(2) found adm by (simp_all add: searched_def)
      have "optimal p (chosen (cp_problem cp) ?m)" using optimal_mask [OF n(1) m(1) m(4)] spec(6) n(2) by simp
      moreover have "se_cost st = of_nat (total_cost p (effective p (chosen (cp_problem cp) ?m)))"
        using m(2) spec(1,3) n(2) by (metis mask_cost_def of_nat_unat ucast_id)
      ultimately show "\<exists>m. optimal p (chosen (cp_problem cp) m) \<and> solve marshal p budget =
        Inr \<lparr>sl_Schema = SolutionSchemaV1, sl_ProblemDigest = cp_digest cp, sl_Grants = grant_ids cp m,
          sl_Effective = effective_ids cp (closed_permissions cp m),
          sl_Cost = of_nat (total_cost p (effective p (chosen (cp_problem cp) m)))\<rparr>"
        using st(1) b0 cp found adm m(3) by (intro exI [of _ ?m]) (simp add: solve_def) } }
qed

section \<open>The verifier\<close>

lemma candidate_mask_chosen:
  assumes cp: "compiled cp n" and "\<forall>j. bit m j \<longrightarrow> j < length (pb_Grants n)"
  shows "(\<exists>m'. candidate_mask (grant_index cp) m xs = Inr m') \<longleftrightarrow>
      distinct xs \<and> set xs \<subseteq> grant_names n \<and> set xs \<inter> chosen n m = {}"
    and "candidate_mask (grant_index cp) m xs = Inr m' \<Longrightarrow>
      chosen n m' = chosen n m \<union> set xs \<and> (\<forall>j. bit m' j \<longrightarrow> j < length (pb_Grants n))"
proof -
  have n: "normal_problem n" "cp_problem cp = n" "length (pb_Grants n) \<le> 64" "distinct (map gr_ID (pb_Grants n))"
    using cp by (simp_all add: compiled_def normal_problem_def)
  have some: "grant_index cp x = Some i \<longleftrightarrow> i < length (pb_Grants n) \<and> gr_ID (pb_Grants n ! i) = x" for x i
    using position_Some [OF n(4), of x i] n(2) by (auto simp: grant_index_def)
  have none: "grant_index cp x = None \<longleftrightarrow> x \<notin> grant_names n" for x
    using position_None [of "map gr_ID (pb_Grants n)" x] n(2) by (simp add: grant_index_def grant_names_def)
  have valid: "valid_id x" if "x \<in> grant_names n" for x
    using n(1) that by (auto simp: grant_names_def normal_problem_def list_all_iff)
  have "((\<exists>m'. candidate_mask (grant_index cp) m xs = Inr m') \<longleftrightarrow>
      distinct xs \<and> set xs \<subseteq> grant_names n \<and> set xs \<inter> chosen n m = {}) \<and>
      (\<forall>m'. candidate_mask (grant_index cp) m xs = Inr m' \<longrightarrow>
        chosen n m' = chosen n m \<union> set xs \<and> (\<forall>j. bit m' j \<longrightarrow> j < length (pb_Grants n)))"
    using assms(2)
  proof (induction xs arbitrary: m)
    case (Cons x xs)
    show ?case
    proof (cases "x \<in> grant_names n")
      case True
      then obtain i where i: "grant_index cp x = Some i" using none by blast
      with some have ii: "i < length (pb_Grants n)" "gr_ID (pb_Grants n ! i) = x" by simp_all
      have sel: "selected m i \<longleftrightarrow> x \<in> chosen n m" using chosen_grant [OF n(1) ii(1), of m] ii(2) selected_iff [of i m] ii(1) n(3) by simp
      let ?m = "m OR push_bit i 1"
      have bits: "bit ?m j \<longleftrightarrow> bit m j \<or> j = i" for j
        using ii(1) n(3) by (auto simp: bit_simps)
      then have lt: "\<forall>j. bit ?m j \<longrightarrow> j < length (pb_Grants n)" using Cons.prems ii(1) by auto
      have ch: "chosen n ?m = insert x (chosen n m)" using ii unfolding chosen_def bits by blast
      show ?thesis using Cons.IH [OF lt] True valid i sel ch by auto
    next
      case False
      then have "grant_index cp x = None" using none by simp
      with False show ?thesis by simp
    qed
  qed simp
  then show "(\<exists>m'. candidate_mask (grant_index cp) m xs = Inr m') \<longleftrightarrow>
      distinct xs \<and> set xs \<subseteq> grant_names n \<and> set xs \<inter> chosen n m = {}"
    and "candidate_mask (grant_index cp) m xs = Inr m' \<Longrightarrow>
      chosen n m' = chosen n m \<union> set xs \<and> (\<forall>j. bit m' j \<longrightarrow> j < length (pb_Grants n))" by blast+
qed

fun masks :: "nat \<Rightarrow> uint64 \<Rightarrow> uint64 list" where
  "masks 0 m = []"
| "masks (Suc k) m = m # masks k (m + 1)"

lemma masks_set:
  assumes "unat m + k \<le> 2 ^ 64"
  shows "set (masks k m) = {x. unat m \<le> unat x \<and> unat x < unat m + k} \<and> distinct (masks k m) \<and> length (masks k m) = k"
  using assms
proof (induction k arbitrary: m)
  case (Suc k)
  show ?case
  proof (cases "k = 0")
    case True
    moreover have "{x. unat m \<le> unat x \<and> unat x < unat m + 1} = {m}" by (auto simp: word_unat_eq_iff)
    ultimately show ?thesis by simp
  next
    case False
    then have u: "unat (m + 1) = unat m + 1" using Suc.prems by (simp add: unat_word_ariths)
    then have ih: "set (masks k (m + 1)) = {x. unat m + 1 \<le> unat x \<and> unat x < unat m + 1 + k}"
      "distinct (masks k (m + 1))" "length (masks k (m + 1)) = k"
      using Suc.IH [of "m + 1"] Suc.prems by simp_all
    have "x = m \<longleftrightarrow> unat x = unat m" for x by (simp add: word_unat_eq_iff)
    then show ?thesis using ih by auto
  qed
qed simp

lemma alternatives_Inr:
  assumes cp: "compiled cp n" and "unat ev \<le> unat budget" and "unat cost = c0"
  shows "alternatives cp budget cand cost k m ev = Inr () \<longleftrightarrow>
    (\<forall>x\<in>set (masks k m). x \<noteq> cand \<longrightarrow> mask_feasible n x \<longrightarrow> c0 \<le> mask_cost n x) \<and>
    unat ev + length (filter (\<lambda>x. x \<noteq> cand) (masks k m)) \<le> unat budget"
  using assms(2)
proof (induction k arbitrary: m ev)
  case (Suc k)
  show ?case
  proof (cases "m = cand")
    case True
    then show ?thesis using Suc.IH [OF Suc.prems, of "m + 1"] by auto
  next
    case False
    obtain s c ok where e: "evaluate cp m = (s, c, ok)" by (cases "evaluate cp m")
    note ev = evaluate_correct [OF cp e]
    have worse: "ok \<and> c < cost \<longleftrightarrow> mask_feasible n m \<and> \<not> c0 \<le> mask_cost n m"
      using ev(2,3) assms(3) by (auto simp: mask_feasible_def mask_cost_def word_less_nat_alt)
    show ?thesis
    proof (cases "ev \<ge> budget")
      case True
      then show ?thesis using False by (simp add: word_le_nat_alt)
    next
      case False': False
      then have lt: "unat ev < unat budget" by (simp add: word_le_nat_alt)
      then have "unat ev + 1 < 2 ^ LENGTH(64)" using unsigned_less [of budget, where ?'a = nat] by simp
      then have u: "unat (ev + 1) = unat ev + 1" by (simp add: unat_word_ariths)
      have "alternatives cp budget cand cost (Suc k) m ev = Inr () \<longleftrightarrow>
          \<not> (ok \<and> c < cost) \<and> alternatives cp budget cand cost k (m + 1) (ev + 1) = Inr ()"
        using False False' e by auto
      then show ?thesis using Suc.IH [of "ev + 1" "m + 1"] lt u worse False by auto
    qed
  qed
qed simp

lemma mask_bound: "(\<forall>j. bit m j \<longrightarrow> j < l) \<longleftrightarrow> unat m < 2 ^ l" for m :: uint64
proof -
  have "unat m < 2 ^ l \<longleftrightarrow> take_bit l (unat m) = unat m" by (simp add: take_bit_nat_eq_self_iff)
  also have "\<dots> \<longleftrightarrow> take_bit l m = m" by (simp add: unsigned_take_bit_eq [symmetric] word_unat_eq_iff)
  also have "\<dots> \<longleftrightarrow> (\<forall>j. bit m j \<longrightarrow> j < l)" using bit_imp_le_length [of m] by (auto simp: bit_eq_iff bit_take_bit_iff)
  finally show ?thesis by simp
qed

lemma optimal_masks:
  assumes n: "normal_problem n" and m: "mask_feasible n m"
  shows "(\<forall>x. unat x < 2 ^ length (pb_Grants n) \<longrightarrow> mask_feasible n x \<longrightarrow> mask_cost n m \<le> mask_cost n x) \<longleftrightarrow>
    optimal n (chosen n m)"
proof
  assume all: "\<forall>x. unat x < 2 ^ length (pb_Grants n) \<longrightarrow> mask_feasible n x \<longrightarrow> mask_cost n m \<le> mask_cost n x"
  have "mask_cost n m \<le> mask_cost n x" if "mask_feasible n x" for x
  proof -
    let ?x = "take_bit (length (pb_Grants n)) x"
    have "unat ?x < 2 ^ length (pb_Grants n)" unfolding mask_bound [symmetric] by (simp add: bit_take_bit_iff)
    moreover have "mask_feasible n ?x" "mask_cost n ?x = mask_cost n x"
      using that chosen_take_bit [of n x] by (simp_all add: mask_feasible_def mask_cost_def)
    ultimately show ?thesis using all by metis
  qed
  then show "optimal n (chosen n m)" by (intro optimal_mask [OF n m]) simp
next
  assume "optimal n (chosen n m)"
  then show "\<forall>x. unat x < 2 ^ length (pb_Grants n) \<longrightarrow> mask_feasible n x \<longrightarrow> mask_cost n m \<le> mask_cost n x"
    using chosen_names [of n] by (auto simp: optimal_def admissible_def mask_feasible_def mask_cost_def)
qed

text \<open>The loop over the other selections accepts exactly the optimal candidates, given one evaluation per selection.\<close>

lemma alternatives_optimal:
  assumes cp: "compiled cp n" and m: "\<forall>j. bit m j \<longrightarrow> j < length (pb_Grants n)" "mask_feasible n m"
    and c: "unat cost = mask_cost n m" and b: "budget \<noteq> 0"
  shows "alternatives cp budget m cost (2 ^ length (cp_grants cp)) 0 1 = Inr () \<longleftrightarrow>
    2 ^ length (pb_Grants n) \<le> unat budget \<and> optimal n (chosen n m)"
proof -
  let ?N = "2 ^ length (pb_Grants n) :: nat"
  have n: "normal_problem n" "length (cp_grants cp) = length (pb_Grants n)" "length (pb_Grants n) \<le> 20"
    using cp by (simp_all add: compiled_def normal_problem_def)
  have "?N \<le> 2 ^ 64" by (rule power_increasing) (use n(3) in simp_all)
  then have ms: "set (masks ?N 0) = {x. unat x < ?N}" "distinct (masks ?N 0)" "length (masks ?N 0) = ?N"
    using masks_set [of 0 ?N] by simp_all
  have "m \<in> set (masks ?N 0)" using m(1) ms(1) by (simp add: mask_bound)
  then have "length (removeAll m (masks ?N 0)) = ?N - 1"
    using ms(2,3) by (simp add: distinct_remove1_removeAll [symmetric] length_remove1)
  moreover have "removeAll m (masks ?N 0) = filter (\<lambda>x. x \<noteq> m) (masks ?N 0)"
    by (simp add: removeAll_filter_not_eq neq_commute)
  ultimately have len: "length (filter (\<lambda>x. x \<noteq> m) (masks ?N 0)) = ?N - 1" by simp
  have one: "unat (1 :: uint64) \<le> unat budget" using b by (metis One_nat_def Suc_leI unat_1 unat_gt_0)
  have pos: "unat (1 :: uint64) + (?N - 1) = ?N" by simp
  have "(\<forall>x\<in>set (masks ?N 0). x \<noteq> m \<longrightarrow> mask_feasible n x \<longrightarrow> mask_cost n m \<le> mask_cost n x) \<longleftrightarrow> optimal n (chosen n m)"
    unfolding optimal_masks [OF n(1) m(2), symmetric] ms(1) by (metis (no_types, lifting) mem_Collect_eq order_refl)
  then show ?thesis
    using alternatives_Inr [OF cp one c, of m ?N 0] unfolding n(2) len pos by blast
qed

end
