(* ===== verification/Privilege_Properties.thy ===== *)
theory Privilege_Properties
  imports Privilege_Search
begin

text \<open>
  The properties of \<^verbatim>\<open>pkg/leastprivilege\<close>'s solver and verifier, stated over the specification of
  \<open>Privilege_Spec\<close>. A selection is \<open>admissible\<close> when the permissions it makes effective satisfy the problem's
  constraints, and \<open>optimal\<close> when none of the admissible ones costs less.
\<close>

section \<open>Outcomes\<close>

definition valid_problem :: "(problem \<Rightarrow> bytes option) \<Rightarrow> problem \<Rightarrow> bool" where
  "valid_problem marshal p \<longleftrightarrow> (\<exists>d. digest_problem marshal p = Inr d)"

lemma valid_problem_compile: "valid_problem marshal p \<longleftrightarrow> (\<exists>cp. compile_problem marshal p = Inr cp)"
  by (auto simp: valid_problem_def digest_problem_def and_then_Inr_iff)

lemma compile_problem_error: "compile_problem marshal p = Inl e \<Longrightarrow> e = ErrInvalidProblem"
proof -
  have r: "refs index ids = Inl e \<Longrightarrow> e = ErrInvalidProblem" for index ids e
    by (auto simp: refs_def Let_def split: if_splits)
  have ra: "refs_all index xs = Inl e \<Longrightarrow> e = ErrInvalidProblem" for index xs e
    by (induction xs) (auto simp: and_then_def split: sum.splits dest: r)
  have g: "check_grants index seen gs = Inl e \<Longrightarrow> e = ErrInvalidProblem" for index seen gs e
    by (induction gs arbitrary: seen) (auto simp: and_then_def split: sum.splits if_splits dest: r)
  have i: "check_implications index rs = Inl e \<Longrightarrow> e = ErrInvalidProblem" for index rs e
    by (induction rs) (auto simp: and_then_def split: sum.splits if_splits dest: r)
  have n: "normalize_problem p = Inl e \<Longrightarrow> e = ErrInvalidProblem" for e
    by (auto simp: normalize_problem_def and_then_def Let_def split: sum.splits if_splits dest: r ra g i)
  assume "compile_problem marshal p = Inl e"
  then show ?thesis by (auto simp: compile_problem_def and_then_def Let_def split: sum.splits option.splits dest: n)
qed

lemma sort_eq_filter:
  assumes "sorted xs" and "distinct xs" and "E \<subseteq> set xs"
  shows "sort ys = filter (\<lambda>x. x \<in> E) xs \<longleftrightarrow> distinct ys \<and> set ys = E"
proof
  assume "sort ys = filter (\<lambda>x. x \<in> E) xs"
  then have "distinct (sort ys)" "set (sort ys) = E" using assms by auto
  then show "distinct ys \<and> set ys = E" by simp
next
  assume "distinct ys \<and> set ys = E"
  then show "sort ys = filter (\<lambda>x. x \<in> E) xs"
    using assms by (intro sorted_distinct_set_unique) (auto simp: sorted_wrt_filter)
qed

lemma distinct_length_le: "distinct xs \<Longrightarrow> set xs \<subseteq> set ys \<Longrightarrow> length xs \<le> length ys"
  by (metis List.finite_set card_length card_mono distinct_card order_trans)

lemma total_cost_bound: "normal_problem n \<Longrightarrow> total_cost n E < 2 ^ 64"
proof -
  have "total_cost n E \<le> (\<Sum>q\<leftarrow>pb_Permissions n. unat (pm_Cost q))"
    unfolding total_cost_def by (rule sum_list_mono) simp
  then show "normal_problem n \<Longrightarrow> total_cost n E < 2 ^ 64" by (simp add: normal_problem_def)
qed

text \<open>What \<^verbatim>\<open>Verify\<close> accepts for a valid problem.\<close>

lemma verify_Inr:
  assumes cp: "compile_problem marshal p = Inr cp"
  shows "verify marshal p sol budget = Inr () \<longleftrightarrow>
    sl_Schema sol = SolutionSchemaV1 \<and> sl_ProblemDigest sol = cp_digest cp \<and> 2 ^ length (pb_Grants p) \<le> unat budget \<and>
    distinct (sl_Grants sol) \<and> optimal p (set (sl_Grants sol)) \<and>
    distinct (sl_Effective sol) \<and> set (sl_Effective sol) = effective p (set (sl_Grants sol)) \<and>
    unat (sl_Cost sol) = total_cost p (effective p (set (sl_Grants sol)))"
    (is "?l \<longleftrightarrow> ?schema \<and> ?digest \<and> ?budget \<and> ?r")
proof -
  obtain n where nn: "normalize_problem p = Inr n" and c: "compiled cp n" and same: "same_problem p n"
    by (rule compile_problem_compiled [OF cp])
  have n: "normal_problem n" "cp_problem cp = n" "length (cp_grants cp) = length (pb_Grants n)"
      "length (pb_Grants n) = length (pb_Grants p)" "sorted (map pm_ID (pb_Permissions n))" "distinct (map pm_ID (pb_Permissions n))"
    using c normalize_problem_ok(3) [OF nn] by (simp_all add: compiled_def normal_problem_def)
  note spec = same_problem_spec [OF same]
  let ?G = "set (sl_Grants sol)"
  let ?E = "effective n ?G"
  have E: "?E \<subseteq> set (map pm_ID (pb_Permissions n))" using effective_known [OF n(1)] by simp
  note cand = candidate_mask_chosen [OF c, of 0 "sl_Grants sol"]
  show ?thesis
  proof (cases "\<exists>m. candidate_mask (grant_index cp) 0 (sl_Grants sol) = Inr m")
    case False
    then have "\<not> (distinct (sl_Grants sol) \<and> ?G \<subseteq> grant_names n)" using cand(1) by (auto simp: chosen_def)
    then have "\<not> ?r" using spec(4,5) by (auto simp: optimal_def admissible_def)
    moreover have "\<not> ?l" using False cp by (auto simp: verify_def and_then_Inr_iff split: if_splits)
    ultimately show ?thesis by blast
  next
    case True
    then obtain m where m: "candidate_mask (grant_index cp) 0 (sl_Grants sol) = Inr m" by blast
    have d: "distinct (sl_Grants sol)" "?G \<subseteq> grant_names n" using True cand(1) by (auto simp: chosen_def)
    have ch: "chosen n m = ?G" "\<forall>j. bit m j \<longrightarrow> j < length (pb_Grants n)" using cand(2) [OF _ m] by (auto simp: chosen_def)
    have lg: "length (sl_Grants sol) \<le> length (cp_grants cp)"
      using distinct_length_le [OF d(1), of "map gr_ID (pb_Grants n)"] d(2) n(3) by (simp add: grant_names_def)
    have le: "length (sl_Effective sol) \<le> length (pb_Permissions n)" if "distinct (sl_Effective sol)" "set (sl_Effective sol) = ?E"
      using distinct_length_le [OF that(1), of "map pm_ID (pb_Permissions n)"] that(2) E by simp
    have va: "list_all valid_id (sl_Effective sol)" if "set (sl_Effective sol) = ?E"
      using E that n(1) by (force simp: list_all_iff normal_problem_def)
    obtain s cost ok where e: "evaluate cp m = (s, cost, ok)" by (cases "evaluate cp m")
    note ev = evaluate_correct [OF c e]
    have ids: "sort (sl_Effective sol) = effective_ids cp s \<longleftrightarrow> distinct (sl_Effective sol) \<and> set (sl_Effective sol) = ?E"
      using effective_ids_correct [OF c, of m] sort_eq_filter [OF n(5,6) E] ev(1) ch(1) by simp
    have ok: "ok \<longleftrightarrow> admissible p ?G" using ev(2) ch(1) d(2) spec(5) by (simp add: admissible_def)
    have co: "cost = sl_Cost sol \<longleftrightarrow> unat (sl_Cost sol) = total_cost p (effective p ?G)" if ok
      using ev(3) [OF that] ch(1) spec(1,3) by (metis word_unat_eq_iff)
    have alt: "alternatives cp budget m cost (2 ^ length (cp_grants cp)) 0 1 = Inr () \<longleftrightarrow>
        2 ^ length (pb_Grants n) \<le> unat budget \<and> optimal n (chosen n m)" if ok "budget \<noteq> 0"
      using alternatives_optimal [OF c ch(2), of cost budget] that ev(2,3) by (simp add: mask_feasible_def mask_cost_def)
    have b0: "budget \<noteq> 0" if "?budget" using that by (metis not_one_le_zero one_le_numeral one_le_power order_trans unat_0)
    have opt: "optimal n ?G \<longleftrightarrow> optimal p ?G" "optimal p ?G \<Longrightarrow> ok" unfolding spec(6) ok spec(5) by (simp_all only: optimal_def)
    have "?l \<longleftrightarrow> budget \<noteq> 0 \<and> ?schema \<and> ?digest \<and> length (sl_Effective sol) \<le> length (pb_Permissions n) \<and>
        ok \<and> cost = sl_Cost sol \<and> list_all valid_id (sl_Effective sol) \<and> sort (sl_Effective sol) = effective_ids cp s \<and>
        alternatives cp budget m cost (2 ^ length (cp_grants cp)) 0 1 = Inr ()"
      using cp m e lg n(2) by (auto simp: verify_def)
    then show ?thesis using alt co ids va le b0 opt d(1) ch(1) n(4) spec(1) by metis
  qed
qed

text \<open>What \<^verbatim>\<open>Solve\<close> returns, and that \<^verbatim>\<open>Verify\<close> accepts it.\<close>

lemma solve_Inr:
  assumes "solve marshal p budget = Inr sol"
  shows "optimal p (set (sl_Grants sol)) \<and> distinct (sl_Grants sol) \<and>
    set (sl_Effective sol) = effective p (set (sl_Grants sol)) \<and>
    unat (sl_Cost sol) = total_cost p (effective p (set (sl_Grants sol))) \<and>
    verify marshal p sol budget = Inr ()"
proof -
  obtain cp where cp: "compile_problem marshal p = Inr cp"
    using assms by (auto simp: solve_def and_then_Inr_iff split: if_splits)
  obtain n where nn: "normalize_problem p = Inr n" and c: "compiled cp n" and same: "same_problem p n"
    by (rule compile_problem_compiled [OF cp])
  have n: "normal_problem n" "cp_problem cp = n" "distinct (map gr_ID (pb_Grants n))" "distinct (map pm_ID (pb_Permissions n))"
    using c by (simp_all add: compiled_def normal_problem_def)
  have b: "\<not> unat budget < 2 ^ length (pb_Grants p)" "\<exists>G. admissible p G"
    using solve_outcome(1,2) [OF cp, of budget] assms by auto
  obtain m where m: "optimal p (chosen n m)" and sol: "sl_Grants sol = grant_ids cp m"
      "sl_Effective sol = effective_ids cp (closed_permissions cp m)" "sl_Schema sol = SolutionSchemaV1"
      "sl_ProblemDigest sol = cp_digest cp" "sl_Cost sol = of_nat (total_cost p (effective p (chosen n m)))"
    using solve_outcome(3) [OF cp b] assms n(2) by auto
  have g: "set (sl_Grants sol) = chosen n m" unfolding sol(1) by (rule grant_ids_set [OF c])
  have e: "set (sl_Effective sol) = effective p (chosen n m)"
    unfolding sol(2) same_problem_spec(1) [OF same] by (rule effective_ids_set [OF c])
  have d: "distinct (sl_Grants sol)" "distinct (sl_Effective sol)"
    unfolding sol(1,2) grant_ids_correct [OF c] effective_ids_correct [OF c] using n(3,4) by simp_all
  have "unat (sl_Cost sol) = total_cost p (effective p (chosen n m))"
    using sol(5) total_cost_bound [OF n(1)] same_problem_spec(3) [OF same] by (simp add: unat_of_nat)
  then show ?thesis using verify_Inr [OF cp, of sol budget] m g e d sol(3,4) b(1) by simp
qed

section \<open>Properties\<close>

text \<open>C2. A solution the solver returns is optimal: its distinct grants make exactly the listed permissions
  effective, these satisfy every constraint of the problem, no other selection that does costs less, the stated
  cost is their sum without overflow, and the independent verifier accepts it under the same budget.\<close>

theorem solve_optimal:
  assumes "solve marshal p budget = Inr sol"
  shows "optimal p (set (sl_Grants sol)) \<and> distinct (sl_Grants sol) \<and>
    set (sl_Effective sol) = effective p (set (sl_Grants sol)) \<and>
    unat (sl_Cost sol) = total_cost p (effective p (set (sl_Grants sol))) \<and>
    verify marshal p sol budget = Inr ()"
  by (rule solve_Inr [OF assms])

text \<open>C18. The solver decides every problem: it returns a solution exactly when the problem is valid, the budget
  allows one evaluation per selection and some selection is admissible; it reports infeasibility exactly when the
  first two hold and none is; and with a smaller budget a valid problem gives the limit error, never a guess.\<close>

theorem solve_decides:
  "((\<exists>sol. solve marshal p budget = Inr sol) \<longleftrightarrow>
      valid_problem marshal p \<and> 2 ^ length (pb_Grants p) \<le> unat budget \<and> (\<exists>G. admissible p G)) \<and>
   (solve marshal p budget = Inl ErrInfeasible \<longleftrightarrow>
      valid_problem marshal p \<and> 2 ^ length (pb_Grants p) \<le> unat budget \<and> \<not> (\<exists>G. admissible p G)) \<and>
   (solve marshal p budget = Inl ErrLimit \<longleftrightarrow>
      budget = 0 \<or> valid_problem marshal p \<and> unat budget < 2 ^ length (pb_Grants p))"
proof (cases "compile_problem marshal p")
  case (Inl e)
  then have "solve marshal p budget = (if budget = 0 then Inl ErrLimit else Inl ErrInvalidProblem)"
    using compile_problem_error [OF Inl] by (simp add: solve_def)
  then show ?thesis using Inl by (simp add: valid_problem_compile)
next
  case (Inr cp)
  note out = solve_outcome [OF Inr, of budget]
  have v: "valid_problem marshal p" using Inr valid_problem_compile by blast
  show ?thesis
  proof (cases "unat budget < 2 ^ length (pb_Grants p)")
    case True
    then show ?thesis using out(1) v by simp
  next
    case False
    moreover have "budget \<noteq> 0" using False by auto
    ultimately show ?thesis using out(2,3) v by (cases "\<exists>G. admissible p G") auto
  qed
qed

text \<open>C14. The verifier accepts a solution exactly when it names the problem's digest and the current schema, lists
  distinct grants that are optimal for the problem and exactly the permissions they make effective, states their
  cost, and the budget allows one evaluation per selection.\<close>

theorem verify_accepts_iff:
  "verify marshal p sol budget = Inr () \<longleftrightarrow>
     digest_problem marshal p = Inr (sl_ProblemDigest sol) \<and> sl_Schema sol = SolutionSchemaV1 \<and>
     2 ^ length (pb_Grants p) \<le> unat budget \<and> distinct (sl_Grants sol) \<and> optimal p (set (sl_Grants sol)) \<and>
     distinct (sl_Effective sol) \<and> set (sl_Effective sol) = effective p (set (sl_Grants sol)) \<and>
     unat (sl_Cost sol) = total_cost p (effective p (set (sl_Grants sol)))"
proof (cases "compile_problem marshal p")
  case (Inl e)
  then show ?thesis by (simp add: verify_def digest_problem_def)
next
  case (Inr cp)
  then have d: "digest_problem marshal p = Inr (sl_ProblemDigest sol) \<longleftrightarrow> sl_ProblemDigest sol = cp_digest cp"
    by (auto simp: digest_problem_def)
  show ?thesis unfolding verify_Inr [OF Inr] d by blast
qed

text \<open>The bit-set evaluation of a mask implements the specification on names: the closed set lists exactly the
  permissions the selected grants make effective under the implications, the mask is feasible exactly when the
  selection is admissible, and the cost is then the exact sum.\<close>

theorem evaluate_refines:
  assumes "compile_problem marshal p = Inr cp" and "evaluate cp m = (s, c, ok)"
  shows "set (effective_ids cp s) = effective p (set (grant_ids cp m)) \<and>
    (ok \<longleftrightarrow> admissible p (set (grant_ids cp m))) \<and>
    (ok \<longrightarrow> unat c = total_cost p (effective p (set (grant_ids cp m))))"
proof -
  obtain n where c: "compiled cp n" and same: "same_problem p n" by (rule compile_problem_compiled [OF assms(1)])
  note spec = same_problem_spec [OF same] and ev = evaluate_correct [OF c assms(2)]
  show ?thesis
    using ev effective_ids_set [OF c, of m] grant_ids_set [OF c, of m] chosen_names [of n m] spec
    by (simp add: admissible_def)
qed

section \<open>An example\<close>

text \<open>Reading and writing a store: the grant \<open>rw\<close> does both, \<open>w\<close> implies reading through a rule.\<close>

definition px_problem :: problem where
  "px_problem = \<lparr>pb_Schema = ProblemSchemaV1,
     pb_Permissions = [\<lparr>pm_ID = ''write'', pm_Cost = 5\<rparr>, \<lparr>pm_ID = ''read'', pm_Cost = 2\<rparr>, \<lparr>pm_ID = ''admin'', pm_Cost = 9\<rparr>],
     pb_Grants = [\<lparr>gr_ID = ''root'', gr_Permissions = [''write'', ''admin'']\<rparr>, \<lparr>gr_ID = ''editor'', gr_Permissions = [''write'']\<rparr>],
     pb_Required = [''read''], pb_Allowed = [''write'', ''read'', ''admin''],
     pb_Implications = [\<lparr>im_AllOf = [''write''], im_Then = [''read'']\<rparr>],
     pb_ForbiddenTogether = []\<rparr>"

definition px_compiled :: compiled_problem where
  "px_compiled = projr (compile_problem (\<lambda>_. Some []) px_problem)"

lemma valid_id_printable:
  assumes "printable v" and "v \<noteq> []" and "length v \<le> MaxIDBytes"
  shows "valid_id v"
  using assms printable_runes [OF assms(1)]
  by (auto simp: valid_id_def valid_utf8_ascii printable_ascii list_all_iff not_space_printable not_control_printable)

lemma px_ids [simp]:
  "valid_id ''read''" "valid_id ''write''" "valid_id ''admin''" "valid_id ''root''" "valid_id ''editor''"
  by (simp_all add: valid_id_printable printable_def in_range_def byte_def MaxIDBytes_def)

lemma px_valid: "\<exists>n. normalize_problem px_problem = Inr n"
  by (simp add: normalize_problem_def px_problem_def permission_index_def refs_def rule_key_def Let_def
      MaxPermissions_def MaxGrants_def MaxImplications_def MaxForbiddenSets_def)

lemma px_compile: "compile_problem (\<lambda>_. Some []) px_problem = Inr px_compiled"
  using px_valid by (auto simp: px_compiled_def compile_problem_def Let_def)

lemma px_admissible: "admissible px_problem {''editor''}"
proof -
  let ?E = "effective px_problem {''editor''}"
  have "''write'' \<in> ?E" by (rule effective.eff_grant [of "\<lparr>gr_ID = ''editor'', gr_Permissions = [''write'']\<rparr>"]) (simp_all add: px_problem_def)
  then have "''read'' \<in> ?E"
    by (intro effective.eff_rule [of "\<lparr>im_AllOf = [''write''], im_Then = [''read'']\<rparr>"]) (simp_all add: px_problem_def)
  moreover have "x \<in> set (pb_Allowed px_problem)" if "x \<in> ?E" for x
    using that by induction (auto simp: px_problem_def)
  ultimately show ?thesis by (auto simp: admissible_def feasible_def grant_names_def px_problem_def)
qed

theorem solve_optimal_witness:
  "\<exists>sol. solve (\<lambda>_. Some []) px_problem 4 = Inr sol \<and> optimal px_problem (set (sl_Grants sol)) \<and> distinct (sl_Grants sol) \<and>
     set (sl_Effective sol) = effective px_problem (set (sl_Grants sol)) \<and>
     unat (sl_Cost sol) = total_cost px_problem (effective px_problem (set (sl_Grants sol))) \<and>
     verify (\<lambda>_. Some []) px_problem sol 4 = Inr ()"
proof -
  have "\<not> unat (4 :: uint64) < 2 ^ length (pb_Grants px_problem)" by (simp add: px_problem_def)
  then obtain sol where s: "solve (\<lambda>_. Some []) px_problem 4 = Inr sol"
    using solve_outcome(3) [OF px_compile] px_admissible by blast
  from solve_optimal [OF s] s show ?thesis by blast
qed

theorem evaluate_refines_witness:
  "\<exists>s c ok. compile_problem (\<lambda>_. Some []) px_problem = Inr px_compiled \<and> evaluate px_compiled 1 = (s, c, ok) \<and>
     set (effective_ids px_compiled s) = effective px_problem (set (grant_ids px_compiled 1)) \<and>
     (ok \<longleftrightarrow> admissible px_problem (set (grant_ids px_compiled 1)))"
proof -
  obtain s c ok where e: "evaluate px_compiled 1 = (s, c, ok)" by (cases "evaluate px_compiled 1")
  from evaluate_refines [OF px_compile e] e px_compile show ?thesis by blast
qed

end
