(* ===== verification/Capability_Properties.thy ===== *)
theory Capability_Properties
  imports Capability_Model Privilege_Properties Runs
begin

text \<open>
  Capabilities: what a capability the authorizer issues is worth, what one accepted by the check binds, and that
  the use store admits a mandate at most once whatever the clock does.
\<close>

section \<open>The use store\<close>

definition wf_uses :: "use_store \<Rightarrow> bool" where
  "wf_uses s \<longleftrightarrow> distinct (map fst (us_used s))"

text \<open>The mandate key \<open>k\<close> is spent for every expiry up to \<open>e\<close>: recorded until then, or below the floor.\<close>

definition spent :: "string \<Rightarrow> gotime \<Rightarrow> use_store \<Rightarrow> bool" where
  "spent k e s \<longleftrightarrow> (\<exists>e'. map_of (us_used s) k = Some e' \<and> instant e \<le> instant e') \<or> instant e \<le> instant (us_prunedUntil s)"

lemma prune_uses_filter: "fst (prune_uses now used fl) = filter (\<lambda>(k, e). before now e) used"
  by (induction now used fl rule: prune_uses.induct) (auto split: prod.splits)

lemma prune_uses_floor:
  "instant fl \<le> instant (snd (prune_uses now used fl)) \<and>
   (\<forall>(k, e)\<in>set used. \<not> before now e \<longrightarrow> instant e \<le> instant (snd (prune_uses now used fl)))"
proof (induction now used fl rule: prune_uses.induct)
  case (2 now k expiry used fl)
  then show ?case
    by (cases "before now expiry"; cases "after expiry fl") (force simp: after_def split: prod.splits)+
qed simp

lemma map_of_filter_key:
  assumes "distinct (map fst xs)"
  shows "map_of (filter (\<lambda>(k, e). P e) xs) k = (case map_of xs k of None \<Rightarrow> None | Some e \<Rightarrow> if P e then Some e else None)"
  using assms
proof (induction xs)
  case (Cons x xs)
  have "map_of xs (fst x) = None" using Cons.prems by (simp add: map_of_eq_None_iff)
  with Cons show ?case by (cases x) auto
qed simp

lemma use_mandate_cases:
  assumes "use_mandate s k e now = (s', res)"
  obtains (same) "s' = s" and "res \<noteq> Inr ()"
  | (pruned) used fl where "prune_uses now (us_used s) (us_prunedUntil s) = (used, fl)" and "res \<noteq> Inr ()"
      and "us_used s' = used" and "us_prunedUntil s' = fl"
  | (used) used fl where "prune_uses now (us_used s) (us_prunedUntil s) = (used, fl)" and "res = Inr ()"
      and "us_used s' = (k, e) # used" and "us_prunedUntil s' = fl" and "map_of used k = None"
      and "\<not> before now (us_prunedUntil s)" and "after e now"
proof -
  obtain used fl where p: "prune_uses now (us_used s) (us_prunedUntil s) = (used, fl)"
    by (cases "prune_uses now (us_used s) (us_prunedUntil s)")
  show ?thesis
    using assms p that(1) that(2) [OF p] that(3) [OF p] by (auto simp: use_mandate_def Let_def split: if_splits)
qed

lemma pruned_spent:
  assumes "wf_uses s" and "spent k e s" and p: "prune_uses now (us_used s) (us_prunedUntil s) = (used, fl)"
  shows "(\<exists>e'. map_of used k = Some e' \<and> instant e \<le> instant e') \<or> instant e \<le> instant fl"
    and "(\<exists>e'. map_of used k = Some e' \<and> instant e \<le> instant e') \<or> instant e \<le> instant (us_prunedUntil s) \<or> instant e \<le> instant now"
proof -
  have u: "map_of used k = (case map_of (us_used s) k of None \<Rightarrow> None | Some e \<Rightarrow> if before now e then Some e else None)"
    using prune_uses_filter [of now "us_used s" "us_prunedUntil s"] p map_of_filter_key [of "us_used s" "before now" k] assms(1)
    by (simp add: wf_uses_def)
  have f: "instant (us_prunedUntil s) \<le> instant fl" "\<And>k e. (k, e) \<in> set (us_used s) \<Longrightarrow> \<not> before now e \<Longrightarrow> instant e \<le> instant fl"
    using prune_uses_floor [of "us_prunedUntil s" now "us_used s"] p by auto
  consider e' where "map_of (us_used s) k = Some e'" "instant e \<le> instant e'" | "instant e \<le> instant (us_prunedUntil s)"
    using assms(2) by (auto simp: spent_def)
  then have "((\<exists>e'. map_of used k = Some e' \<and> instant e \<le> instant e') \<or> instant e \<le> instant fl) \<and>
      ((\<exists>e'. map_of used k = Some e' \<and> instant e \<le> instant e') \<or> instant e \<le> instant (us_prunedUntil s) \<or> instant e \<le> instant now)"
  proof cases
    case 1
    then show ?thesis using u f(2) [OF map_of_SomeD [OF 1(1)]] by (cases "before now e'") (auto simp: before_def)
  qed (use f(1) in auto)
  then show "(\<exists>e'. map_of used k = Some e' \<and> instant e \<le> instant e') \<or> instant e \<le> instant fl"
      "(\<exists>e'. map_of used k = Some e' \<and> instant e \<le> instant e') \<or> instant e \<le> instant (us_prunedUntil s) \<or> instant e \<le> instant now"
    by blast+
qed

lemma use_mandate_wf:
  assumes "wf_uses s" and "use_mandate s k e now = (s', res)"
  shows "wf_uses s'"
  using assms(2)
proof (cases rule: use_mandate_cases)
  case same
  with assms(1) show ?thesis by simp
next
  case (pruned used fl)
  then show ?thesis using assms(1) prune_uses_filter [of now "us_used s" "us_prunedUntil s"]
    by (simp add: wf_uses_def distinct_map_filter)
next
  case (used used fl)
  then show ?thesis using assms(1) prune_uses_filter [of now "us_used s" "us_prunedUntil s"]
    by (simp add: wf_uses_def distinct_map_filter map_of_eq_None_iff)
qed

lemma use_mandate_spent:
  assumes "wf_uses s" and "spent k e s" and "use_mandate s k2 e2 now = (s', res)"
  shows "spent k e s'" and "res = Inr () \<Longrightarrow> k2 = k \<Longrightarrow> instant e < instant e2"
proof -
  from assms(3) have "spent k e s' \<and> (res = Inr () \<longrightarrow> k2 = k \<longrightarrow> instant e < instant e2)"
  proof (cases rule: use_mandate_cases)
    case same
    with assms(2) show ?thesis by simp
  next
    case (pruned used fl)
    with pruned_spent(1) [OF assms(1,2) pruned(1)] show ?thesis by (simp add: spent_def)
  next
    case (used used fl)
    note s = pruned_spent [OF assms(1,2) used(1)]
    show ?thesis
    proof (cases "k2 = k")
      case True
      then have "instant e \<le> instant fl" "instant e \<le> instant (us_prunedUntil s) \<or> instant e \<le> instant now"
        using s used(5) by simp_all
      then show ?thesis using used by (auto simp: spent_def before_def after_def)
    next
      case False
      then show ?thesis using s(1) used by (auto simp: spent_def)
    qed
  qed
  then show "spent k e s'" "res = Inr () \<Longrightarrow> k2 = k \<Longrightarrow> instant e < instant e2" by blast+
qed

text \<open>A call of \<^verbatim>\<open>ConsumeCapability\<close>, whatever it returns.\<close>

type_synonym consume_call = "capability \<times> bytes \<times> mandate \<times> request \<times> gotime"

definition consume_step :: "authority_lib \<Rightarrow> use_store \<Rightarrow> consume_call \<Rightarrow> use_store \<Rightarrow> bool" where
  "consume_step L s call s' \<longleftrightarrow>
     (case call of (cap, key, m, r, now) \<Rightarrow> s' = fst (ConsumeCapability L s cap key m r now))"

lemma consume_use:
  assumes "ConsumeCapability L s cap key m r now = (s', res)"
  shows "s' = s \<and> res \<noteq> Inr () \<or> use_mandate s (''asb.least-privilege/'' @ ma_ID m) (ma_ExpiresAt m) now = (s', res)"
  using assms by (auto simp: ConsumeCapability_def split: sum.splits)

interpretation consume_wf: preserved "consume_step L" wf_uses for L
proof unfold_locales
  fix s call s' assume a: "wf_uses s" "consume_step L s call s'"
  obtain cap key m r now where c: "call = (cap, key, m, r, now)" by (cases call)
  obtain res where "ConsumeCapability L s cap key m r now = (s', res)"
    using a(2) c by (auto simp: consume_step_def intro: that [of "snd (ConsumeCapability L s cap key m r now)"])
  from consume_use [OF this] use_mandate_wf [OF a(1)] a(1) show "wf_uses s'" by blast
qed

interpretation consume_spent: preserved "consume_step L" "\<lambda>s. wf_uses s \<and> spent k e s" for L k e
proof unfold_locales
  fix s call s' assume a: "wf_uses s \<and> spent k e s" "consume_step L s call s'"
  obtain cap key m r now where c: "call = (cap, key, m, r, now)" by (cases call)
  obtain res where "ConsumeCapability L s cap key m r now = (s', res)"
    using a(2) c by (auto simp: consume_step_def intro: that [of "snd (ConsumeCapability L s cap key m r now)"])
  from consume_use [OF this] use_mandate_spent(1) a(1) have "spent k e s'" by blast
  moreover have "wf_uses s'" using consume_wf.step_keeps a by blast
  ultimately show "wf_uses s' \<and> spent k e s'" by blast
qed

lemma consumed_later:
  assumes "wf_uses s1" and "ConsumeCapability L s1 cap1 key1 m1 r1 t1 = (s2, Inr ())"
    and "run (consume_step L) s2 calls s3" and "ConsumeCapability L s3 cap2 key2 m2 r2 t2 = (s4, Inr ())"
    and "ma_ID m2 = ma_ID m1"
  shows "before (ma_ExpiresAt m1) (ma_ExpiresAt m2)"
proof -
  let ?k = "''asb.least-privilege/'' @ ma_ID m1"
  have u: "use_mandate s1 ?k (ma_ExpiresAt m1) t1 = (s2, Inr ())" using consume_use [OF assms(2)] by simp
  then have "spent ?k (ma_ExpiresAt m1) s2" by (cases rule: use_mandate_cases) (simp_all add: spent_def)
  then have s3: "wf_uses s3 \<and> spent ?k (ma_ExpiresAt m1) s3"
    using consume_spent.run_keeps [OF assms(3)] use_mandate_wf [OF assms(1) u] by blast
  have "use_mandate s3 ?k (ma_ExpiresAt m2) t2 = (s4, Inr ())" using consume_use [OF assms(4)] assms(5) by simp
  from use_mandate_spent(2) [OF _ _ this refl refl] s3 show ?thesis by (simp add: before_def)
qed

lemma new_store_wf: "NewMemoryUseStore capacity = Inr s \<Longrightarrow> wf_uses s"
  by (auto simp: NewMemoryUseStore_def wf_uses_def split: if_splits)

text \<open>C7. A mandate is consumed at most once: in any sequence of consume calls on one in-memory store, with any
  capabilities, keys, requests and clock readings (also a clock that runs backwards), two that succeed for the same
  mandate identifier carry different mandates, the later one with a strictly later expiry.\<close>

theorem mandate_consumed_once:
  assumes "NewMemoryUseStore capacity = Inr s0" and "run (consume_step L) s0 calls s1"
    and "ConsumeCapability L s1 cap1 key1 m1 r1 t1 = (s2, Inr ())"
    and "run (consume_step L) s2 calls' s3"
    and "ConsumeCapability L s3 cap2 key2 m2 r2 t2 = (s4, Inr ())"
    and "ma_ID m2 = ma_ID m1"
  shows "before (ma_ExpiresAt m1) (ma_ExpiresAt m2)"
  using consumed_later [OF consume_wf.run_keeps [OF assms(2) new_store_wf [OF assms(1)]] assms(3-6)] .

section \<open>Issued capabilities\<close>

lemma canonical_hex: "length bs = 32 \<Longrightarrow> canonical_digest (sha256_prefix @ hex_encode bs)"
  by (simp add: canonical_digest_def has_prefix_def sha256_prefix_def hex_encode_decodes to_lower_def hex_encode_lower [unfolded to_lower_def]
      lower_char_def in_range_def byte_def)

lemma canonical_sha256_text [simp]: "canonical_digest (sha256_text m)"
  using canonical_hex [of "sha256 m"] by (simp add: sha256_text_def)

lemma valid_id_bounded: "valid_id v \<Longrightarrow> bounded_text v 256"
proof -
  assume v: "valid_id v"
  then have "list_all (\<lambda>p. \<not> is_space (fst p)) (runes v)" by (auto simp: valid_id_def list_all_iff)
  then have "trim_space v = v" by (simp add: trim_space_def trim_runes_none concat_runes)
  then show ?thesis using v by (auto simp: valid_id_def bounded_text_def MaxIDBytes_def list_all_iff)
qed

lemma bounded_text_printable: "printable s \<Longrightarrow> s \<noteq> [] \<Longrightarrow> length s \<le> mx \<Longrightarrow> bounded_text s mx"
  using printable_runes [of s]
  by (auto simp: bounded_text_def valid_utf8_ascii printable_ascii trim_space_printable list_all_iff not_control_printable)

lemma bounded_text_prefix:
  assumes "printable p" and "p \<noteq> []" and "bounded_text s n" and "length p + n \<le> mx"
  shows "bounded_text (p @ s) mx"
  using assms trim_space_prefix [OF assms(1,2)] printable_runes [OF assms(1)]
    runes_ascii_append [OF printable_ascii [OF assms(1)], of s] valid_utf8_ascii [OF printable_ascii [OF assms(1)]]
  by (auto simp: bounded_text_def valid_utf8_def runes_ascii printable_ascii list_all_iff not_control_printable)

text \<open>The parts of a run of \<^verbatim>\<open>Authorize\<close> that returned a capability.\<close>

lemma Authorize_Inr:
  assumes "Authorize L a r cand t1 t2 random = Inr cap"
  obtains md rid message where "check_request L (au_mandate a) r t2 = Inr ()" and "DigestMandate L (au_mandate a) = Inr md"
    and "verify (al_problem L) (au_problem a) cand (au_budget a) = Inr ()" and "random = Some rid"
    and "capability_message L (cb_Claims cap) = Inr message" and "cb_Signature cap = al_sign L (au_key a) message"
    and "claims_bound (cb_Claims cap) (au_mandate a) md r \<longleftrightarrow> sl_ProblemDigest cand = ma_ProblemDigest (au_mandate a)"
    and "cc_IssuedAt (cb_Claims cap) = utc t2" and "cc_Solution (cb_Claims cap) = cand"
    and "instant (cc_ExpiresAt (cb_Claims cap)) =
      min (instant t2 + int (unat (ma_MaxTTLSeconds (au_mandate a))) * ns_per_sec) (instant (ma_ExpiresAt (au_mandate a)))"
proof -
  have u: "check_request L m r (utc t) = check_request L m r t" for m t by (simp add: check_request_def)
  show ?thesis
    using assms that
    by (auto simp: Authorize_def and_then_Inr_iff u Let_def lift_privilege_def claims_bound_def after_def add_duration_def
        split: if_splits option.splits sum.splits)
qed

text \<open>What \<^verbatim>\<open>NewAuthorizer\<close> has checked.\<close>

lemma NewAuthorizer_Inr:
  assumes "NewAuthorizer L c = Inr a"
  shows "digest_problem (al_problem L) (az_Problem c) = Inr (ma_ProblemDigest (az_Mandate c))"
    and "validate_mandate (az_Mandate c) = Inr ()" and "al_copy L (az_Problem c) = Some (au_problem a)"
    and "au_mandate a = az_Mandate c" and "au_key a = az_SigningKey c" and "au_budget a = az_MaxEvaluations c"
  using assms by (auto simp: NewAuthorizer_def and_then_Inr_iff lift_privilege_def split: if_splits option.splits sum.splits)

lemma verify_digest:
  assumes "verify marshal p sol budget = Inr ()" and "digest_problem marshal p = Inr d"
  shows "sl_ProblemDigest sol = d" and "optimal p (set (sl_Grants sol))"
proof -
  obtain cp where cp: "compile_problem marshal p = Inr cp" and d: "d = cp_digest cp"
    using assms(2) by (auto simp: digest_problem_def and_then_Inr_iff)
  show "sl_ProblemDigest sol = d" "optimal p (set (sl_Grants sol))" using verify_Inr [OF cp] assms(1) d by auto
qed

lemma check_issued:
  assumes "NewAuthorizer L c = Inr a" and "al_copy L (az_Problem c) = Some (az_Problem c)"
    and "\<And>message. al_verify L key message (al_sign L (az_SigningKey c) message)"
    and "\<And>message. length (al_sign L (az_SigningKey c) message) = 64" and "length key = 32"
    and "Authorize L a r cand t1 t2 random = Inr cap" and "0 < instant t2"
  shows "CheckCapability L cap key (az_Mandate c) r now = Inr () \<longleftrightarrow>
    instant t2 \<le> instant now \<and> before now (cc_ExpiresAt (cb_Claims cap))"
proof -
  let ?m = "az_Mandate c"
  note new = NewAuthorizer_Inr [OF assms(1)]
  from assms(6) obtain md rid message where r: "check_request L ?m r t2 = Inr ()" and md: "DigestMandate L ?m = Inr md"
    and v: "verify (al_problem L) (az_Problem c) cand (au_budget a) = Inr ()"
    and msg: "capability_message L (cb_Claims cap) = Inr message" and sig: "cb_Signature cap = al_sign L (az_SigningKey c) message"
    and b: "claims_bound (cb_Claims cap) ?m md r \<longleftrightarrow> sl_ProblemDigest cand = ma_ProblemDigest ?m"
    and t: "cc_IssuedAt (cb_Claims cap) = utc t2"
      "instant (cc_ExpiresAt (cb_Claims cap)) = min (instant t2 + int (unat (ma_MaxTTLSeconds ?m)) * ns_per_sec) (instant (ma_ExpiresAt ?m))"
    by (rule Authorize_Inr) (use new assms(2) in auto)
  have bound: "claims_bound (cb_Claims cap) ?m md r" using b verify_digest(1) [OF v new(1)] by simp
  have ttl: "unat (ma_MaxTTLSeconds ?m) \<noteq> 0" "unat (ma_MaxTTLSeconds ?m) \<le> 3600"
    using new(2) by (auto simp: validate_mandate_def not_less word_le_nat_alt unat_eq_zero split: if_splits)
  define k where "k = unat (ma_MaxTTLSeconds ?m)"
  define d where "d = int (unat (ma_MaxTTLSeconds ?m)) * ns_per_sec"
  have dd: "0 < d" "d \<le> 3600000000000" using ttl unfolding d_def k_def [symmetric] by (simp_all add: ns_per_sec_def)
  have w: "\<not> instant t2 < instant (ma_NotBefore ?m)" "instant t2 < instant (ma_ExpiresAt ?m)"
    using r by (auto simp: check_request_def before_def split: if_splits)
  have cur: "claims_current (cb_Claims cap) ?m now \<longleftrightarrow> instant t2 \<le> instant now \<and> before now (cc_ExpiresAt (cb_Claims cap))"
    using t dd w assms(7) unfolding claims_current_def d_def [symmetric] sub_time_def
    by (auto simp: is_zero_def before_def after_def min_def max_def)
  have req: "check_request L ?m r now = Inr ()" if "instant t2 \<le> instant now" "before now (cc_ExpiresAt (cb_Claims cap))"
    using r that w t(2) assms(7) by (auto simp: check_request_def is_zero_def before_def split: if_splits)
  show ?thesis
    using assms(3,4,5) msg sig new(2) md bound cur req by (auto simp: CheckCapability_def and_then_Inr_iff)
qed

text \<open>Once the checks pass, \<^verbatim>\<open>Authorize\<close> does issue: an accepted candidate always encodes.\<close>

lemma verified_message_ok:
  assumes "verify marshal p sol budget = Inr ()"
  shows "sl_Schema sol = SolutionSchemaV1" and "canonical_digest (sl_ProblemDigest sol)"
    and "length (sl_Grants sol) \<le> MaxGrants" and "length (sl_Effective sol) \<le> MaxPermissions"
    and "list_all (\<lambda>i. bounded_text i 256) (sl_Grants sol)" and "list_all (\<lambda>i. bounded_text i 256) (sl_Effective sol)"
proof -
  obtain cp where cp: "compile_problem marshal p = Inr cp"
    using assms by (auto simp: verify_def and_then_Inr_iff split: if_splits)
  obtain n where c: "compiled cp n" and same: "same_problem p n" by (rule compile_problem_compiled [OF cp])
  have n: "normal_problem n" using c by (simp add: compiled_def)
  note v = verify_Inr [OF cp, THEN iffD1, OF assms] and spec = same_problem_spec [OF same]
  show "sl_Schema sol = SolutionSchemaV1" using v by simp
  have "canonical_digest (cp_digest cp)"
    using cp by (auto simp: compile_problem_def and_then_Inr_iff Let_def split: option.splits)
  then show "canonical_digest (sl_ProblemDigest sol)" using v by simp
  have g: "set (sl_Grants sol) \<subseteq> set (map gr_ID (pb_Grants n))"
    using v spec(4) by (auto simp: optimal_def admissible_def grant_names_def)
  have e: "set (sl_Effective sol) \<subseteq> set (map pm_ID (pb_Permissions n))"
    using v spec(1) effective_known [OF n, of "set (sl_Grants sol)"] by simp
  show "length (sl_Grants sol) \<le> MaxGrants" using distinct_length_le [OF _ g] v n by (simp add: normal_problem_def MaxGrants_def)
  show "length (sl_Effective sol) \<le> MaxPermissions" using distinct_length_le [OF _ e] v n by (simp add: normal_problem_def MaxPermissions_def)
  show "list_all (\<lambda>i. bounded_text i 256) (sl_Grants sol)"
    using g n by (force simp: list_all_iff normal_problem_def intro!: valid_id_bounded)
  show "list_all (\<lambda>i. bounded_text i 256) (sl_Effective sol)"
    using e n by (force simp: list_all_iff normal_problem_def intro!: valid_id_bounded)
qed

lemma Authorize_issues:
  assumes "validate_mandate (au_mandate a) = Inr ()" and "verify (al_problem L) (au_problem a) cand (au_budget a) = Inr ()"
    and r: "check_request L (au_mandate a) r t1 = Inr ()" "check_request L (au_mandate a) r t2 = Inr ()"
    and lib: "\<And>m. al_mandate L m \<noteq> None" "\<And>c. al_claims L c \<noteq> None" and "length rid = 32"
  shows "\<exists>cap. Authorize L a r cand t1 t2 (Some rid) = Inr cap"
proof -
  have u: "check_request L m r (utc t) = check_request L m r t" for m t by (simp add: check_request_def)
  obtain raw where "al_mandate L ((au_mandate a)\<lparr>ma_NotBefore := utc (ma_NotBefore (au_mandate a)),
      ma_ExpiresAt := utc (ma_ExpiresAt (au_mandate a))\<rparr>) = Some raw"
    using lib(1) by blast
  then obtain md where md: "DigestMandate L (au_mandate a) = Inr md" "canonical_digest md"
    using assms(1) by (simp add: DigestMandate_def digest_value_def)
  have ids: "rq_ActorID r = ma_ActorID (au_mandate a)" "rq_TaskID r = ma_TaskID (au_mandate a)"
    using r(1) by (auto simp: check_request_def and_then_Inr_iff split: if_splits)
  have msg: "\<exists>message. capability_message L c = Inr message"
    if "cc_Schema c = CapabilitySchemaV1" "cc_ID c = hex_encode rid" "cc_MandateID c = ma_ID (au_mandate a)" "cc_MandateDigest c = md"
      "cc_PolicyRef c = ma_PolicyRef (au_mandate a)" "cc_ActorID c = rq_ActorID r" "cc_TaskID c = rq_TaskID r"
      "cc_ActionDigest c = ma_ActionDigest (au_mandate a)" "cc_Solution c = cand" for c
    using that verified_message_ok [OF assms(2)] assms(1,7) md(2) ids lib(2) [of c] canonical_hex [OF assms(7)]
    by (auto simp: capability_message_def validate_mandate_def split: if_splits)
  show ?thesis
    using verified_message_ok(3,4) [OF assms(2)]
    by (simp add: Authorize_def u lift_privilege_def and_then_Inr_iff Let_def not_less assms(2) r md) (intro conjI impI; rule msg; simp)
qed

text \<open>C27. What an authorizer issues is worth: the candidate in the capability is optimal for the problem the
  authorizer was configured with, and the capability passes the check under the configured mandate, for the same
  request and the matching public key, exactly from its issue until its expiry, which is at most the mandate's
  lifetime and its maximal validity away. The signature scheme and the JSON copy of the problem are assumed to work.\<close>

theorem issued_capability_checks:
  assumes "NewAuthorizer L c = Inr a" and "al_copy L (az_Problem c) = Some (az_Problem c)"
    and "\<And>message. al_verify L key message (al_sign L (az_SigningKey c) message)"
    and "\<And>message. length (al_sign L (az_SigningKey c) message) = 64" and "length key = 32"
    and "Authorize L a r cand t1 t2 random = Inr cap" and "0 < instant t2"
  shows "optimal (az_Problem c) (set (sl_Grants (cc_Solution (cb_Claims cap)))) \<and>
    instant (cc_ExpiresAt (cb_Claims cap)) =
      min (instant t2 + int (unat (ma_MaxTTLSeconds (az_Mandate c))) * ns_per_sec) (instant (ma_ExpiresAt (az_Mandate c))) \<and>
    (CheckCapability L cap key (az_Mandate c) r now = Inr () \<longleftrightarrow>
       instant t2 \<le> instant now \<and> before now (cc_ExpiresAt (cb_Claims cap)))"
proof -
  note new = NewAuthorizer_Inr [OF assms(1)]
  have "optimal (az_Problem c) (set (sl_Grants (cc_Solution (cb_Claims cap)))) \<and> instant (cc_ExpiresAt (cb_Claims cap)) =
      min (instant t2 + int (unat (ma_MaxTTLSeconds (az_Mandate c))) * ns_per_sec) (instant (ma_ExpiresAt (az_Mandate c)))"
    using assms(6)
  proof (rule Authorize_Inr, goal_cases)
    case (1 md rid message)
    then show ?case using verify_digest(2) [OF _ new(1)] new assms(2) by simp
  qed
  then show ?thesis using check_issued [OF assms] by blast
qed

text \<open>What \<^verbatim>\<open>DigestAction\<close> hashes.\<close>

definition action_text :: "bytes \<Rightarrow> bytes" where
  "action_text raw = (''asb.least-privilege.action/v1'' @ [char_of (0 :: nat)]) @ raw"

text \<open>The actions \<^verbatim>\<open>encoding/json\<close> encodes without loss: it replaces bytes that are not UTF-8.\<close>

definition text_actions :: "action set" where
  "text_actions = {a. valid_utf8 (ac_Operation a) \<and> valid_utf8 (ac_Resource a) \<and> ac_Arguments a \<noteq> None}"

lemma check_request_action:
  assumes "check_request L m r now = Inr ()"
  shows "\<exists>raw. al_action L (plain_action (rq_Action r)) = Some raw \<and> plain_action (rq_Action r) \<in> text_actions \<and>
    ma_ActionDigest m = sha256_text (action_text raw) \<and>
    rq_ActorID r = ma_ActorID m \<and> rq_TaskID r = ma_TaskID m"
proof -
  have d: "DigestAction L (rq_Action r) = Inr (ma_ActionDigest m)" "rq_ActorID r = ma_ActorID m" "rq_TaskID r = ma_TaskID m"
    using assms by (auto simp: check_request_def and_then_Inr_iff split: if_splits)
  have "plain_action (rq_Action r) \<in> text_actions"
    using d(1) by (auto simp: DigestAction_def text_actions_def plain_action_def bounded_text_def split: if_splits)
  moreover have "\<exists>raw. al_action L (plain_action (rq_Action r)) = Some raw \<and>
      ma_ActionDigest m = sha256_text (action_text raw)"
    using d(1) by (auto simp: action_text_def DigestAction_def digest_value_def split: if_splits option.splits)
  ultimately show ?thesis using d(2,3) by blast
qed

text \<open>C28. A mandate covers one exact effect: if the check accepts capabilities for two requests under one mandate,
  the requests have the same actor and task and the same operation, resource and arguments (a nil slice counts
  as an empty one), unless the two texts that were hashed are a SHA-256 collision. JSON is assumed to encode actions in UTF-8 without loss.\<close>

theorem mandate_binds_action:
  assumes "CheckCapability L cap1 key1 m r1 t1 = Inr ()" and "CheckCapability L cap2 key2 m r2 t2 = Inr ()"
    and "inj_on (al_action L) text_actions"
  shows "rq_ActorID r1 = rq_ActorID r2 \<and> rq_TaskID r1 = rq_TaskID r2 \<and>
    (\<exists>raw1 raw2. al_action L (plain_action (rq_Action r1)) = Some raw1 \<and>
      al_action L (plain_action (rq_Action r2)) = Some raw2 \<and>
      (plain_action (rq_Action r1) = plain_action (rq_Action r2) \<or> sha256_collision (action_text raw1) (action_text raw2)))"
proof -
  have "check_request L m r1 t1 = Inr ()" "check_request L m r2 t2 = Inr ()"
    using assms(1,2) by (auto simp: CheckCapability_def and_then_Inr_iff)
  from check_request_action [OF this(1)] check_request_action [OF this(2)] obtain raw1 raw2 where
      raw: "al_action L (plain_action (rq_Action r1)) = Some raw1" "al_action L (plain_action (rq_Action r2)) = Some raw2"
      "plain_action (rq_Action r1) \<in> text_actions" "plain_action (rq_Action r2) \<in> text_actions"
      "sha256_text (action_text raw1) = sha256_text (action_text raw2)"
      and ids: "rq_ActorID r1 = rq_ActorID r2" "rq_TaskID r1 = rq_TaskID r2" by auto
  from sha256_text_inj [OF raw(5)] have "raw1 = raw2 \<or> sha256_collision (action_text raw1) (action_text raw2)"
    by (auto simp: action_text_def)
  then show ?thesis using ids raw(1-4) inj_onD [OF assms(3)] by metis
qed

lemma use_mandate_fresh:
  assumes "NewMemoryUseStore capacity = Inr s" and "bounded_text key 512" and "0 < instant now" and "after expires now"
  shows "\<exists>s'. use_mandate s key expires now = (s', Inr ())"
proof -
  from assms(1) have "us_used s = []" "0 < us_capacity s" "us_prunedUntil s = zero_time"
    by (auto simp: NewMemoryUseStore_def split: if_splits)
  moreover have "\<not> is_zero now" "\<not> before now zero_time" using assms(3) by (simp_all add: is_zero_def before_def zero_time_def)
  ultimately show ?thesis using assms(2,4) by (simp add: use_mandate_def Let_def)
qed

lemma issued_window:
  assumes "NewAuthorizer L c = Inr a" and "Authorize L a r cand t1 t2 random = Inr cap"
  shows "cc_Solution (cb_Claims cap) = cand" and "before t2 (cc_ExpiresAt (cb_Claims cap))"
    and "instant (cc_ExpiresAt (cb_Claims cap)) \<le> instant (ma_ExpiresAt (az_Mandate c))"
proof -
  note new = NewAuthorizer_Inr [OF assms(1)]
  have "0 < unat (ma_MaxTTLSeconds (az_Mandate c))"
    using new(2) by (auto simp: validate_mandate_def unat_gt_0 split: if_splits)
  then have ttl: "0 < int (unat (ma_MaxTTLSeconds (az_Mandate c))) * ns_per_sec"
    by (metis mult_pos_pos of_nat_0_less_iff ns_per_sec_def zero_less_numeral)
  have "cc_Solution (cb_Claims cap) = cand \<and> before t2 (cc_ExpiresAt (cb_Claims cap)) \<and>
      instant (cc_ExpiresAt (cb_Claims cap)) \<le> instant (ma_ExpiresAt (az_Mandate c))"
    using assms(2)
  proof (rule Authorize_Inr, goal_cases)
    case (1 md rid message)
    then have "before t2 (ma_ExpiresAt (az_Mandate c))" using new(4) by (auto simp: check_request_def split: if_splits)
    then show ?case using 1 ttl new(4) by (simp add: before_def)
  qed
  then show "cc_Solution (cb_Claims cap) = cand" "before t2 (cc_ExpiresAt (cb_Claims cap))"
    "instant (cc_ExpiresAt (cb_Claims cap)) \<le> instant (ma_ExpiresAt (az_Mandate c))" by blast+
qed

lemma issued_passes:
  assumes "NewAuthorizer L c = Inr a" and "al_copy L (az_Problem c) = Some (az_Problem c)"
    and "\<And>message. al_verify L key message (al_sign L (az_SigningKey c) message)"
    and "\<And>message. length (al_sign L (az_SigningKey c) message) = 64" and "length key = 32"
    and "Authorize L a r cand t1 t2 random = Inr cap" and "0 < instant t2" and "NewMemoryUseStore capacity = Inr s"
    and "instant t2 \<le> instant now" and "before now (cc_ExpiresAt (cb_Claims cap))"
  shows "\<exists>s'. ConsumeCapability L s cap key (az_Mandate c) r now = (s', Inr ())"
proof -
  have "bounded_text (''asb.least-privilege/'' @ ma_ID (az_Mandate c)) 512"
    by (rule bounded_text_prefix [of _ _ 256])
      (use NewAuthorizer_Inr(2) [OF assms(1)] in \<open>auto simp: validate_mandate_def printable_def in_range_def byte_def split: if_splits\<close>)
  moreover have "0 < instant now" "after (ma_ExpiresAt (az_Mandate c)) now"
    using assms(7,9,10) issued_window(3) [OF assms(1,6)] by (auto simp: before_def after_def)
  moreover have "CheckCapability L cap key (az_Mandate c) r now = Inr ()"
    using check_issued [OF assms(1-7), of now] assms(9,10) by simp
  ultimately show ?thesis using use_mandate_fresh [OF assms(8)] by (simp add: ConsumeCapability_def)
qed

section \<open>An example\<close>

text \<open>A self-delimiting encoding of actions, and a signature scheme with one key.\<close>

definition cx_field :: "string \<Rightarrow> bytes" where
  "cx_field s = concat (map (\<lambda>c. [CHR ''.'', c]) s) @ [CHR ''$'']"

lemma cx_field_inj: "cx_field s @ t = cx_field s' @ t' \<Longrightarrow> s = s' \<and> t = t'"
proof (induction s arbitrary: s')
  case Nil
  then show ?case by (cases s') (simp_all add: cx_field_def)
next
  case (Cons c s)
  then show ?case by (cases s') (simp_all add: cx_field_def)
qed

definition cx_lib :: authority_lib where
  "cx_lib = \<lparr>al_problem = \<lambda>_. Some [], al_copy = Some,
     al_action = \<lambda>a. Some (cx_field (ac_Operation a) @ cx_field (ac_Resource a) @ cx_field (the (ac_Arguments a))),
     al_mandate = \<lambda>_. Some [], al_claims = \<lambda>_. Some [], al_capability = \<lambda>_. Some [],
     al_key_from_seed = \<lambda>seed. seed @ seed, al_sign = \<lambda>key message. key, al_verify = \<lambda>key message sig. sig = key @ key\<rparr>"

definition cx_time :: "int \<Rightarrow> gotime" where
  "cx_time n = \<lparr>instant = n * ns_per_sec, location = UTC\<rparr>"

definition cx_request :: request where
  "cx_request = \<lparr>rq_ActorID = ''agent'', rq_TaskID = ''task'',
     rq_Action = \<lparr>ac_Operation = ''put'', ac_Resource = ''store'', ac_Arguments = None\<rparr>\<rparr>"

definition cx_mandate :: "int \<Rightarrow> mandate" where
  "cx_mandate e = \<lparr>ma_ID = ''m1'', ma_PolicyRef = ''p1'', ma_ActorID = ''agent'', ma_TaskID = ''task'',
     ma_ActionDigest = sha256_text ((''asb.least-privilege.action/v1'' @ [char_of (0 :: nat)]) @
       cx_field ''put'' @ cx_field ''store'' @ cx_field []),
     ma_ProblemDigest = sha256_text [], ma_NotBefore = cx_time 1, ma_ExpiresAt = cx_time e, ma_MaxTTLSeconds = 60,
     ma_AllowAutomatic = True\<rparr>"

definition cx_key :: bytes where
  "cx_key = replicate 32 CHR ''k''"

definition cx_config :: "int \<Rightarrow> authorizer_config" where
  "cx_config e = \<lparr>az_Problem = px_problem, az_Mandate = cx_mandate e, az_SigningKey = cx_key @ cx_key, az_MaxEvaluations = 4\<rparr>"

definition cx_authorizer :: "int \<Rightarrow> authorizer" where
  "cx_authorizer e = \<lparr>au_problem = px_problem, au_mandate = cx_mandate e, au_key = cx_key @ cx_key, au_budget = 4\<rparr>"

lemma cx_texts [simp]: "bounded_text ''m1'' 256" "bounded_text ''p1'' 2048" "bounded_text ''agent'' 256"
  "bounded_text ''task'' 256" "bounded_text ''put'' 256" "bounded_text ''store'' 2048" "bounded_text ''asb.least-privilege/m1'' 512"
  by (simp_all add: bounded_text_printable printable_def in_range_def byte_def)

lemma cx_mandate_valid: "1 < e \<Longrightarrow> validate_mandate (cx_mandate e) = Inr ()"
  by (simp add: validate_mandate_def cx_mandate_def cx_time_def is_zero_def after_def ns_per_sec_def)

lemma cx_digest: "digest_problem (al_problem cx_lib) px_problem = Inr (sha256_text [])"
proof -
  obtain n where "normalize_problem px_problem = Inr n" using px_valid by blast
  then show ?thesis by (simp add: digest_problem_def compile_problem_def cx_lib_def Let_def)
qed

lemma cx_new: "1 < e \<Longrightarrow> NewAuthorizer cx_lib (cx_config e) = Inr (cx_authorizer e)"
  using cx_mandate_valid [of e] cx_digest
  by (simp add: NewAuthorizer_def cx_config_def cx_authorizer_def lift_privilege_def cx_mandate_def)
    (simp add: cx_lib_def cx_key_def)

lemma cx_check_request: "1 \<le> t \<Longrightarrow> t < e \<Longrightarrow> check_request cx_lib (cx_mandate e) cx_request (cx_time t) = Inr ()"
  by (simp add: check_request_def cx_mandate_def cx_request_def cx_time_def is_zero_def before_def ns_per_sec_def
      DigestAction_def digest_value_def plain_action_def cx_lib_def)

lemma cx_candidate: "\<exists>cand. verify (al_problem cx_lib) px_problem cand 4 = Inr ()"
proof -
  have "\<not> unat (4 :: uint64) < 2 ^ length (pb_Grants px_problem)" by (simp add: px_problem_def)
  then obtain sol where "solve (\<lambda>_. Some []) px_problem 4 = Inr sol"
    using solve_outcome(3) [OF px_compile] px_admissible by blast
  from solve_Inr [OF this] show ?thesis by (auto simp: cx_lib_def)
qed

lemma cx_issued: "1 \<le> t \<Longrightarrow> t < e \<Longrightarrow>
    \<exists>cand cap. Authorize cx_lib (cx_authorizer e) cx_request cand (cx_time t) (cx_time t) (Some (replicate 32 CHR ''r'')) = Inr cap"
proof -
  assume t: "1 \<le> t" "t < e"
  obtain cand where "verify (al_problem cx_lib) px_problem cand 4 = Inr ()" using cx_candidate by blast
  then have "\<exists>cap. Authorize cx_lib (cx_authorizer e) cx_request cand (cx_time t) (cx_time t) (Some (replicate 32 CHR ''r'')) = Inr cap"
    using t cx_mandate_valid [of e] cx_check_request [OF t]
    by (intro Authorize_issues) (simp_all add: cx_authorizer_def cx_lib_def)
  then show ?thesis by blast
qed

lemma cx_scheme:
  "al_copy cx_lib (az_Problem (cx_config e)) = Some (az_Problem (cx_config e))"
  "al_verify cx_lib cx_key message (al_sign cx_lib (az_SigningKey (cx_config e)) message)"
  "length (al_sign cx_lib (az_SigningKey (cx_config e)) message) = 64" "length cx_key = 32"
  "0 < t \<Longrightarrow> 0 < instant (cx_time t)"
  by (simp_all add: cx_lib_def cx_config_def cx_key_def cx_time_def ns_per_sec_def)

theorem issued_capability_checks_witness:
  "\<exists>cand cap. NewAuthorizer cx_lib (cx_config 10) = Inr (cx_authorizer 10) \<and>
     Authorize cx_lib (cx_authorizer 10) cx_request cand (cx_time 5) (cx_time 5) (Some (replicate 32 CHR ''r'')) = Inr cap \<and>
     optimal px_problem (set (sl_Grants (cc_Solution (cb_Claims cap)))) \<and>
     CheckCapability cx_lib cap cx_key (cx_mandate 10) cx_request (cx_time 9) = Inr ()"
proof -
  obtain cand cap where cap: "Authorize cx_lib (cx_authorizer 10) cx_request cand (cx_time 5) (cx_time 5) (Some (replicate 32 CHR ''r'')) = Inr cap"
    using cx_issued [of 5 10] by auto
  note i = issued_capability_checks [OF cx_new cx_scheme(1-4) cap, of "cx_time 9"]
  have f: "az_Problem (cx_config 10) = px_problem" "az_Mandate (cx_config 10) = cx_mandate 10" by (simp_all add: cx_config_def)
  have "instant (cc_ExpiresAt (cb_Claims cap)) = 10 * ns_per_sec"
    using i cx_scheme(5) [of 5] by (simp add: f cx_mandate_def cx_time_def ns_per_sec_def)
  then have "CheckCapability cx_lib cap cx_key (cx_mandate 10) cx_request (cx_time 9) = Inr ()"
    using i cx_scheme(5) [of 5] by (simp add: f before_def cx_time_def ns_per_sec_def)
  then show ?thesis using i cx_new [of 10] cx_scheme(5) [of 5] cap f by auto
qed

lemma cx_check: "1 \<le> t \<Longrightarrow> t < e \<Longrightarrow> \<exists>cap. CheckCapability cx_lib cap cx_key (cx_mandate e) cx_request (cx_time t) = Inr ()"
proof -
  assume t: "1 \<le> t" "t < e"
  obtain cand cap where cap: "Authorize cx_lib (cx_authorizer e) cx_request cand (cx_time t) (cx_time t) (Some (replicate 32 CHR ''r'')) = Inr cap"
    using cx_issued [OF t] by blast
  have e: "1 < e" using t by simp
  have "before (cx_time t) (cc_ExpiresAt (cb_Claims cap))"
    using cap
  proof (rule Authorize_Inr, goal_cases)
    case (1 md rid message)
    then show ?case using t by (simp add: before_def cx_authorizer_def cx_mandate_def cx_time_def ns_per_sec_def)
  qed
  then show ?thesis
    using check_issued [OF cx_new [OF e] cx_scheme(1-4) cap, of "cx_time t"] cx_scheme(5) [of t] t by (auto simp: cx_config_def)
qed

definition cx_store :: "(string \<times> gotime) list \<Rightarrow> gotime \<Rightarrow> use_store" where
  "cx_store used fl = \<lparr>us_capacity = 10, us_used = used, us_prunedUntil = fl\<rparr>"

theorem mandate_consumed_once_witness:
  "\<exists>cap1 cap2. NewMemoryUseStore 10 = Inr (cx_store [] zero_time) \<and>
     ConsumeCapability cx_lib (cx_store [] zero_time) cap1 cx_key (cx_mandate 10) cx_request (cx_time 5) =
       (cx_store [(''asb.least-privilege/m1'', cx_time 10)] zero_time, Inr ()) \<and>
     ConsumeCapability cx_lib (cx_store [(''asb.least-privilege/m1'', cx_time 10)] zero_time) cap2 cx_key (cx_mandate 20) cx_request (cx_time 15) =
       (cx_store [(''asb.least-privilege/m1'', cx_time 20)] (cx_time 10), Inr ()) \<and>
     before (ma_ExpiresAt (cx_mandate 10)) (ma_ExpiresAt (cx_mandate 20))"
proof -
  let ?k = "''asb.least-privilege/m1''"
  obtain cap1 where c1: "CheckCapability cx_lib cap1 cx_key (cx_mandate 10) cx_request (cx_time 5) = Inr ()"
    using cx_check [of 5 10] by auto
  obtain cap2 where c2: "CheckCapability cx_lib cap2 cx_key (cx_mandate 20) cx_request (cx_time 15) = Inr ()"
    using cx_check [of 15 20] by auto
  have new: "NewMemoryUseStore 10 = Inr (cx_store [] zero_time)" by (simp add: NewMemoryUseStore_def cx_store_def)
  have u1: "ConsumeCapability cx_lib (cx_store [] zero_time) cap1 cx_key (cx_mandate 10) cx_request (cx_time 5) =
      (cx_store [(?k, cx_time 10)] zero_time, Inr ())"
    using c1 by (simp add: ConsumeCapability_def use_mandate_def cx_store_def cx_mandate_def cx_time_def zero_time_def
        is_zero_def before_def after_def ns_per_sec_def Let_def)
  have u2: "ConsumeCapability cx_lib (cx_store [(?k, cx_time 10)] zero_time) cap2 cx_key (cx_mandate 20) cx_request (cx_time 15) =
      (cx_store [(?k, cx_time 20)] (cx_time 10), Inr ())"
    using c2 by (simp add: ConsumeCapability_def use_mandate_def cx_store_def cx_mandate_def cx_time_def zero_time_def
        is_zero_def before_def after_def ns_per_sec_def Let_def)
  have "before (ma_ExpiresAt (cx_mandate 10)) (ma_ExpiresAt (cx_mandate 20))"
    by (rule mandate_consumed_once [OF new run_Nil u1 run_Nil u2]) (simp add: cx_mandate_def)
  with new u1 u2 show ?thesis by blast
qed

definition cx_empty_request :: request where
  "cx_empty_request = cx_request\<lparr>rq_Action := \<lparr>ac_Operation = ''put'', ac_Resource = ''store'', ac_Arguments = Some []\<rparr>\<rparr>"

lemma cx_empty_same: "CheckCapability L cap key m cx_empty_request t = CheckCapability L cap key m cx_request t"
proof -
  have "check_request L m cx_empty_request t = check_request L m cx_request t"
    by (simp add: check_request_def DigestAction_def plain_action_def cx_empty_request_def cx_request_def)
  moreover have "claims_bound c m md cx_empty_request = claims_bound c m md cx_request" for c md
    by (simp add: claims_bound_def cx_empty_request_def)
  ultimately show ?thesis by (simp only: CheckCapability_def)
qed

lemma cx_field_eq: "cx_field s = cx_field s' \<Longrightarrow> s = s'"
  using cx_field_inj [of s "[]" s' "[]"] by simp

theorem mandate_binds_action_witness:
  "\<exists>cap. CheckCapability cx_lib cap cx_key (cx_mandate 10) cx_request (cx_time 5) = Inr () \<and>
     CheckCapability cx_lib cap cx_key (cx_mandate 10) cx_empty_request (cx_time 5) = Inr () \<and>
     inj_on (al_action cx_lib) text_actions \<and>
     (\<exists>raw1 raw2. al_action cx_lib (plain_action (rq_Action cx_request)) = Some raw1 \<and>
      al_action cx_lib (plain_action (rq_Action cx_empty_request)) = Some raw2 \<and>
      (plain_action (rq_Action cx_request) = plain_action (rq_Action cx_empty_request) \<or>
       sha256_collision (action_text raw1) (action_text raw2)))"
proof -
  have i: "inj_on (al_action cx_lib) text_actions"
    by (rule inj_onI) (auto simp: cx_lib_def text_actions_def dest!: cx_field_inj cx_field_eq intro!: action.equality)
  obtain cap where c: "CheckCapability cx_lib cap cx_key (cx_mandate 10) cx_request (cx_time 5) = Inr ()"
    using cx_check [of 5 10] by auto
  then have "CheckCapability cx_lib cap cx_key (cx_mandate 10) cx_empty_request (cx_time 5) = Inr ()" by (simp only: cx_empty_same)
  from mandate_binds_action [OF c this i] c this i show ?thesis by blast
qed

end
