(* ===== verification/EA_Wire.thy ===== *)
theory EA_Wire
  imports SHA256
begin

text \<open>
  Package \<^verbatim>\<open>pkg/atls/ea\<close>, the wire formats: \<^verbatim>\<open>handshake.go\<close>, \<^verbatim>\<open>extensions.go\<close>, \<^verbatim>\<open>request.go\<close>,
  \<^verbatim>\<open>certificate.go\<close>, \<^verbatim>\<open>certverify.go\<close> and \<^verbatim>\<open>finished.go\<close>. A slice expression on a buffer is \<open>take\<close> and \<open>drop\<close>;
  a loop with an offset is a recursion on what is left of the buffer. Nil and empty slices are not distinguished.
\<close>

section \<open>Errors and integers\<close>

datatype ea_error = ErrTruncated | ErrInvalidLength | ErrUnsupportedHandshakeType | ErrNotTLS13 | ErrUnknownCipherSuite
  | ErrContextReuse | ErrInvalidRole | ErrUnsupportedSignatureScheme | ErrSignatureMismatch | ErrFinishedMismatch
  | ErrContextMismatch | ErrBadRequest | ErrMalformedPayload | ErrMissingStatement | ErrMissingBinder
  | ErrAIKPubHashMismatch | ErrBindingMismatch | ErrUnexpectedExporterLabel | ErrMissingAttestation
  | ErrEvidenceVerificationMissing | ErrResultsVerificationMissing | ErrCertificate | ErrExporter | ErrRandom
  | ErrSigner | ErrVerifier | ErrEncoding

type_synonym uint8 = "8 word"
type_synonym uint16 = "16 word"

definition put_uint16 :: "uint16 \<Rightarrow> bytes" where
  "put_uint16 v = be 2 (unat v)"

definition read_uint16 :: "bytes \<Rightarrow> uint16" where
  "read_uint16 src = word_of_nat (unbe src 0)"

definition put_uint24 :: "uint32 \<Rightarrow> bytes" where
  "put_uint24 v = be 3 (unat v)"

definition read_uint24 :: "bytes \<Rightarrow> uint32" where
  "read_uint24 src = word_of_nat (unbe src 0)"

section \<open>Handshake messages\<close>

definition HandshakeTypeCertificate :: uint8 where
  "HandshakeTypeCertificate = 11"

definition HandshakeTypeCertificateRequest :: uint8 where
  "HandshakeTypeCertificateRequest = 13"

definition HandshakeTypeCertificateVerify :: uint8 where
  "HandshakeTypeCertificateVerify = 15"

definition HandshakeTypeClientCertificateRequest :: uint8 where
  "HandshakeTypeClientCertificateRequest = 17"

definition HandshakeTypeFinished :: uint8 where
  "HandshakeTypeFinished = 20"

record handshake_message =
  hm_Type :: uint8
  hm_Body :: bytes

definition MarshalHandshakeMessage :: "handshake_message \<Rightarrow> ea_error + bytes" where
  "MarshalHandshakeMessage m =
     (if length (hm_Body m) > 16777215 then Inl ErrInvalidLength
      else Inr ([char_of (unat (hm_Type m))] @ put_uint24 (word_of_nat (length (hm_Body m))) @ hm_Body m))"

definition UnmarshalHandshakeMessage :: "bytes \<Rightarrow> ea_error + handshake_message \<times> bytes" where
  "UnmarshalHandshakeMessage b =
     (if length b < 4 then Inl ErrTruncated
      else let t = word_of_nat (byte (b ! 0)); n = unat (read_uint24 (take 3 (drop 1 b))) in
        if n > 16777215 then Inl ErrInvalidLength
        else if length b < 4 + n then Inl ErrTruncated
        else Inr (\<lparr>hm_Type = t, hm_Body = take n (drop 4 b)\<rparr>, drop (4 + n) b))"

section \<open>Extensions\<close>

record extension =
  ex_Type :: uint16
  ex_Data :: bytes

text \<open>The loop that adds up the length, with its two bounds.\<close>

fun payload_length :: "nat \<Rightarrow> extension list \<Rightarrow> ea_error + nat" where
  "payload_length n [] = Inr n"
| "payload_length n (e # es) =
     (if length (ex_Data e) > 65535 then Inl ErrInvalidLength
      else let n' = n + (4 + length (ex_Data e)) in
        if n' > 65535 then Inl ErrInvalidLength else payload_length n' es)"

definition extension_bytes :: "extension \<Rightarrow> bytes" where
  "extension_bytes e = put_uint16 (ex_Type e) @ put_uint16 (word_of_nat (length (ex_Data e))) @ ex_Data e"

definition MarshalExtensions :: "extension list \<Rightarrow> ea_error + bytes" where
  "MarshalExtensions exts =
     and_then (payload_length 0 exts) (\<lambda>n. Inr (put_uint16 (word_of_nat n) @ concat (map extension_bytes exts)))"

function parse_extensions :: "bytes \<Rightarrow> ea_error + extension list" where
  "parse_extensions p =
     (if p = [] then Inr []
      else if length p < 4 then Inl ErrTruncated
      else let l = unat (read_uint16 (take 2 (drop 2 p))) in
        if l > length p - 4 then Inl ErrInvalidLength
        else and_then (parse_extensions (drop (4 + l) p)) (\<lambda>es.
          Inr (\<lparr>ex_Type = read_uint16 (take 2 p), ex_Data = take l (drop 4 p)\<rparr> # es)))"
  by pat_completeness auto
termination
  by (relation "measure length") auto

declare parse_extensions.simps [simp del]

definition UnmarshalExtensions :: "bytes \<Rightarrow> ea_error + extension list \<times> bytes" where
  "UnmarshalExtensions b =
     (if length b < 2 then Inl ErrTruncated
      else let total = unat (read_uint16 (take 2 b)) in
        if length b < 2 + total then Inl ErrTruncated
        else and_then (parse_extensions (take total (drop 2 b))) (\<lambda>es. Inr (es, drop (2 + total) b)))"

section \<open>Authenticator requests\<close>

record authenticator_request =
  ar_Type :: uint8
  ar_Context :: bytes
  ar_Extensions :: "extension list"

definition request_type :: "uint8 \<Rightarrow> bool" where
  "request_type t \<longleftrightarrow> \<not> (t \<noteq> HandshakeTypeCertificateRequest \<and> t \<noteq> HandshakeTypeClientCertificateRequest)"

definition MarshalRequest :: "authenticator_request \<Rightarrow> ea_error + bytes" where
  "MarshalRequest r =
     (if \<not> request_type (ar_Type r) then Inl ErrUnsupportedHandshakeType
      else if length (ar_Context r) > 255 then Inl ErrInvalidLength
      else and_then (MarshalExtensions (ar_Extensions r)) (\<lambda>extVec.
        MarshalHandshakeMessage \<lparr>hm_Type = ar_Type r,
          hm_Body = [char_of (length (ar_Context r))] @ ar_Context r @ extVec\<rparr>))"

definition UnmarshalAuthenticatorRequest :: "bytes \<Rightarrow> ea_error + authenticator_request \<times> bytes" where
  "UnmarshalAuthenticatorRequest b =
     and_then (UnmarshalHandshakeMessage b) (\<lambda>(hm, rest).
       if \<not> request_type (hm_Type hm) then Inl ErrUnsupportedHandshakeType
       else if length (hm_Body hm) < 1 then Inl ErrTruncated
       else let ctxLen = byte (hm_Body hm ! 0) in
         if length (hm_Body hm) < 1 + ctxLen then Inl ErrTruncated
         else and_then (UnmarshalExtensions (drop (1 + ctxLen) (hm_Body hm))) (\<lambda>(exts, leftover).
           if leftover \<noteq> [] then Inl ErrInvalidLength
           else Inr (\<lparr>ar_Type = hm_Type hm, ar_Context = take ctxLen (drop 1 (hm_Body hm)), ar_Extensions = exts\<rparr>, rest)))"

section \<open>Certificate, CertificateVerify and Finished\<close>

record certificate_entry =
  en_CertDER :: bytes
  en_Extensions :: "extension list"

record certificate_message =
  cm_Context :: bytes
  cm_Entries :: "certificate_entry list"

definition entry_bytes :: "certificate_entry \<Rightarrow> ea_error + bytes" where
  "entry_bytes e =
     (if length (en_CertDER e) = 0 \<or> length (en_CertDER e) > 16777215 then Inl ErrInvalidLength
      else and_then (MarshalExtensions (en_Extensions e)) (\<lambda>extVec.
        Inr (put_uint24 (word_of_nat (length (en_CertDER e))) @ en_CertDER e @ extVec)))"

fun list_payload :: "certificate_entry list \<Rightarrow> ea_error + bytes" where
  "list_payload [] = Inr []"
| "list_payload (e # es) = and_then (entry_bytes e) (\<lambda>b. and_then (list_payload es) (\<lambda>bs. Inr (b @ bs)))"

definition MarshalCertificate :: "certificate_message \<Rightarrow> ea_error + bytes" where
  "MarshalCertificate m =
     (if length (cm_Context m) > 255 then Inl ErrInvalidLength
      else and_then (list_payload (cm_Entries m)) (\<lambda>payload.
        MarshalHandshakeMessage \<lparr>hm_Type = HandshakeTypeCertificate,
          hm_Body = [char_of (length (cm_Context m))] @ cm_Context m @ put_uint24 (word_of_nat (length payload)) @ payload\<rparr>))"

lemma UnmarshalExtensions_shorter:
  "UnmarshalExtensions b = Inr (es, rest) \<Longrightarrow> length rest < length b"
  by (auto simp: UnmarshalExtensions_def Let_def and_then_Inr_iff split: if_splits)

function parse_entries :: "bytes \<Rightarrow> ea_error + certificate_entry list" where
  "parse_entries l =
     (if l = [] then Inr []
      else if length l < 3 then Inl ErrTruncated
      else let certLen = unat (read_uint24 (take 3 l)) in
        if certLen = 0 \<or> certLen > length l - 3 then Inl ErrInvalidLength
        else case UnmarshalExtensions (drop (3 + certLen) l) of
          Inl e \<Rightarrow> Inl e
        | Inr (exts, leftover) \<Rightarrow>
            and_then (parse_entries leftover) (\<lambda>es.
              Inr (\<lparr>en_CertDER = take certLen (drop 3 l), en_Extensions = exts\<rparr> # es)))"
  by pat_completeness auto
termination
  by (relation "measure length") (fastforce dest: UnmarshalExtensions_shorter)+

declare parse_entries.simps [simp del]

definition UnmarshalCertificateMessage :: "bytes \<Rightarrow> ea_error + certificate_message \<times> bytes" where
  "UnmarshalCertificateMessage b =
     and_then (UnmarshalHandshakeMessage b) (\<lambda>(hm, rest).
       if rest \<noteq> [] \<or> hm_Type hm \<noteq> HandshakeTypeCertificate then Inl ErrInvalidLength
       else if length (hm_Body hm) < 1 then Inl ErrTruncated
       else let ctxLen = byte (hm_Body hm ! 0) in
         if length (hm_Body hm) < 1 + ctxLen + 3 then Inl ErrTruncated
         else let listLen = unat (read_uint24 (take 3 (drop (1 + ctxLen) (hm_Body hm)))) in
           if length (hm_Body hm) \<noteq> 1 + ctxLen + 3 + listLen then Inl ErrInvalidLength
           else and_then (parse_entries (drop (1 + ctxLen + 3) (hm_Body hm))) (\<lambda>es.
             Inr (\<lparr>cm_Context = take ctxLen (drop 1 (hm_Body hm)), cm_Entries = es\<rparr>,
               case MarshalHandshakeMessage hm of Inl _ \<Rightarrow> [] | Inr raw \<Rightarrow> raw)))"

record certificate_verify_message =
  cv_Algorithm :: uint16
  cv_Signature :: bytes

definition MarshalCertificateVerify :: "certificate_verify_message \<Rightarrow> ea_error + bytes" where
  "MarshalCertificateVerify m =
     (if length (cv_Signature m) > 65535 then Inl ErrInvalidLength
      else MarshalHandshakeMessage \<lparr>hm_Type = HandshakeTypeCertificateVerify,
        hm_Body = put_uint16 (cv_Algorithm m) @ put_uint16 (word_of_nat (length (cv_Signature m))) @ cv_Signature m\<rparr>)"

definition UnmarshalCertificateVerifyMessage :: "bytes \<Rightarrow> ea_error + certificate_verify_message \<times> bytes" where
  "UnmarshalCertificateVerifyMessage b =
     and_then (UnmarshalHandshakeMessage b) (\<lambda>(hm, rest).
       if rest \<noteq> [] \<or> hm_Type hm \<noteq> HandshakeTypeCertificateVerify then Inl ErrInvalidLength
       else if length (hm_Body hm) < 4 then Inl ErrTruncated
       else let sigLen = unat (read_uint16 (take 2 (drop 2 (hm_Body hm)))) in
         if length (hm_Body hm) \<noteq> 4 + sigLen then Inl ErrInvalidLength
         else Inr (\<lparr>cv_Algorithm = read_uint16 (take 2 (hm_Body hm)), cv_Signature = drop 4 (hm_Body hm)\<rparr>,
           case MarshalHandshakeMessage hm of Inl _ \<Rightarrow> [] | Inr raw \<Rightarrow> raw))"

record finished_message =
  fi_VerifyData :: bytes

definition MarshalFinished :: "finished_message \<Rightarrow> ea_error + bytes" where
  "MarshalFinished m =
     (if length (fi_VerifyData m) = 0 then Inl ErrInvalidLength
      else MarshalHandshakeMessage \<lparr>hm_Type = HandshakeTypeFinished, hm_Body = fi_VerifyData m\<rparr>)"

definition UnmarshalFinishedMessage :: "bytes \<Rightarrow> ea_error + finished_message \<times> bytes" where
  "UnmarshalFinishedMessage b =
     and_then (UnmarshalHandshakeMessage b) (\<lambda>(hm, rest).
       if rest \<noteq> [] \<or> hm_Type hm \<noteq> HandshakeTypeFinished \<or> length (hm_Body hm) = 0 then Inl ErrInvalidLength
       else Inr (\<lparr>fi_VerifyData = hm_Body hm\<rparr>,
         case MarshalHandshakeMessage hm of Inl _ \<Rightarrow> [] | Inr raw \<Rightarrow> raw))"

end
