(* ===== verification/EA_Codec.thy ===== *)
theory EA_Codec
  imports EA_Wire
begin

text \<open>
  The wire formats are canonical: a decoder accepts exactly what the encoder of the same message produces. The
  contract is stated once for self-delimiting formats and once for formats that must use up their input.
\<close>

section \<open>The contracts\<close>

locale codec =
  fixes enc :: "'a \<Rightarrow> 'e + bytes" and dec :: "bytes \<Rightarrow> 'e + 'a \<times> bytes"
  assumes dec_enc: "enc x = Inr b \<Longrightarrow> dec (b @ rest) = Inr (x, rest)"
    and enc_dec: "dec b = Inr (x, rest) \<Longrightarrow> \<exists>b0. enc x = Inr b0 \<and> b = b0 @ rest"
begin

lemma dec_iff: "dec b = Inr (x, rest) \<longleftrightarrow> (\<exists>b0. enc x = Inr b0 \<and> b = b0 @ rest)"
  using dec_enc enc_dec by blast

lemma prefix_free: "enc x = Inr b \<Longrightarrow> enc y = Inr c \<Longrightarrow> b @ r = c @ s \<Longrightarrow> x = y \<and> b = c \<and> r = s"
  by (metis Inr_inject Pair_inject append_same_eq dec_enc)

end

text \<open>A decoder that refuses trailing bytes and also returns the bytes it was given.\<close>

locale whole_codec =
  fixes enc :: "'a \<Rightarrow> 'e + bytes" and dec :: "bytes \<Rightarrow> 'e + 'a \<times> bytes"
  assumes whole_iff: "dec b = Inr (x, raw) \<longleftrightarrow> enc x = Inr b \<and> raw = b"
begin

lemma enc_inj: "enc x = Inr b \<Longrightarrow> enc y = Inr b \<Longrightarrow> x = y"
  using whole_iff [of b x b] whole_iff [of b y b] by simp

end

section \<open>Integers\<close>

lemma unbe_bound: "unbe bs acc < (acc + 1) * 256 ^ length bs"
proof (induction bs arbitrary: acc)
  case (Cons c cs)
  have "unbe cs (acc * 256 + byte c) < (acc * 256 + byte c + 1) * 256 ^ length cs" by (rule Cons.IH)
  also have "\<dots> \<le> ((acc + 1) * 256) * 256 ^ length cs"
    using add_left_mono [OF Suc_leI [OF byte_less [of c]], of "acc * 256"] by (intro mult_le_mono1) (simp del: byte_less)
  finally show ?case by (simp add: algebra_simps)
qed simp

lemma be_unbe: "be (length bs) (unbe bs 0) = bs"
proof (induction bs rule: rev_induct)
  case (snoc c cs)
  have "(unbe cs 0 * 256 + byte c) div 256 = unbe cs 0" using byte_less [of c] by simp
  moreover have "char_of (unbe cs 0 * 256 + byte c) = c"
    using byte_less [of c] by (metis byte_char_of char_of_byte mod_less mod_mult_self3)
  ultimately show ?case using snoc by (simp add: unbe_append)
qed simp

lemma length_put [simp]: "length (put_uint16 v) = 2" "length (put_uint24 w) = 3"
  by (simp_all add: put_uint16_def put_uint24_def)

lemma put_not_Nil [simp]: "put_uint16 v \<noteq> []" "put_uint24 w \<noteq> []"
  by (metis length_put(1) list.size(3) zero_neq_numeral, metis length_put(2) list.size(3) zero_neq_numeral)

lemma read_put_uint16 [simp]: "read_uint16 (put_uint16 v) = v"
proof -
  have "unat v < 256 ^ 2" using unsigned_less [of v, where ?'a = nat] by simp
  then show ?thesis by (simp add: read_uint16_def put_uint16_def unbe_be)
qed

lemma put_read_uint16: "length b = 2 \<Longrightarrow> put_uint16 (read_uint16 b) = b"
  using unbe_bound [of b 0] be_unbe [of b] by (simp add: put_uint16_def read_uint16_def unat_of_nat)

lemma unat_length16: "n \<le> 65535 \<Longrightarrow> unat (word_of_nat n :: uint16) = n"
  by (simp add: unat_of_nat)

lemma read_put_uint24: "n \<le> 16777215 \<Longrightarrow> unat (read_uint24 (put_uint24 (word_of_nat n))) = n"
  by (simp add: read_uint24_def put_uint24_def unat_of_nat unbe_be)

lemma read_uint24_bound: "length b = 3 \<Longrightarrow> unat (read_uint24 b) \<le> 16777215 \<and> put_uint24 (read_uint24 b) = b"
  using unbe_bound [of b 0] be_unbe [of b] by (simp add: put_uint24_def read_uint24_def unat_of_nat)

lemma read_uint16_bound: "unat (read_uint16 b) \<le> 65535"
  using unsigned_less [of "read_uint16 b", where ?'a = nat] by simp

lemma take_drop_split: "n + k \<le> length b \<Longrightarrow> b = take n b @ take k (drop n b) @ drop (n + k) b"
  by (metis append_take_drop_id drop_drop add.commute)

section \<open>Handshake messages\<close>

interpretation handshake: codec MarshalHandshakeMessage UnmarshalHandshakeMessage
proof unfold_locales
  fix m b rest assume "MarshalHandshakeMessage m = Inr b"
  then show "UnmarshalHandshakeMessage (b @ rest) = Inr (m, rest)"
    using read_put_uint24 [of "length (hm_Body m)"] unsigned_less [of "hm_Type m", where ?'a = nat]
    by (auto simp: MarshalHandshakeMessage_def UnmarshalHandshakeMessage_def Let_def split: if_splits)
next
  fix b m rest assume "UnmarshalHandshakeMessage b = Inr (m, rest)"
  then have d: "4 \<le> length b" "m = \<lparr>hm_Type = word_of_nat (byte (b ! 0)), hm_Body = take (unat (read_uint24 (take 3 (drop 1 b)))) (drop 4 b)\<rparr>"
      "4 + unat (read_uint24 (take 3 (drop 1 b))) \<le> length b" "rest = drop (4 + unat (read_uint24 (take 3 (drop 1 b)))) b"
    by (auto simp: UnmarshalHandshakeMessage_def Let_def split: if_splits)
  let ?n = "unat (read_uint24 (take 3 (drop 1 b)))"
  have n: "?n \<le> 16777215" "put_uint24 (word_of_nat ?n) = take 3 (drop 1 b)"
    using read_uint24_bound [of "take 3 (drop 1 b)"] d(1) by simp_all
  obtain c cs where b: "b = c # cs" using d(1) by (cases b) auto
  have "b = [c] @ take 3 (drop 1 b) @ take ?n (drop 4 b) @ rest"
    using take_drop_split [of 4 ?n b] d(3,4) take_add [of 1 3 b] b by simp
  then show "\<exists>b0. MarshalHandshakeMessage m = Inr b0 \<and> b = b0 @ rest"
    using n d(2,3) b byte_less [of c] by (simp add: MarshalHandshakeMessage_def unat_of_nat)
qed

section \<open>Extensions\<close>

lemma length_extension_bytes [simp]: "length (extension_bytes e) = 4 + length (ex_Data e)"
  by (simp add: extension_bytes_def)

lemma payload_length_eq:
  "n \<le> 65535 \<Longrightarrow> payload_length n es = (if n + length (concat (map extension_bytes es)) \<le> 65535
     then Inr (n + length (concat (map extension_bytes es))) else Inl ErrInvalidLength)"
proof (induction es arbitrary: n)
  case (Cons e es)
  then show ?case by (cases "n + (4 + length (ex_Data e)) \<le> 65535") (auto simp: Let_def)
qed simp

lemma MarshalExtensions_Inr:
  "MarshalExtensions es = Inr b \<longleftrightarrow> length (concat (map extension_bytes es)) \<le> 65535 \<and>
     b = put_uint16 (word_of_nat (length (concat (map extension_bytes es)))) @ concat (map extension_bytes es)"
  by (auto simp: MarshalExtensions_def payload_length_eq)

lemma parse_extensions_bytes:
  "length (concat (map extension_bytes es)) \<le> 65535 \<Longrightarrow> parse_extensions (concat (map extension_bytes es)) = Inr es"
proof (induction es)
  case Nil
  show ?case by (simp add: parse_extensions.simps)
next
  case (Cons e es)
  let ?rest = "concat (map extension_bytes es)"
  have p: "concat (map extension_bytes (e # es)) = put_uint16 (ex_Type e) @ put_uint16 (word_of_nat (length (ex_Data e))) @ ex_Data e @ ?rest"
    by (simp add: extension_bytes_def)
  have "unat (word_of_nat (length (ex_Data e)) :: uint16) = length (ex_Data e)" using Cons.prems by (intro unat_length16) simp
  then show ?case unfolding p using Cons by (simp add: parse_extensions.simps [of "put_uint16 _ @ _"] Let_def)
qed

lemma bytes_parse_extensions: "parse_extensions p = Inr es \<Longrightarrow> concat (map extension_bytes es) = p"
proof (induction p arbitrary: es rule: parse_extensions.induct)
  case (1 p)
  show ?case
  proof (cases "p = []")
    case True
    then show ?thesis using "1.prems" by (simp add: parse_extensions.simps)
  next
    case False
    let ?l = "unat (read_uint16 (take 2 (drop 2 p)))"
    have d: "4 + ?l \<le> length p"
      using "1.prems" False by (auto simp: parse_extensions.simps [of p] Let_def split: if_splits)
    then obtain es' where e: "parse_extensions (drop (4 + ?l) p) = Inr es'"
        "es = \<lparr>ex_Type = read_uint16 (take 2 p), ex_Data = take ?l (drop 4 p)\<rparr> # es'"
      using "1.prems" False by (auto simp: parse_extensions.simps [of p] Let_def and_then_Inr_iff split: if_splits)
    have "concat (map extension_bytes es') = drop (4 + ?l) p"
      using "1.IH" [OF False _ refl _ e(1)] d by simp
    moreover have "take 2 p @ take 2 (drop 2 p) @ take ?l (drop 4 p) @ drop (4 + ?l) p = p"
      using take_drop_split [OF d] take_add [of 2 2 p] by simp
    moreover have "extension_bytes \<lparr>ex_Type = read_uint16 (take 2 p), ex_Data = take ?l (drop 4 p)\<rparr> =
        take 2 p @ take 2 (drop 2 p) @ take ?l (drop 4 p)"
      using d by (simp add: extension_bytes_def put_read_uint16)
    ultimately show ?thesis using e(2) by simp
  qed
qed

interpretation extensions: codec MarshalExtensions UnmarshalExtensions
proof unfold_locales
  fix es b rest assume "MarshalExtensions es = Inr b"
  then have d: "length (concat (map extension_bytes es)) \<le> 65535"
      "b = put_uint16 (word_of_nat (length (concat (map extension_bytes es)))) @ concat (map extension_bytes es)"
    by (simp_all add: MarshalExtensions_Inr)
  show "UnmarshalExtensions (b @ rest) = Inr (es, rest)"
    using parse_extensions_bytes [OF d(1)] unat_length16 [OF d(1)] unfolding d(2) by (simp add: UnmarshalExtensions_def Let_def)
next
  fix b es rest assume "UnmarshalExtensions b = Inr (es, rest)"
  then have d: "2 + unat (read_uint16 (take 2 b)) \<le> length b" "rest = drop (2 + unat (read_uint16 (take 2 b))) b"
      "parse_extensions (take (unat (read_uint16 (take 2 b))) (drop 2 b)) = Inr es"
    by (auto simp: UnmarshalExtensions_def Let_def and_then_Inr_iff split: if_splits)
  let ?n = "unat (read_uint16 (take 2 b))"
  have p: "concat (map extension_bytes es) = take ?n (drop 2 b)" by (rule bytes_parse_extensions [OF d(3)])
  have n: "length (take ?n (drop 2 b)) = ?n" "?n \<le> 65535" using d(1) read_uint16_bound by simp_all
  have "put_uint16 (word_of_nat ?n) = take 2 b" using d(1) by (simp add: put_read_uint16)
  then have "MarshalExtensions es = Inr (take 2 b @ take ?n (drop 2 b))" unfolding MarshalExtensions_Inr p n(1) using n(2) by simp
  moreover have "b = (take 2 b @ take ?n (drop 2 b)) @ rest" using take_drop_split [OF d(1)] d(2) by simp
  ultimately show "\<exists>b0. MarshalExtensions es = Inr b0 \<and> b = b0 @ rest" by blast
qed

section \<open>Requests\<close>

lemma length_prefix:
  assumes "1 + byte (b ! 0) \<le> length b"
  shows "b = [char_of (byte (b ! 0))] @ take (byte (b ! 0)) (drop 1 b) @ drop (1 + byte (b ! 0)) b"
proof -
  obtain c cs where "b = c # cs" using assms by (cases b) auto
  then show ?thesis by simp
qed

interpretation request: codec MarshalRequest UnmarshalAuthenticatorRequest
proof unfold_locales
  fix r b rest assume "MarshalRequest r = Inr b"
  then obtain v where d: "request_type (ar_Type r)" "length (ar_Context r) \<le> 255" "MarshalExtensions (ar_Extensions r) = Inr v"
      "MarshalHandshakeMessage \<lparr>hm_Type = ar_Type r, hm_Body = [char_of (length (ar_Context r))] @ ar_Context r @ v\<rparr> = Inr b"
    by (auto simp: MarshalRequest_def and_then_Inr_iff split: if_splits)
  have "UnmarshalExtensions v = Inr (ar_Extensions r, [])" using extensions.dec_enc [OF d(3), of "[]"] by simp
  then show "UnmarshalAuthenticatorRequest (b @ rest) = Inr (r, rest)"
    using handshake.dec_enc [OF d(4), of rest] d(1,2) by (simp add: UnmarshalAuthenticatorRequest_def Let_def)
next
  fix b r rest assume u: "UnmarshalAuthenticatorRequest b = Inr (r, rest)"
  obtain hm where h: "UnmarshalHandshakeMessage b = Inr (hm, rest)"
    using u by (auto simp: UnmarshalAuthenticatorRequest_def and_then_Inr_iff Let_def split: if_splits)
  let ?n = "byte (hm_Body hm ! 0)"
  have d: "request_type (hm_Type hm)" "1 + ?n \<le> length (hm_Body hm)" "UnmarshalExtensions (drop (1 + ?n) (hm_Body hm)) = Inr (ar_Extensions r, [])"
      "ar_Type r = hm_Type hm" "ar_Context r = take ?n (drop 1 (hm_Body hm))"
    using u h by (auto simp: UnmarshalAuthenticatorRequest_def and_then_Inr_iff Let_def split: if_splits)
  have m: "MarshalExtensions (ar_Extensions r) = Inr (drop (1 + ?n) (hm_Body hm))" using extensions.enc_dec [OF d(3)] by auto
  have len: "length (ar_Context r) = ?n" using d(2,5) by simp
  have "\<not> 255 < ?n" using byte_less [of "hm_Body hm ! 0"] by linarith
  moreover have "\<lparr>hm_Type = hm_Type hm, hm_Body = [char_of ?n] @ ar_Context r @ drop (1 + ?n) (hm_Body hm)\<rparr> = hm"
    using length_prefix [OF d(2)] d(5) by (metis handshake_message.surjective old.unit.exhaust)
  ultimately have "MarshalRequest r = MarshalHandshakeMessage hm"
    unfolding MarshalRequest_def len d(4) m using d(1) by simp
  then show "\<exists>b0. MarshalRequest r = Inr b0 \<and> b = b0 @ rest" using handshake.enc_dec [OF h] by simp
qed

section \<open>Certificate messages\<close>

lemma parse_list_payload: "list_payload es = Inr b \<Longrightarrow> parse_entries b = Inr es"
proof (induction es arbitrary: b)
  case Nil
  then show ?case by (simp add: parse_entries.simps)
next
  case (Cons e es)
  then obtain v bs where d: "en_CertDER e \<noteq> []" "length (en_CertDER e) \<le> 16777215" "MarshalExtensions (en_Extensions e) = Inr v"
      "list_payload es = Inr bs" "b = put_uint24 (word_of_nat (length (en_CertDER e))) @ en_CertDER e @ v @ bs"
    by (auto simp: entry_bytes_def and_then_Inr_iff split: if_splits)
  have "UnmarshalExtensions (v @ bs) = Inr (en_Extensions e, bs)" by (rule extensions.dec_enc [OF d(3)])
  then show ?case
    unfolding d(5) using d(1) Cons.IH [OF d(4)] read_put_uint24 [OF d(2)]
    by (simp add: parse_entries.simps [of "put_uint24 _ @ _"] Let_def)
qed

lemma list_payload_parse: "parse_entries l = Inr es \<Longrightarrow> list_payload es = Inr l"
proof (induction l arbitrary: es rule: parse_entries.induct)
  case (1 l)
  show ?case
  proof (cases "l = []")
    case True
    then show ?thesis using "1.prems" by (simp add: parse_entries.simps)
  next
    case False
    let ?n = "unat (read_uint24 (take 3 l))"
    have d: "3 \<le> length l" "?n \<noteq> 0" "\<not> ?n > length l - 3"
      using "1.prems" False by (auto simp: parse_entries.simps [of l] Let_def split: if_splits)
    then obtain exts rest es' where u: "UnmarshalExtensions (drop (3 + ?n) l) = Inr (exts, rest)" "parse_entries rest = Inr es'"
        "es = \<lparr>en_CertDER = take ?n (drop 3 l), en_Extensions = exts\<rparr> # es'"
      using "1.prems" False by (auto simp: parse_entries.simps [of l] Let_def and_then_Inr_iff split: if_splits sum.splits)
    have ih: "list_payload es' = Inr rest" using "1.IH" [OF False _ refl _ u(1) refl u(2)] d by simp
    obtain v where v: "MarshalExtensions exts = Inr v" "drop (3 + ?n) l = v @ rest" using extensions.enc_dec [OF u(1)] by blast
    have n: "?n \<le> 16777215" "put_uint24 (word_of_nat ?n) = take 3 l" using read_uint24_bound [of "take 3 l"] d(1) by simp_all
    have len: "length (take ?n (drop 3 l)) = ?n" using d by simp
    have "entry_bytes \<lparr>en_CertDER = take ?n (drop 3 l), en_Extensions = exts\<rparr> = Inr (take 3 l @ take ?n (drop 3 l) @ v)"
      unfolding entry_bytes_def certificate_entry.simps len using d(2) n v(1) by simp
    moreover have "l = take 3 l @ take ?n (drop 3 l) @ v @ rest" using take_drop_split [of 3 ?n l] d v(2) by simp
    ultimately show ?thesis using u(3) ih by simp
  qed
qed

lemma whole_handshake: "UnmarshalHandshakeMessage b = Inr (hm, []) \<longleftrightarrow> MarshalHandshakeMessage hm = Inr b"
  using handshake.dec_iff [of b hm "[]"] by auto

interpretation certificate: whole_codec MarshalCertificate UnmarshalCertificateMessage
proof unfold_locales
  fix b m raw
  show "UnmarshalCertificateMessage b = Inr (m, raw) \<longleftrightarrow> MarshalCertificate m = Inr b \<and> raw = b"
  proof
    assume "MarshalCertificate m = Inr b \<and> raw = b"
    then obtain p where d: "length (cm_Context m) \<le> 255" "list_payload (cm_Entries m) = Inr p" "raw = b"
        and h: "MarshalHandshakeMessage \<lparr>hm_Type = HandshakeTypeCertificate,
          hm_Body = [char_of (length (cm_Context m))] @ cm_Context m @ put_uint24 (word_of_nat (length p)) @ p\<rparr> = Inr b"
      by (auto simp: MarshalCertificate_def and_then_Inr_iff split: if_splits)
    have "length p \<le> 16777215" using h by (auto simp: MarshalHandshakeMessage_def split: if_splits)
    have "4 + length (cm_Context m) = length (char_of (length (cm_Context m)) # cm_Context m @ put_uint24 (word_of_nat (length p)))"
      by simp
    moreover have "drop (length (xs @ ys)) (xs @ ys @ zs) = zs" for xs ys zs :: bytes by simp
    ultimately have "drop (4 + length (cm_Context m)) (char_of (length (cm_Context m)) # cm_Context m @ put_uint24 (word_of_nat (length p)) @ p) = p"
      by (metis append_Cons)
    with \<open>length p \<le> 16777215\<close> parse_list_payload [OF d(2)] d(1,3) h iffD2 [OF whole_handshake h] show "UnmarshalCertificateMessage b = Inr (m, raw)"
      by (simp add: UnmarshalCertificateMessage_def Let_def read_put_uint24)
  next
    assume u: "UnmarshalCertificateMessage b = Inr (m, raw)"
    obtain hm where h: "UnmarshalHandshakeMessage b = Inr (hm, [])" "hm_Type hm = HandshakeTypeCertificate"
      using u by (auto simp: UnmarshalCertificateMessage_def and_then_Inr_iff Let_def split: if_splits)
    let ?n = "byte (hm_Body hm ! 0)"
    let ?k = "unat (read_uint24 (take 3 (drop (1 + ?n) (hm_Body hm))))"
    have g: "\<not> length (hm_Body hm) < 1 + ?n + 3" "length (hm_Body hm) = 1 + ?n + 3 + ?k"
      "and_then (parse_entries (drop (1 + ?n + 3) (hm_Body hm))) (\<lambda>es.
         Inr (\<lparr>cm_Context = take ?n (drop 1 (hm_Body hm)), cm_Entries = es\<rparr>,
           case MarshalHandshakeMessage hm of Inl _ \<Rightarrow> [] | Inr raw \<Rightarrow> raw)) = Inr (m, raw)"
      using u unfolding UnmarshalCertificateMessage_def h and_then_simps Let_def prod.case guard_Inr_iff by blast+
    have d: "1 + ?n + 3 \<le> length (hm_Body hm)" "1 + ?n + 3 + ?k = length (hm_Body hm)"
        "parse_entries (drop (1 + ?n + 3) (hm_Body hm)) = Inr (cm_Entries m)" "cm_Context m = take ?n (drop 1 (hm_Body hm))"
        "raw = (case MarshalHandshakeMessage hm of Inl _ \<Rightarrow> [] | Inr raw \<Rightarrow> raw)"
      using g(1) g(2) [symmetric] g(3) by (auto simp: and_then_Inr_iff)
    have m: "MarshalHandshakeMessage hm = Inr b" using h(1) whole_handshake by simp
    have p: "list_payload (cm_Entries m) = Inr (drop (1 + ?n + 3) (hm_Body hm))" by (rule list_payload_parse [OF d(3)])
    have len: "length (cm_Context m) = ?n" "length (drop (1 + ?n + 3) (hm_Body hm)) = ?k" using d(1,2,4) by simp_all
    have k: "put_uint24 (word_of_nat ?k) = take 3 (drop (1 + ?n) (hm_Body hm))"
      using read_uint24_bound [of "take 3 (drop (1 + ?n) (hm_Body hm))"] d(1) by simp
    have "hm_Body hm = [char_of ?n] @ cm_Context m @ drop (1 + ?n) (hm_Body hm)"
      using length_prefix [of "hm_Body hm"] d(1,4) by simp
    also have "drop (1 + ?n) (hm_Body hm) = put_uint24 (word_of_nat ?k) @ drop (1 + ?n + 3) (hm_Body hm)"
      unfolding k by (metis append_take_drop_id drop_drop add.commute)
    finally have "\<lparr>hm_Type = HandshakeTypeCertificate, hm_Body = [char_of ?n] @ cm_Context m @ put_uint24 (word_of_nat ?k) @ drop (1 + ?n + 3) (hm_Body hm)\<rparr> = hm"
      using h(2) by (metis handshake_message.surjective old.unit.exhaust)
    moreover have "\<not> 255 < ?n" using byte_less [of "hm_Body hm ! 0"] by linarith
    ultimately show "MarshalCertificate m = Inr b \<and> raw = b"
      unfolding MarshalCertificate_def len(1) p using m len(2) d(5) by simp
  qed
qed

interpretation certificate_verify: whole_codec MarshalCertificateVerify UnmarshalCertificateVerifyMessage
proof unfold_locales
  fix b m raw
  show "UnmarshalCertificateVerifyMessage b = Inr (m, raw) \<longleftrightarrow> MarshalCertificateVerify m = Inr b \<and> raw = b"
  proof
    assume "MarshalCertificateVerify m = Inr b \<and> raw = b"
    then have d: "length (cv_Signature m) \<le> 65535" "raw = b" and h: "MarshalHandshakeMessage \<lparr>hm_Type = HandshakeTypeCertificateVerify,
        hm_Body = put_uint16 (cv_Algorithm m) @ put_uint16 (word_of_nat (length (cv_Signature m))) @ cv_Signature m\<rparr> = Inr b"
      by (auto simp: MarshalCertificateVerify_def split: if_splits)
    from h d unat_length16 [OF d(1)] iffD2 [OF whole_handshake h] show "UnmarshalCertificateVerifyMessage b = Inr (m, raw)"
      by (simp add: UnmarshalCertificateVerifyMessage_def Let_def)
  next
    assume u: "UnmarshalCertificateVerifyMessage b = Inr (m, raw)"
    obtain hm where h: "UnmarshalHandshakeMessage b = Inr (hm, [])" "hm_Type hm = HandshakeTypeCertificateVerify"
      using u by (auto simp: UnmarshalCertificateVerifyMessage_def and_then_Inr_iff Let_def split: if_splits)
    let ?n = "unat (read_uint16 (take 2 (drop 2 (hm_Body hm))))"
    have g: "length (hm_Body hm) = 4 + ?n" and
        "Inr (\<lparr>cv_Algorithm = read_uint16 (take 2 (hm_Body hm)), cv_Signature = drop 4 (hm_Body hm)\<rparr>,
           case MarshalHandshakeMessage hm of Inl _ \<Rightarrow> [] | Inr raw \<Rightarrow> raw) = (Inr (m, raw) :: ea_error + _)"
      using u unfolding UnmarshalCertificateVerifyMessage_def h and_then_simps Let_def prod.case guard_Inr_iff by blast+
    then have d: "4 + ?n = length (hm_Body hm)" "m = \<lparr>cv_Algorithm = read_uint16 (take 2 (hm_Body hm)), cv_Signature = drop 4 (hm_Body hm)\<rparr>"
        "raw = (case MarshalHandshakeMessage hm of Inl _ \<Rightarrow> [] | Inr raw \<Rightarrow> raw)"
      by (simp_all only: sum.inject prod.inject)
    have m: "MarshalHandshakeMessage hm = Inr b" using h(1) whole_handshake by simp
    have "length (drop 4 (hm_Body hm)) = ?n" using d(1) by simp
    moreover have "\<not> 65535 < ?n" using read_uint16_bound [of "take 2 (drop 2 (hm_Body hm))"] by simp
    ultimately have len: "length (drop 4 (hm_Body hm)) = ?n" "\<not> 65535 < ?n" .
    have "hm_Body hm = take 2 (hm_Body hm) @ take 2 (drop 2 (hm_Body hm)) @ drop 4 (hm_Body hm)"
      using take_drop_split [of 2 2 "hm_Body hm"] d(1) by simp
    then have "\<lparr>hm_Type = HandshakeTypeCertificateVerify, hm_Body = take 2 (hm_Body hm) @ take 2 (drop 2 (hm_Body hm)) @ drop 4 (hm_Body hm)\<rparr> = hm"
      using h(2) by (metis handshake_message.surjective old.unit.exhaust)
    then show "MarshalCertificateVerify m = Inr b \<and> raw = b"
      unfolding MarshalCertificateVerify_def d(2) certificate_verify_message.simps len(1)
      using len(2) m d(1,3) by (simp add: put_read_uint16)
  qed
qed

interpretation finished: whole_codec MarshalFinished UnmarshalFinishedMessage
proof unfold_locales
  fix b m raw
  have eta: "\<lparr>hm_Type = t, hm_Body = hm_Body hm\<rparr> = hm" if "hm_Type hm = t" for hm t using that by auto
  show "UnmarshalFinishedMessage b = Inr (m, raw) \<longleftrightarrow> MarshalFinished m = Inr b \<and> raw = b"
    by (auto simp: UnmarshalFinishedMessage_def MarshalFinished_def and_then_Inr_iff whole_handshake eta split: if_splits)
qed

end
