(* ===== verification/EA_Attestation.thy ===== *)
theory EA_Attestation
  imports EA_Wire
begin

text \<open>
  The TLS side of exported authenticators and the attestation payload: \<^verbatim>\<open>exporters.go\<close>, \<^verbatim>\<open>util.go\<close> and
  \<^verbatim>\<open>sigscheme.go\<close> of \<^verbatim>\<open>pkg/atls/ea\<close>, the signatures of \<^verbatim>\<open>certverify.go\<close>, and package
  \<^verbatim>\<open>pkg/atls/eaattestation\<close>. Parameters: the exporter of the TLS connection (a field of the connection state), and in
  \<open>ea_lib\<close> the hash functions SHA-384 and SHA-512, the signature primitives, the X.509 parser and encoder, the JSON
  codec of a payload and the ASN.1 decoder of an object identifier. SHA-256 and HMAC are concrete.
\<close>

section \<open>The TLS connection\<close>

definition VersionTLS13 :: uint16 where
  "VersionTLS13 = 772"

definition RoleClient :: uint8 where
  "RoleClient = 1"

definition RoleServer :: uint8 where
  "RoleServer = 2"

datatype crypto_hash = HashSHA256 | HashSHA384

fun hash_size :: "crypto_hash \<Rightarrow> nat" where
  "hash_size HashSHA256 = 32"
| "hash_size HashSHA384 = 48"

text \<open>\<open>cs_export label context length\<close> is \<^verbatim>\<open>ExportKeyingMaterial\<close>; no context is the nil slice.\<close>

record connection_state =
  cs_Version :: uint16
  cs_CipherSuite :: uint16
  cs_export :: "string \<Rightarrow> bytes option \<Rightarrow> nat \<Rightarrow> bytes option"

definition AuthenticatorHashTLS13 :: "uint16 \<Rightarrow> ea_error + crypto_hash" where
  "AuthenticatorHashTLS13 suite =
     (if suite = 4865 \<or> suite = 4867 then Inr HashSHA256
      else if suite = 4866 then Inr HashSHA384
      else Inl ErrUnknownCipherSuite)"

definition export_material :: "connection_state \<Rightarrow> string \<Rightarrow> ea_error + bytes \<times> crypto_hash" where
  "export_material st label =
     (if cs_Version st \<noteq> VersionTLS13 then Inl ErrNotTLS13
      else and_then (AuthenticatorHashTLS13 (cs_CipherSuite st)) (\<lambda>h.
        case cs_export st label None (hash_size h) of None \<Rightarrow> Inl ErrExporter | Some out \<Rightarrow> Inr (out, h)))"

definition ExportHandshakeContext :: "connection_state \<Rightarrow> uint8 \<Rightarrow> ea_error + bytes \<times> crypto_hash" where
  "ExportHandshakeContext st role =
     export_material st (if role = RoleServer then ''EXPORTER-server authenticator handshake context''
       else ''EXPORTER-client authenticator handshake context'')"

definition ExportFinishedKey :: "connection_state \<Rightarrow> uint8 \<Rightarrow> ea_error + bytes \<times> crypto_hash" where
  "ExportFinishedKey st role =
     export_material st (if role = RoleServer then ''EXPORTER-server authenticator finished key''
       else ''EXPORTER-client authenticator finished key'')"

section \<open>Library parameters\<close>

datatype private_key = EcdsaPrivate string bytes | RsaPrivate bytes | Ed25519Private bytes | OtherPrivate
datatype public_key = EcdsaPublic bytes | RsaPublic bytes | Ed25519Public bytes | OtherPublic
datatype sig_alg = SigECDSA | SigRSAPSS | SigEd25519

record certificate =
  ce_PublicKey :: public_key
  ce_RawSubjectPublicKeyInfo :: bytes

record attestation_binder =
  ab_ExporterLabel :: string
  ab_AIKPubHash :: bytes
  ab_Binding :: bytes

record payload =
  py_Version :: int
  py_MediaType :: string
  py_Evidence :: bytes
  py_AttestationResults :: bytes
  py_Binder :: attestation_binder

record ea_lib =
  el_sha384 :: "bytes \<Rightarrow> bytes"
  el_sha512 :: "bytes \<Rightarrow> bytes"
  el_sign :: "sig_alg \<Rightarrow> private_key \<Rightarrow> bytes \<Rightarrow> bytes option"
  el_verify :: "sig_alg \<Rightarrow> public_key \<Rightarrow> bytes \<Rightarrow> bytes \<Rightarrow> bool"
  el_parse_certificate :: "bytes \<Rightarrow> certificate option"
  el_marshal_pkix :: "public_key \<Rightarrow> bytes option"
  el_payload :: "bytes \<Rightarrow> payload option"
  el_encode_payload :: "payload \<Rightarrow> bytes option"
  el_oid :: "bytes \<Rightarrow> nat list option"

section \<open>Hashes\<close>

fun hash_fun :: "ea_lib \<Rightarrow> crypto_hash \<Rightarrow> bytes \<Rightarrow> bytes" where
  "hash_fun L HashSHA256 m = sha256 m"
| "hash_fun L HashSHA384 m = el_sha384 L m"

definition hash_concat :: "ea_lib \<Rightarrow> crypto_hash \<Rightarrow> bytes list \<Rightarrow> bytes" where
  "hash_concat L h chunks = hash_fun L h (concat (filter (\<lambda>c. c \<noteq> []) chunks))"

fun hash_block :: "crypto_hash \<Rightarrow> nat" where
  "hash_block HashSHA256 = 64"
| "hash_block HashSHA384 = 128"

definition xor_pad :: "uint8 \<Rightarrow> bytes \<Rightarrow> bytes" where
  "xor_pad v = map (\<lambda>c. char_of (unat (word_of_nat (byte c) XOR v)))"

text \<open>\<^verbatim>\<open>crypto/hmac\<close>.\<close>

definition hmac_sum :: "ea_lib \<Rightarrow> crypto_hash \<Rightarrow> bytes \<Rightarrow> bytes \<Rightarrow> bytes" where
  "hmac_sum L h key data =
     (let k = (if length key > hash_block h then hash_fun L h key else key);
        k' = k @ replicate (hash_block h - length k) (char_of (0 :: nat)) in
      hash_fun L h (xor_pad 92 k' @ hash_fun L h (xor_pad 54 k' @ data)))"

section \<open>Signature schemes\<close>

definition ECDSAWithP256AndSHA256 :: uint16 where
  "ECDSAWithP256AndSHA256 = 1027"

definition PSSWithSHA256 :: uint16 where
  "PSSWithSHA256 = 2052"

definition Ed25519 :: uint16 where
  "Ed25519 = 2055"

definition signature_scheme_info :: "uint16 \<Rightarrow> ea_error + sig_alg" where
  "signature_scheme_info s =
     (if s = ECDSAWithP256AndSHA256 then Inr SigECDSA
      else if s = PSSWithSHA256 then Inr SigRSAPSS
      else if s = Ed25519 then Inr SigEd25519
      else Inl ErrUnsupportedSignatureScheme)"

text \<open>\<open>P-256\<close> keys for ECDSA, and any key of the other two algorithms.\<close>

fun key_fits :: "private_key \<Rightarrow> sig_alg \<Rightarrow> bool" where
  "key_fits (EcdsaPrivate curve k) SigECDSA = (curve = ''P-256'')"
| "key_fits (RsaPrivate k) SigRSAPSS = True"
| "key_fits (Ed25519Private k) SigEd25519 = True"
| "key_fits _ _ = False"

definition scheme_compat :: "private_key \<Rightarrow> uint16 \<Rightarrow> bool" where
  "scheme_compat priv s = (case signature_scheme_info s of Inl _ \<Rightarrow> False | Inr alg \<Rightarrow> key_fits priv alg)"

definition choose_signature_scheme :: "private_key \<Rightarrow> uint16 list \<Rightarrow> ea_error + uint16" where
  "choose_signature_scheme priv offered =
     (if offered \<noteq> [] then
        (case find (scheme_compat priv) offered of None \<Rightarrow> Inl ErrUnsupportedSignatureScheme | Some s \<Rightarrow> Inr s)
      else if key_fits priv SigECDSA then Inr ECDSAWithP256AndSHA256
      else if key_fits priv SigRSAPSS then Inr PSSWithSHA256
      else if key_fits priv SigEd25519 then Inr Ed25519
      else Inl ErrUnsupportedSignatureScheme)"

definition cert_verify_input :: "bytes \<Rightarrow> bytes" where
  "cert_verify_input th = replicate 64 (char_of (32 :: nat)) @ ''Exported Authenticator'' @ [char_of (0 :: nat)] @ th"

text \<open>ECDSA and RSA-PSS sign the digest of the input (both schemes use SHA-256), Ed25519 the input.\<close>

fun signed_text :: "sig_alg \<Rightarrow> bytes \<Rightarrow> bytes" where
  "signed_text SigECDSA m = sha256 m"
| "signed_text SigRSAPSS m = sha256 m"
| "signed_text SigEd25519 m = m"

fun private_for :: "sig_alg \<Rightarrow> private_key \<Rightarrow> bool" where
  "private_for SigECDSA (EcdsaPrivate curve k) = True"
| "private_for SigRSAPSS (RsaPrivate k) = True"
| "private_for SigEd25519 (Ed25519Private k) = True"
| "private_for _ _ = False"

fun public_for :: "sig_alg \<Rightarrow> public_key \<Rightarrow> bool" where
  "public_for SigECDSA (EcdsaPublic k) = True"
| "public_for SigRSAPSS (RsaPublic k) = True"
| "public_for SigEd25519 (Ed25519Public k) = True"
| "public_for _ _ = False"

definition sign_cert_verify :: "ea_lib \<Rightarrow> private_key \<Rightarrow> uint16 \<Rightarrow> bytes \<Rightarrow> ea_error + bytes" where
  "sign_cert_verify L priv scheme th =
     and_then (signature_scheme_info scheme) (\<lambda>alg.
       if \<not> private_for alg priv then Inl ErrUnsupportedSignatureScheme
       else case el_sign L alg priv (signed_text alg (cert_verify_input th)) of None \<Rightarrow> Inl ErrSigner | Some sig \<Rightarrow> Inr sig)"

definition verify_cert_verify :: "ea_lib \<Rightarrow> public_key \<Rightarrow> uint16 \<Rightarrow> bytes \<Rightarrow> bytes \<Rightarrow> ea_error + unit" where
  "verify_cert_verify L pub scheme th sig =
     and_then (signature_scheme_info scheme) (\<lambda>alg.
       if \<not> public_for alg pub then Inl ErrUnsupportedSignatureScheme
       else if \<not> el_verify L alg pub (signed_text alg (cert_verify_input th)) sig then Inl ErrSignatureMismatch
       else Inr ())"

section \<open>Attestation payloads\<close>

definition ExporterLabelAttestation :: string where
  "ExporterLabelAttestation = ''Attestation''"

record evidence_binding =
  eb_ReportData :: bytes
  eb_Nonce :: bytes
  eb_Binding :: bytes
  eb_ExportedValue :: bytes

record verified_payload =
  vp_Payload :: payload
  vp_EvidenceVerified :: bool
  vp_ResultsVerified :: bool
  vp_BindingVerified :: bool
  vp_UsedExporterLabel :: string
  vp_Binding :: evidence_binding

record verification_policy =
  po_EvidenceVerifier :: "(bytes \<Rightarrow> evidence_binding \<Rightarrow> bool) option"
  po_ResultsVerifier :: "(bytes \<Rightarrow> evidence_binding \<Rightarrow> bool) option"

definition RequiresAttestation :: "verification_policy \<Rightarrow> bool" where
  "RequiresAttestation p \<longleftrightarrow> po_EvidenceVerifier p \<noteq> None \<or> po_ResultsVerifier p \<noteq> None"

definition validate_payload :: "payload \<Rightarrow> ea_error + unit" where
  "validate_payload p =
     (if py_Evidence p = [] \<and> py_AttestationResults p = [] then Inl ErrMissingStatement
      else if ab_AIKPubHash (py_Binder p) = [] \<or> ab_Binding (py_Binder p) = [] then Inl ErrMissingBinder
      else Inr ())"

definition verify_exporter_label :: "payload \<Rightarrow> string \<Rightarrow> ea_error + unit" where
  "verify_exporter_label p expected =
     (if ab_ExporterLabel (py_Binder p) \<noteq> [] \<and> ab_ExporterLabel (py_Binder p) \<noteq> expected then Inl ErrUnexpectedExporterLabel
      else Inr ())"

definition NormalizedExporterLabel :: "payload \<Rightarrow> string \<Rightarrow> string" where
  "NormalizedExporterLabel p defaultLabel = (if ab_ExporterLabel (py_Binder p) = [] then defaultLabel else ab_ExporterLabel (py_Binder p))"

definition MarshalPayload :: "ea_lib \<Rightarrow> payload \<Rightarrow> ea_error + bytes" where
  "MarshalPayload L p =
     and_then (validate_payload p) (\<lambda>_.
       case el_encode_payload L (if py_Version p = 0 then p\<lparr>py_Version := 1\<rparr> else p) of
         None \<Rightarrow> Inl ErrEncoding
       | Some b \<Rightarrow> Inr b)"

definition ParsePayload :: "ea_lib \<Rightarrow> bytes \<Rightarrow> ea_error + payload" where
  "ParsePayload L raw =
     (if raw = [] then Inl ErrMalformedPayload
      else case el_payload L raw of
        None \<Rightarrow> Inl ErrMalformedPayload
      | Some p \<Rightarrow> and_then (validate_payload p) (\<lambda>_. Inr p))"

definition ExportAttestationValue :: "connection_state \<Rightarrow> string \<Rightarrow> bytes \<Rightarrow> ea_error + bytes \<times> crypto_hash" where
  "ExportAttestationValue st label context =
     (if cs_Version st \<noteq> VersionTLS13 then Inl ErrNotTLS13
      else and_then (AuthenticatorHashTLS13 (cs_CipherSuite st)) (\<lambda>h.
        case cs_export st label (Some context) 32 of None \<Rightarrow> Inl ErrExporter | Some out \<Rightarrow> Inr (out, h)))"

definition PublicKeyBytes :: "ea_lib \<Rightarrow> certificate \<Rightarrow> ea_error + bytes" where
  "PublicKeyBytes L leaf =
     (if ce_RawSubjectPublicKeyInfo leaf \<noteq> [] then Inr (ce_RawSubjectPublicKeyInfo leaf)
      else case el_marshal_pkix L (ce_PublicKey leaf) of None \<Rightarrow> Inl ErrCertificate | Some b \<Rightarrow> Inr b)"

definition ComputeBinding ::
    "ea_lib \<Rightarrow> connection_state \<Rightarrow> string \<Rightarrow> bytes \<Rightarrow> certificate \<Rightarrow> ea_error + bytes \<times> bytes \<times> bytes" where
  "ComputeBinding L st label context leaf =
     and_then (ExportAttestationValue st label context) (\<lambda>(exported, h).
       and_then (PublicKeyBytes L leaf) (\<lambda>pub.
         Inr (exported, hash_fun L h pub, hash_fun L h (pub @ exported))))"

definition verify_binder_values :: "bytes \<Rightarrow> bytes \<Rightarrow> attestation_binder \<Rightarrow> ea_error + unit" where
  "verify_binder_values aik bound b =
     (if aik \<noteq> ab_AIKPubHash b then Inl ErrAIKPubHashMismatch
      else if bound \<noteq> ab_Binding b then Inl ErrBindingMismatch
      else Inr ())"

text \<open>A statement that is present is checked by its verifier, which must be configured.\<close>

definition check_statement ::
    "bytes \<Rightarrow> (bytes \<Rightarrow> evidence_binding \<Rightarrow> bool) option \<Rightarrow> ea_error \<Rightarrow> evidence_binding \<Rightarrow> ea_error + bool" where
  "check_statement s verifier missing b =
     (if s = [] then Inr False
      else case verifier of
        None \<Rightarrow> Inl missing
      | Some v \<Rightarrow> if v s b then Inr True else Inl ErrVerifier)"

definition VerifyPayload ::
    "ea_lib \<Rightarrow> connection_state \<Rightarrow> string \<Rightarrow> bytes \<Rightarrow> certificate \<Rightarrow> payload \<Rightarrow> verification_policy \<Rightarrow> ea_error + verified_payload" where
  "VerifyPayload L st label context leaf p policy =
     and_then (validate_payload p) (\<lambda>_.
       and_then (verify_exporter_label p label) (\<lambda>_.
         and_then (ComputeBinding L st label context leaf) (\<lambda>(exported, aik, bound).
           and_then (verify_binder_values aik bound (py_Binder p)) (\<lambda>_.
             let b = \<lparr>eb_ReportData = el_sha512 L bound, eb_Nonce = sha256 exported, eb_Binding = bound, eb_ExportedValue = exported\<rparr> in
             and_then (check_statement (py_Evidence p) (po_EvidenceVerifier policy) ErrEvidenceVerificationMissing b) (\<lambda>ev.
               and_then (check_statement (py_AttestationResults p) (po_ResultsVerifier policy) ErrResultsVerificationMissing b) (\<lambda>re.
                 Inr \<lparr>vp_Payload = p, vp_EvidenceVerified = ev, vp_ResultsVerified = re, vp_BindingVerified = True,
                   vp_UsedExporterLabel = label, vp_Binding = b\<rparr>))))))"

definition VerifyBinder :: "ea_lib \<Rightarrow> connection_state \<Rightarrow> string \<Rightarrow> bytes \<Rightarrow> certificate \<Rightarrow> attestation_binder \<Rightarrow> ea_error + unit" where
  "VerifyBinder L st label context leaf b =
     and_then (ComputeBinding L st label context leaf) (\<lambda>(exported, aik, bound). verify_binder_values aik bound b)"

end
