(* ===== verification/EA_Model.thy ===== *)
theory EA_Model
  imports EA_Attestation
begin

text \<open>
  Package \<^verbatim>\<open>pkg/atls/ea\<close>: the request's extensions of \<^verbatim>\<open>request.go\<close>, \<^verbatim>\<open>cmw_attestation.go\<close>, \<^verbatim>\<open>policy.go\<close>,
  \<^verbatim>\<open>session.go\<close>, and the creation and validation of authenticators of \<^verbatim>\<open>authenticator.go\<close>. An operation on a
  session returns the session and the result; a nil session remembers nothing.
\<close>

section \<open>Extensions of a request\<close>

definition SignatureAlgorithmsExtensionType :: uint16 where
  "SignatureAlgorithmsExtensionType = 13"

definition CertificateAuthoritiesExtensionType :: uint16 where
  "CertificateAuthoritiesExtensionType = 47"

definition OIDFiltersExtensionType :: uint16 where
  "OIDFiltersExtensionType = 48"

definition SignatureAlgorithmsCertExtensionType :: uint16 where
  "SignatureAlgorithmsCertExtensionType = 50"

fun uint16_list :: "bytes \<Rightarrow> uint16 list" where
  "uint16_list (a # b # bs) = read_uint16 [a, b] # uint16_list bs"
| "uint16_list _ = []"

text \<open>The first extension of the type decides.\<close>

fun parse_signature_schemes_extension :: "extension list \<Rightarrow> uint16 \<Rightarrow> uint16 list option" where
  "parse_signature_schemes_extension [] typ = None"
| "parse_signature_schemes_extension (e # es) typ =
     (if ex_Type e \<noteq> typ then parse_signature_schemes_extension es typ
      else if length (ex_Data e) < 2 then None
      else let vecLen = unat (read_uint16 (take 2 (ex_Data e))) in
        if vecLen < 2 \<or> vecLen mod 2 \<noteq> 0 \<or> length (ex_Data e) \<noteq> 2 + vecLen then None
        else Some (uint16_list (drop 2 (ex_Data e))))"

definition SignatureSchemes :: "authenticator_request \<Rightarrow> uint16 list option" where
  "SignatureSchemes r = parse_signature_schemes_extension (ar_Extensions r) SignatureAlgorithmsExtensionType"

definition SignatureSchemesCert :: "authenticator_request \<Rightarrow> uint16 list option" where
  "SignatureSchemesCert r = parse_signature_schemes_extension (ar_Extensions r) SignatureAlgorithmsCertExtensionType"

definition marshal_signature_schemes_extension :: "uint16 \<Rightarrow> uint16 list \<Rightarrow> ea_error + extension" where
  "marshal_signature_schemes_extension typ schemes =
     (if length schemes = 0 then Inl ErrInvalidLength
      else if length schemes > 32767 then Inl ErrInvalidLength
      else Inr \<lparr>ex_Type = typ, ex_Data = put_uint16 (word_of_nat (2 * length schemes)) @ concat (map put_uint16 schemes)\<rparr>)"

function parse_names :: "bytes \<Rightarrow> bytes list option" where
  "parse_names d =
     (if d = [] then Some []
      else if length d < 2 then None
      else let l = unat (read_uint16 (take 2 d)) in
        if l = 0 \<or> l > length d - 2 then None
        else map_option (\<lambda>ns. take l (drop 2 d) # ns) (parse_names (drop (2 + l) d)))"
  by pat_completeness auto
termination
  by (relation "measure length") auto

declare parse_names.simps [simp del]

fun certificate_authorities :: "extension list \<Rightarrow> bytes list option" where
  "certificate_authorities [] = None"
| "certificate_authorities (e # es) =
     (if ex_Type e \<noteq> CertificateAuthoritiesExtensionType then certificate_authorities es
      else if length (ex_Data e) < 2 then None
      else let total = unat (read_uint16 (take 2 (ex_Data e))) in
        if total < 3 \<or> length (ex_Data e) \<noteq> 2 + total then None
        else parse_names (drop 2 (ex_Data e)))"

function parse_filters :: "ea_lib \<Rightarrow> bytes \<Rightarrow> (nat list \<times> bytes) list option" where
  "parse_filters L d =
     (if d = [] then Some []
      else let oidLen = byte (d ! 0); d1 = drop 1 d in
        if oidLen = 0 \<or> oidLen > length d1 then None
        else case el_oid L (take oidLen d1) of
          None \<Rightarrow> None
        | Some oid \<Rightarrow>
            let d2 = drop oidLen d1 in
            if length d2 < 2 then None
            else let valLen = unat (read_uint16 (take 2 d2)); d3 = drop 2 d2 in
              if valLen > length d3 then None
              else map_option (\<lambda>fs. (oid, take valLen d3) # fs) (parse_filters L (drop valLen d3)))"
  by pat_completeness auto
termination
  by (relation "measure (length \<circ> snd)") auto

declare parse_filters.simps [simp del]

fun oid_filters :: "ea_lib \<Rightarrow> extension list \<Rightarrow> (nat list \<times> bytes) list option" where
  "oid_filters L [] = None"
| "oid_filters L (e # es) =
     (if ex_Type e \<noteq> OIDFiltersExtensionType then oid_filters L es
      else if length (ex_Data e) < 2 then None
      else let total = unat (read_uint16 (take 2 (ex_Data e))) in
        if length (ex_Data e) \<noteq> 2 + total then None
        else parse_filters L (drop 2 (ex_Data e)))"

section \<open>Attestation extension and policies\<close>

definition CMWAttestationExtensionType :: uint16 where
  "CMWAttestationExtensionType = 65280"

definition CMWAttestationOfferExtension :: extension where
  "CMWAttestationOfferExtension = \<lparr>ex_Type = CMWAttestationExtensionType, ex_Data = []\<rparr>"

definition CMWAttestationDataExtension :: "bytes \<Rightarrow> ea_error + extension" where
  "CMWAttestationDataExtension cmw =
     (if length cmw = 0 \<or> length cmw > 65535 - 2 then Inl ErrInvalidLength
      else Inr \<lparr>ex_Type = CMWAttestationExtensionType, ex_Data = put_uint16 (word_of_nat (length cmw)) @ cmw\<rparr>)"

text \<open>No such extension is \<open>Inr None\<close>.\<close>

fun ExtractCMWAttestation :: "extension list \<Rightarrow> ea_error + bytes option" where
  "ExtractCMWAttestation [] = Inr None"
| "ExtractCMWAttestation (e # es) =
     (if ex_Type e \<noteq> CMWAttestationExtensionType then ExtractCMWAttestation es
      else if length (ex_Data e) < 2 then Inl ErrInvalidLength
      else let l = unat (read_uint16 (take 2 (ex_Data e))) in
        if l = 0 \<or> l \<noteq> length (ex_Data e) - 2 then Inl ErrInvalidLength
        else Inr (Some (drop 2 (ex_Data e))))"

fun cmw_placement :: "nat \<Rightarrow> certificate_entry list \<Rightarrow> ea_error + unit" where
  "cmw_placement i [] = Inr ()"
| "cmw_placement i (entry # es) =
     (if list_ex (\<lambda>x. ex_Type x = CMWAttestationExtensionType \<and> i \<noteq> 0) (en_Extensions entry) then Inl ErrBadRequest
      else cmw_placement (Suc i) es)"

record spontaneous_policy =
  sp_AllowedSignatureSchemes :: "uint16 list"
  sp_AllowedCertificateExtensions :: "uint16 list"

definition RequestPermitsCertificateExtension :: "authenticator_request option \<Rightarrow> uint16 \<Rightarrow> bool" where
  "RequestPermitsCertificateExtension req typ =
     (case req of None \<Rightarrow> False | Some r \<Rightarrow> list_ex (\<lambda>e. ex_Type e = typ) (ar_Extensions r))"

definition PolicyPermitsCertificateExtension :: "spontaneous_policy option \<Rightarrow> uint16 \<Rightarrow> bool" where
  "PolicyPermitsCertificateExtension policy typ =
     (case policy of None \<Rightarrow> False | Some p \<Rightarrow> list_ex (\<lambda>a. a = typ) (sp_AllowedCertificateExtensions p))"

definition policy_permits_signature_scheme :: "spontaneous_policy option \<Rightarrow> uint16 \<Rightarrow> bool" where
  "policy_permits_signature_scheme policy scheme =
     (case policy of
        None \<Rightarrow> True
      | Some p \<Rightarrow> sp_AllowedSignatureSchemes p = [] \<or> list_ex (\<lambda>a. a = scheme) (sp_AllowedSignatureSchemes p))"

definition validate_entry_extensions ::
    "extension list \<Rightarrow> authenticator_request option \<Rightarrow> spontaneous_policy option \<Rightarrow> ea_error + unit" where
  "validate_entry_extensions exts req policy =
     (if list_all (\<lambda>e. if req \<noteq> None then RequestPermitsCertificateExtension req (ex_Type e)
        else PolicyPermitsCertificateExtension policy (ex_Type e)) exts
      then Inr () else Inl ErrBadRequest)"

section \<open>Sessions\<close>

type_synonym session = "bytes list option"

definition NewSession :: session where
  "NewSession = Some []"

definition MarkContextUsed :: "session \<Rightarrow> bytes \<Rightarrow> ea_error + session" where
  "MarkContextUsed s ctx =
     (case s of
        None \<Rightarrow> Inr None
      | Some used \<Rightarrow> if ctx \<in> set used then Inl ErrContextReuse else Inr (Some (ctx # used)))"

section \<open>Creating an authenticator\<close>

record identity =
  id_Certificate :: "bytes list"
  id_PrivateKey :: "private_key option"

text \<open>The encoded request, the offered schemes and the context, which is empty here without a request.\<close>

definition request_parts :: "authenticator_request option \<Rightarrow> ea_error + bytes \<times> uint16 list \<times> bytes" where
  "request_parts req =
     (case req of
        None \<Rightarrow> Inr ([], [], [])
      | Some r \<Rightarrow> and_then (MarshalRequest r) (\<lambda>reqBytes.
          case SignatureSchemes r of
            None \<Rightarrow> Inl ErrBadRequest
          | Some schemes \<Rightarrow> Inr (reqBytes, schemes, ar_Context r)))"

definition NewRandomContext :: "nat \<Rightarrow> bytes option \<Rightarrow> ea_error + bytes" where
  "NewRandomContext n random =
     (if n = 0 \<or> n > 255 then Inl ErrInvalidLength
      else case random of None \<Rightarrow> Inl ErrRandom | Some b \<Rightarrow> Inr b)"

definition certificate_entries :: "bytes list \<Rightarrow> extension list \<Rightarrow> certificate_entry list" where
  "certificate_entries ders leafExts =
     (case ders of
        [] \<Rightarrow> []
      | der # rest \<Rightarrow> \<lparr>en_CertDER = der, en_Extensions = leafExts\<rparr> # map (\<lambda>d. \<lparr>en_CertDER = d, en_Extensions = []\<rparr>) rest)"

text \<open>Everything before the context is marked: the context and the bytes of the authenticator.\<close>

definition build_authenticator ::
    "ea_lib \<Rightarrow> connection_state \<Rightarrow> uint8 \<Rightarrow> authenticator_request option \<Rightarrow> spontaneous_policy option \<Rightarrow> identity \<Rightarrow>
      extension list \<Rightarrow> bytes option \<Rightarrow> ea_error + bytes \<times> bytes" where
  "build_authenticator L st role req policy idn leafExts random =
     (if cs_Version st \<noteq> VersionTLS13 then Inl ErrNotTLS13
      else if req = None \<and> role \<noteq> RoleServer then Inl ErrInvalidRole
      else and_then (validate_entry_extensions leafExts req policy) (\<lambda>_.
        let empty = (id_Certificate idn = [] \<and> id_PrivateKey idn = None) in
        if \<not> empty \<and> (id_Certificate idn = [] \<or> id_PrivateKey idn = None) then Inl ErrBadRequest
        else and_then (request_parts req) (\<lambda>(reqBytes, offered, reqCtx).
          and_then (if req = None then NewRandomContext 32 random else Inr reqCtx) (\<lambda>ctx.
          and_then (ExportHandshakeContext st role) (\<lambda>(hsCtx, h).
          and_then (ExportFinishedKey st role) (\<lambda>(fk, _).
            if empty then
              (if req = None then Inl ErrBadRequest
               else and_then (MarshalCertificate \<lparr>cm_Context = ctx, cm_Entries = []\<rparr>) (\<lambda>certBytes.
                 and_then (MarshalFinished \<lparr>fi_VerifyData = hmac_sum L h fk (hash_concat L h [hsCtx, reqBytes, certBytes])\<rparr>) (\<lambda>finBytes.
                   Inr (ctx, finBytes))))
            else and_then (choose_signature_scheme (the (id_PrivateKey idn)) offered) (\<lambda>scheme.
              if req = None \<and> \<not> policy_permits_signature_scheme policy scheme then Inl ErrUnsupportedSignatureScheme
              else and_then (MarshalCertificate \<lparr>cm_Context = ctx, cm_Entries = certificate_entries (id_Certificate idn) leafExts\<rparr>) (\<lambda>certBytes.
                and_then (sign_cert_verify L (the (id_PrivateKey idn)) scheme (hash_concat L h [hsCtx, reqBytes, certBytes])) (\<lambda>sig.
                  and_then (MarshalCertificateVerify \<lparr>cv_Algorithm = scheme, cv_Signature = sig\<rparr>) (\<lambda>cvBytes.
                    and_then (MarshalFinished \<lparr>fi_VerifyData = hmac_sum L h fk (hash_concat L h [hsCtx, reqBytes, certBytes, cvBytes])\<rparr>) (\<lambda>finBytes.
                      Inr (ctx, certBytes @ cvBytes @ finBytes))))))))))))"

definition create_authenticator ::
    "ea_lib \<Rightarrow> session \<Rightarrow> connection_state \<Rightarrow> uint8 \<Rightarrow> authenticator_request option \<Rightarrow> spontaneous_policy option \<Rightarrow> identity \<Rightarrow>
      extension list \<Rightarrow> bytes option \<Rightarrow> session \<times> (ea_error + bytes)" where
  "create_authenticator L s st role req policy idn leafExts random =
     (case build_authenticator L st role req policy idn leafExts random of
        Inl e \<Rightarrow> (s, Inl e)
      | Inr (ctx, out) \<Rightarrow> (case MarkContextUsed s ctx of Inl e \<Rightarrow> (s, Inl e) | Inr s' \<Rightarrow> (s', Inr out)))"

section \<open>Validating an authenticator\<close>

record validation_result =
  vr_Context :: bytes
  vr_Chain :: "certificate list"
  vr_CMWAttestation :: "bytes option"
  vr_Attestation :: "verified_payload option"
  vr_Empty :: bool

text \<open>What the checks before the context is marked establish: an empty authenticator, or a chain and an attestation.\<close>

datatype checked = CheckedEmpty | CheckedChain "certificate list" "bytes option"

fun parse_chain :: "ea_lib \<Rightarrow> certificate_entry list \<Rightarrow> ea_error + certificate list" where
  "parse_chain L [] = Inr []"
| "parse_chain L (e # es) =
     (case el_parse_certificate L (en_CertDER e) of
        None \<Rightarrow> Inl ErrCertificate
      | Some c \<Rightarrow> and_then (parse_chain L es) (\<lambda>cs. Inr (c # cs)))"

fun check_entries :: "certificate_entry list \<Rightarrow> authenticator_request option \<Rightarrow> spontaneous_policy option \<Rightarrow> ea_error + unit" where
  "check_entries [] req policy = Inr ()"
| "check_entries (e # es) req policy =
     and_then (validate_entry_extensions (en_Extensions e) req policy) (\<lambda>_. check_entries es req policy)"

definition check_empty ::
    "ea_lib \<Rightarrow> crypto_hash \<Rightarrow> bytes \<Rightarrow> bytes \<Rightarrow> bytes \<Rightarrow> bytes \<Rightarrow> authenticator_request option \<Rightarrow> handshake_message \<Rightarrow> bytes \<Rightarrow>
      ea_error + bytes \<times> checked" where
  "check_empty L h hsCtx fk reqBytes reqCtx req firstHm rest =
     (if req = None \<or> rest \<noteq> [] then Inl ErrUnsupportedHandshakeType
      else and_then (UnmarshalFinishedMessage (case MarshalHandshakeMessage firstHm of Inl _ \<Rightarrow> [] | Inr b \<Rightarrow> b)) (\<lambda>(finMsg, _).
        and_then (MarshalCertificate \<lparr>cm_Context = reqCtx, cm_Entries = []\<rparr>) (\<lambda>certBytes.
          if hmac_sum L h fk (hash_concat L h [hsCtx, reqBytes, certBytes]) \<noteq> fi_VerifyData finMsg then Inl ErrFinishedMismatch
          else Inr (reqCtx, CheckedEmpty))))"

text \<open>The checks on the decoded messages, in order; \<open>opts\<close> is the chain verification of \<^verbatim>\<open>verifyOpts\<close>, if any.\<close>

definition check_chain ::
    "ea_lib \<Rightarrow> crypto_hash \<Rightarrow> bytes \<Rightarrow> bytes \<Rightarrow> bytes \<Rightarrow> uint16 list \<Rightarrow> bytes \<Rightarrow> authenticator_request option \<Rightarrow> spontaneous_policy option \<Rightarrow>
      (certificate \<Rightarrow> certificate list \<Rightarrow> bool) option \<Rightarrow> bytes \<Rightarrow> bytes \<Rightarrow> certificate_message \<Rightarrow> certificate_verify_message \<Rightarrow> finished_message \<Rightarrow>
      ea_error + bytes \<times> checked" where
  "check_chain L h hsCtx fk reqBytes offered reqCtx req policy opts certBytes cvBytes certMsg cvMsg finMsg =
     (if req \<noteq> None \<and> cm_Context certMsg \<noteq> reqCtx then Inl ErrContextMismatch
      else if cm_Entries certMsg = [] then Inl ErrUnsupportedHandshakeType
      else and_then (cmw_placement 0 (cm_Entries certMsg)) (\<lambda>_.
        and_then (check_entries (cm_Entries certMsg) req policy) (\<lambda>_.
        and_then (ExtractCMWAttestation (en_Extensions (hd (cm_Entries certMsg)))) (\<lambda>extracted.
          if extracted \<noteq> None \<and> req \<noteq> None \<and> \<not> RequestPermitsCertificateExtension req CMWAttestationExtensionType then Inl ErrBadRequest
          else if extracted \<noteq> None \<and> req = None \<and> \<not> PolicyPermitsCertificateExtension policy CMWAttestationExtensionType then Inl ErrBadRequest
          else and_then (parse_chain L (cm_Entries certMsg)) (\<lambda>chain.
            if req \<noteq> None \<and> \<not> list_ex (\<lambda>s. s = cv_Algorithm cvMsg) offered then Inl ErrUnsupportedSignatureScheme
            else and_then (verify_cert_verify L (ce_PublicKey (hd chain)) (cv_Algorithm cvMsg)
                (hash_concat L h [hsCtx, reqBytes, certBytes]) (cv_Signature cvMsg)) (\<lambda>_.
              if hmac_sum L h fk (hash_concat L h [hsCtx, reqBytes, certBytes, cvBytes]) \<noteq> fi_VerifyData finMsg then Inl ErrFinishedMismatch
              else if (case opts of None \<Rightarrow> False | Some ok \<Rightarrow> \<not> ok (hd chain) (tl chain)) then Inl ErrCertificate
              else Inr (cm_Context certMsg, CheckedChain chain extracted)))))))"

definition check_authenticator ::
    "ea_lib \<Rightarrow> connection_state \<Rightarrow> uint8 \<Rightarrow> authenticator_request option \<Rightarrow> spontaneous_policy option \<Rightarrow> bytes \<Rightarrow>
      (certificate \<Rightarrow> certificate list \<Rightarrow> bool) option \<Rightarrow> ea_error + bytes \<times> checked" where
  "check_authenticator L st role req policy authBytes opts =
     (if cs_Version st \<noteq> VersionTLS13 then Inl ErrNotTLS13
      else and_then (ExportHandshakeContext st role) (\<lambda>(hsCtx, h).
        and_then (ExportFinishedKey st role) (\<lambda>(fk, _).
        and_then (request_parts req) (\<lambda>(reqBytes, offered, reqCtx).
        and_then (UnmarshalHandshakeMessage authBytes) (\<lambda>(firstHm, rest).
          if hm_Type firstHm = HandshakeTypeFinished then check_empty L h hsCtx fk reqBytes reqCtx req firstHm rest
          else if hm_Type firstHm \<noteq> HandshakeTypeCertificate then Inl ErrUnsupportedHandshakeType
          else case UnmarshalHandshakeMessage rest of
            Inl _ \<Rightarrow> Inl ErrUnsupportedHandshakeType
          | Inr (cvHm, rest2) \<Rightarrow>
              if hm_Type cvHm \<noteq> HandshakeTypeCertificateVerify then Inl ErrUnsupportedHandshakeType
              else (case UnmarshalHandshakeMessage rest2 of
                Inl _ \<Rightarrow> Inl ErrInvalidLength
              | Inr (finHm, rest3) \<Rightarrow>
                  if hm_Type finHm \<noteq> HandshakeTypeFinished \<or> rest3 \<noteq> [] then Inl ErrInvalidLength
                  else let certBytes = (case MarshalHandshakeMessage firstHm of Inl _ \<Rightarrow> [] | Inr b \<Rightarrow> b);
                    cvBytes = (case MarshalHandshakeMessage cvHm of Inl _ \<Rightarrow> [] | Inr b \<Rightarrow> b);
                    finBytes = (case MarshalHandshakeMessage finHm of Inl _ \<Rightarrow> [] | Inr b \<Rightarrow> b) in
                  and_then (UnmarshalCertificateMessage certBytes) (\<lambda>(certMsg, _).
                  and_then (UnmarshalCertificateVerifyMessage cvBytes) (\<lambda>(cvMsg, _).
                  and_then (UnmarshalFinishedMessage finBytes) (\<lambda>(finMsg, _).
                    check_chain L h hsCtx fk reqBytes offered reqCtx req policy opts certBytes cvBytes certMsg cvMsg finMsg)))))))))"

definition policy_of :: "verification_policy option \<Rightarrow> verification_policy" where
  "policy_of p = (case p of None \<Rightarrow> \<lparr>po_EvidenceVerifier = None, po_ResultsVerifier = None\<rparr> | Some q \<Rightarrow> q)"

definition finish_validation ::
    "ea_lib \<Rightarrow> connection_state \<Rightarrow> verification_policy option \<Rightarrow> bytes \<Rightarrow> checked \<Rightarrow> ea_error + validation_result" where
  "finish_validation L st attPolicy ctx c =
     (case c of
        CheckedEmpty \<Rightarrow>
          if attPolicy \<noteq> None \<and> RequiresAttestation (the attPolicy) then Inl ErrMissingAttestation
          else Inr \<lparr>vr_Context = ctx, vr_Chain = [], vr_CMWAttestation = None, vr_Attestation = None, vr_Empty = True\<rparr>
      | CheckedChain chain extracted \<Rightarrow>
          (case extracted of
             None \<Rightarrow>
               if RequiresAttestation (policy_of attPolicy) then Inl ErrMissingAttestation
               else Inr \<lparr>vr_Context = ctx, vr_Chain = chain, vr_CMWAttestation = None, vr_Attestation = None, vr_Empty = False\<rparr>
           | Some cmw \<Rightarrow>
               and_then (ParsePayload L cmw) (\<lambda>parsed.
               and_then (VerifyPayload L st ExporterLabelAttestation ctx (hd chain) parsed (policy_of attPolicy)) (\<lambda>verified.
                 Inr \<lparr>vr_Context = ctx, vr_Chain = chain, vr_CMWAttestation = Some cmw, vr_Attestation = Some verified,
                   vr_Empty = False\<rparr>))))"

definition validate_authenticator ::
    "ea_lib \<Rightarrow> session \<Rightarrow> connection_state \<Rightarrow> uint8 \<Rightarrow> authenticator_request option \<Rightarrow> spontaneous_policy option \<Rightarrow>
      verification_policy option \<Rightarrow> bytes \<Rightarrow> (certificate \<Rightarrow> certificate list \<Rightarrow> bool) option \<Rightarrow> session \<times> (ea_error + validation_result)" where
  "validate_authenticator L s st role req policy attPolicy authBytes opts =
     (case check_authenticator L st role req policy authBytes opts of
        Inl e \<Rightarrow> (s, Inl e)
      | Inr (ctx, c) \<Rightarrow>
          (case MarkContextUsed s ctx of
             Inl e \<Rightarrow> (s, Inl e)
           | Inr s' \<Rightarrow> (s', finish_validation L st attPolicy ctx c)))"

end
