(* ===== verification/EA_Properties.thy ===== *)
theory EA_Properties
  imports EA_Codec EA_Model Runs
begin

text \<open>
  Exported authenticators: the wire formats are canonical, what one side creates the other side accepts, a session
  accepts a context once, and a required attestation is bound to the leaf key and the connection.
\<close>

section \<open>Created authenticators\<close>

lemma marshal_types:
  "MarshalCertificate m = Inr b \<Longrightarrow> \<exists>hm. MarshalHandshakeMessage hm = Inr b \<and> hm_Type hm = HandshakeTypeCertificate"
  "MarshalCertificateVerify v = Inr b \<Longrightarrow> \<exists>hm. MarshalHandshakeMessage hm = Inr b \<and> hm_Type hm = HandshakeTypeCertificateVerify"
  "MarshalFinished f = Inr b \<Longrightarrow> \<exists>hm. MarshalHandshakeMessage hm = Inr b \<and> hm_Type hm = HandshakeTypeFinished"
  by (auto simp: MarshalCertificate_def MarshalCertificateVerify_def MarshalFinished_def and_then_Inr_iff split: if_splits)

lemma uint16_list_nonempty: "2 \<le> length d \<Longrightarrow> uint16_list d \<noteq> []"
  by (cases d rule: uint16_list.cases) auto

lemma schemes_nonempty: "parse_signature_schemes_extension es typ = Some s \<Longrightarrow> s \<noteq> []"
  by (induction es) (auto simp: Let_def uint16_list_nonempty split: if_splits)

lemma request_parts_offered:
  "request_parts (Some r) = Inr (reqBytes, offered, reqCtx) \<Longrightarrow> offered \<noteq> [] \<and> reqCtx = ar_Context r \<and> MarshalRequest r = Inr reqBytes"
  by (auto simp: request_parts_def and_then_Inr_iff SignatureSchemes_def dest: schemes_nonempty split: option.splits)

lemma chosen_scheme:
  assumes "choose_signature_scheme priv offered = Inr s"
  shows "\<exists>alg. signature_scheme_info s = Inr alg \<and> key_fits priv alg" and "offered \<noteq> [] \<Longrightarrow> s \<in> set offered"
proof -
  have i: "signature_scheme_info ECDSAWithP256AndSHA256 = Inr SigECDSA" "signature_scheme_info PSSWithSHA256 = Inr SigRSAPSS"
    "signature_scheme_info Ed25519 = Inr SigEd25519"
    by (simp_all add: signature_scheme_info_def ECDSAWithP256AndSHA256_def PSSWithSHA256_def Ed25519_def)
  show "\<exists>alg. signature_scheme_info s = Inr alg \<and> key_fits priv alg"
  proof (cases "offered = []")
    case True
    then show ?thesis using assms i by (auto simp: choose_signature_scheme_def split: if_splits)
  next
    case False
    then have "scheme_compat priv s" using assms by (auto simp: choose_signature_scheme_def find_Some_iff split: option.splits)
    then show ?thesis by (auto simp: scheme_compat_def split: sum.splits)
  qed
  show "offered \<noteq> [] \<Longrightarrow> s \<in> set offered"
    using assms by (auto simp: choose_signature_scheme_def find_Some_iff split: option.splits)
qed

text \<open>A key pair: what the private key signs, the public key of the leaf verifies.\<close>

definition key_pair :: "ea_lib \<Rightarrow> private_key \<Rightarrow> public_key \<Rightarrow> bool" where
  "key_pair L priv pub \<longleftrightarrow> (\<forall>alg m sig. private_for alg priv \<longrightarrow> el_sign L alg priv m = Some sig \<longrightarrow>
     public_for alg pub \<and> el_verify L alg pub m sig)"

lemma sign_verifies:
  assumes "key_pair L priv pub" and "sign_cert_verify L priv scheme th = Inr sig"
  shows "verify_cert_verify L pub scheme th sig = Inr ()"
  using assms by (auto simp: key_pair_def sign_cert_verify_def verify_cert_verify_def and_then_Inr_iff split: option.splits if_splits)

lemma extract_present: "ExtractCMWAttestation es = Inr (Some x) \<Longrightarrow> \<exists>e\<in>set es. ex_Type e = CMWAttestationExtensionType"
  by (induction es) (auto split: if_splits)

lemma entry_permits:
  assumes "validate_entry_extensions es req policy = Inr ()" and "ExtractCMWAttestation es = Inr (Some x)"
  shows "req \<noteq> None \<Longrightarrow> RequestPermitsCertificateExtension req CMWAttestationExtensionType"
    and "req = None \<Longrightarrow> PolicyPermitsCertificateExtension policy CMWAttestationExtensionType"
  using extract_present [OF assms(2)] assms(1) by (auto simp: validate_entry_extensions_def list_all_iff split: if_splits)

lemma built_entries:
  assumes "validate_entry_extensions leafExts req policy = Inr ()"
  shows "check_entries (certificate_entries ders leafExts) req policy = Inr ()"
    and "cmw_placement 0 (certificate_entries ders leafExts) = Inr ()"
proof -
  have n: "validate_entry_extensions [] req policy = Inr ()" by (simp add: validate_entry_extensions_def)
  have "check_entries (map (\<lambda>d. \<lparr>en_CertDER = d, en_Extensions = []\<rparr>) ds) req policy = Inr ()" for ds
    by (induction ds) (simp_all add: n)
  then show "check_entries (certificate_entries ders leafExts) req policy = Inr ()"
    using assms by (simp add: certificate_entries_def split: list.splits)
  have "cmw_placement i (map (\<lambda>d. \<lparr>en_CertDER = d, en_Extensions = []\<rparr>) ds) = Inr ()" for i ds
    by (induction ds arbitrary: i) simp_all
  then show "cmw_placement 0 (certificate_entries ders leafExts) = Inr ()"
    by (auto simp: certificate_entries_def list_ex_iff split: list.splits)
qed

lemma parse_chain_nonempty: "parse_chain L es = Inr chain \<Longrightarrow> es \<noteq> [] \<Longrightarrow> chain \<noteq> []"
  by (cases es) (auto simp: and_then_Inr_iff split: option.splits)

text \<open>The checks accept what the peer built, for the same connection, role, request and policy.\<close>

lemma check_built_empty:
  assumes b: "build_authenticator L st role req policy idn leafExts random = Inr (ctx, out)" and e: "id_Certificate idn = []"
  shows "check_authenticator L st role req policy out opts = Inr (ctx, CheckedEmpty) \<and> req \<noteq> None \<and> ctx = ar_Context (the req)"
proof -
  have p: "id_PrivateKey idn = None" using b e by (auto simp: build_authenticator_def and_then_Inr_iff Let_def split: if_splits)
  obtain reqBytes offered hsCtx h fk h' certBytes where
      st: "cs_Version st = VersionTLS13" and r: "request_parts req = Inr (reqBytes, offered, ctx)" "req \<noteq> None"
      and x: "ExportHandshakeContext st role = Inr (hsCtx, h)" "ExportFinishedKey st role = Inr (fk, h')"
      and c: "MarshalCertificate \<lparr>cm_Context = ctx, cm_Entries = []\<rparr> = Inr certBytes"
      and f: "MarshalFinished \<lparr>fi_VerifyData = hmac_sum L h fk (hash_concat L h [hsCtx, reqBytes, certBytes])\<rparr> = Inr out"
    using b e p by (auto simp: build_authenticator_def and_then_Inr_iff Let_def split: if_splits)
  obtain hm where hm: "MarshalHandshakeMessage hm = Inr out" "hm_Type hm = HandshakeTypeFinished" using marshal_types(3) [OF f] by blast
  have u: "UnmarshalHandshakeMessage out = Inr (hm, [])" using hm(1) whole_handshake by simp
  have uf: "UnmarshalFinishedMessage out = Inr (\<lparr>fi_VerifyData = hmac_sum L h fk (hash_concat L h [hsCtx, reqBytes, certBytes])\<rparr>, out)"
    using finished.whole_iff f by simp
  have "check_empty L h hsCtx fk reqBytes ctx req hm [] = Inr (ctx, CheckedEmpty)"
    using r(2) hm(1) uf c by (simp add: check_empty_def)
  moreover have "ctx = ar_Context (the req)" using r request_parts_offered by auto
  ultimately show ?thesis using st r x u hm(2) by (simp add: check_authenticator_def)
qed

lemma build_chain_parts:
  assumes b: "build_authenticator L st role req policy idn leafExts random = Inr (ctx, out)" and k: "id_PrivateKey idn = Some priv"
  obtains reqBytes offered reqCtx hsCtx h fk h' scheme certBytes sig cvBytes finBytes where
    "cs_Version st = VersionTLS13" and "validate_entry_extensions leafExts req policy = Inr ()"
    and "request_parts req = Inr (reqBytes, offered, reqCtx)" and "req = None \<or> ctx = reqCtx"
    and "ExportHandshakeContext st role = Inr (hsCtx, h)" and "ExportFinishedKey st role = Inr (fk, h')"
    and "choose_signature_scheme priv offered = Inr scheme"
    and "MarshalCertificate \<lparr>cm_Context = ctx, cm_Entries = certificate_entries (id_Certificate idn) leafExts\<rparr> = Inr certBytes"
    and "sign_cert_verify L priv scheme (hash_concat L h [hsCtx, reqBytes, certBytes]) = Inr sig"
    and "MarshalCertificateVerify \<lparr>cv_Algorithm = scheme, cv_Signature = sig\<rparr> = Inr cvBytes"
    and "MarshalFinished \<lparr>fi_VerifyData = hmac_sum L h fk (hash_concat L h [hsCtx, reqBytes, certBytes, cvBytes])\<rparr> = Inr finBytes"
    and "out = certBytes @ cvBytes @ finBytes"
  using b k that by (auto simp: build_authenticator_def and_then_Inr_iff Let_def split: if_splits)

lemma check_built_chain:
  assumes b: "build_authenticator L st role req policy idn leafExts random = Inr (ctx, out)" and k: "id_PrivateKey idn = Some priv"
    and ne: "id_Certificate idn \<noteq> []" and ex: "ExtractCMWAttestation leafExts = Inr extracted"
    and ch: "parse_chain L (certificate_entries (id_Certificate idn) leafExts) = Inr chain" and kp: "key_pair L priv (ce_PublicKey (hd chain))"
    and op: "case opts of None \<Rightarrow> True | Some ok \<Rightarrow> ok (hd chain) (tl chain)"
  shows "check_authenticator L st role req policy out opts = Inr (ctx, CheckedChain chain extracted)"
    and "req \<noteq> None \<Longrightarrow> ctx = ar_Context (the req)"
proof -
  let ?entries = "certificate_entries (id_Certificate idn) leafExts"
  from b k obtain reqBytes offered reqCtx hsCtx h fk h' scheme certBytes sig cvBytes finBytes where
      st: "cs_Version st = VersionTLS13" and v: "validate_entry_extensions leafExts req policy = Inr ()"
      and r: "request_parts req = Inr (reqBytes, offered, reqCtx)" "req = None \<or> ctx = reqCtx"
      and x: "ExportHandshakeContext st role = Inr (hsCtx, h)" "ExportFinishedKey st role = Inr (fk, h')"
      and sc: "choose_signature_scheme priv offered = Inr scheme"
      and cert: "MarshalCertificate \<lparr>cm_Context = ctx, cm_Entries = ?entries\<rparr> = Inr certBytes"
      and sig: "sign_cert_verify L priv scheme (hash_concat L h [hsCtx, reqBytes, certBytes]) = Inr sig"
      and cv: "MarshalCertificateVerify \<lparr>cv_Algorithm = scheme, cv_Signature = sig\<rparr> = Inr cvBytes"
      and fin: "MarshalFinished \<lparr>fi_VerifyData = hmac_sum L h fk (hash_concat L h [hsCtx, reqBytes, certBytes, cvBytes])\<rparr> = Inr finBytes"
      and out: "out = certBytes @ cvBytes @ finBytes"
    by (rule build_chain_parts)
  show ctx: "ctx = ar_Context (the req)" if "req \<noteq> None" using that r request_parts_offered by auto
  have ent: "?entries \<noteq> []" "en_Extensions (hd ?entries) = leafExts"
    using ne by (auto simp: certificate_entries_def split: list.splits)
  have off: "list_ex (\<lambda>s. s = scheme) offered" if "req \<noteq> None"
    using that r(1) request_parts_offered chosen_scheme(2) [OF sc] by (auto simp: list_ex_iff)
  have "check_chain L h hsCtx fk reqBytes offered reqCtx req policy opts certBytes cvBytes
      \<lparr>cm_Context = ctx, cm_Entries = ?entries\<rparr> \<lparr>cv_Algorithm = scheme, cv_Signature = sig\<rparr>
      \<lparr>fi_VerifyData = hmac_sum L h fk (hash_concat L h [hsCtx, reqBytes, certBytes, cvBytes])\<rparr> = Inr (ctx, CheckedChain chain extracted)"
    using r(2) ent built_entries [OF v, of "id_Certificate idn"] ex ch entry_permits [OF v] off sign_verifies [OF kp sig] op
    by (cases req; cases extracted; cases opts) (auto simp: check_chain_def)
  moreover obtain hm1 where h1: "MarshalHandshakeMessage hm1 = Inr certBytes" "hm_Type hm1 = HandshakeTypeCertificate"
    using marshal_types(1) [OF cert] by blast
  moreover obtain hm2 where h2: "MarshalHandshakeMessage hm2 = Inr cvBytes" "hm_Type hm2 = HandshakeTypeCertificateVerify"
    using marshal_types(2) [OF cv] by blast
  moreover obtain hm3 where h3: "MarshalHandshakeMessage hm3 = Inr finBytes" "hm_Type hm3 = HandshakeTypeFinished"
    using marshal_types(3) [OF fin] by blast
  moreover have "UnmarshalHandshakeMessage out = Inr (hm1, cvBytes @ finBytes)" unfolding out by (rule handshake.dec_enc [OF h1(1)])
  moreover have "UnmarshalHandshakeMessage (cvBytes @ finBytes) = Inr (hm2, finBytes)" by (rule handshake.dec_enc [OF h2(1)])
  moreover have "UnmarshalHandshakeMessage finBytes = Inr (hm3, [])" using h3(1) whole_handshake by simp
  moreover have "HandshakeTypeCertificate \<noteq> HandshakeTypeFinished"
    by (simp add: HandshakeTypeCertificate_def HandshakeTypeFinished_def)
  ultimately show "check_authenticator L st role req policy out opts = Inr (ctx, CheckedChain chain extracted)"
    using st r(1) x iffD2 [OF certificate.whole_iff, OF conjI [OF cert refl]]
      iffD2 [OF certificate_verify.whole_iff, OF conjI [OF cv refl]] iffD2 [OF finished.whole_iff, OF conjI [OF fin refl]]
    by (simp add: check_authenticator_def)
qed

section \<open>Sessions\<close>

datatype ea_op =
    CreateOp connection_state uint8 "authenticator_request option" "spontaneous_policy option" identity "extension list" "bytes option"
  | ValidateOp connection_state uint8 "authenticator_request option" "spontaneous_policy option" "verification_policy option" bytes
      "(certificate \<Rightarrow> certificate list \<Rightarrow> bool) option"

fun session_after :: "ea_lib \<Rightarrow> session \<Rightarrow> ea_op \<Rightarrow> session" where
  "session_after L s (CreateOp st role req policy idn leafExts random) = fst (create_authenticator L s st role req policy idn leafExts random)"
| "session_after L s (ValidateOp st role req policy att auth opts) = fst (validate_authenticator L s st role req policy att auth opts)"

definition session_step :: "ea_lib \<Rightarrow> session \<Rightarrow> ea_op \<Rightarrow> session \<Rightarrow> bool" where
  "session_step L s op s' \<longleftrightarrow> s' = session_after L s op"

definition context_used :: "bytes \<Rightarrow> session \<Rightarrow> bool" where
  "context_used ctx s \<longleftrightarrow> (\<exists>used. s = Some used \<and> ctx \<in> set used)"

lemma mark_keeps: "context_used c s \<Longrightarrow> MarkContextUsed s ctx = Inr s' \<Longrightarrow> context_used c s' \<and> ctx \<noteq> c"
  by (auto simp: MarkContextUsed_def context_used_def split: if_splits)

interpretation session_used: preserved "session_step L" "context_used c" for L c
proof unfold_locales
  fix s op s' assume "context_used c s" "session_step L s op s'"
  then show "context_used c s'"
    by (cases op) (auto simp: session_step_def create_authenticator_def validate_authenticator_def split: sum.splits dest: mark_keeps)
qed

lemma finish_context: "finish_validation L st att ctx c = Inr res \<Longrightarrow> vr_Context res = ctx"
  by (auto simp: finish_validation_def and_then_Inr_iff split: checked.splits option.splits if_splits)

lemma validate_marks:
  assumes "validate_authenticator L s st role req policy att auth opts = (s', Inr res)"
  obtains c where "check_authenticator L st role req policy auth opts = Inr (vr_Context res, c)"
    and "MarkContextUsed s (vr_Context res) = Inr s'" and "finish_validation L st att (vr_Context res) c = Inr res"
proof -
  obtain ctx c where c: "check_authenticator L st role req policy auth opts = Inr (ctx, c)" "MarkContextUsed s ctx = Inr s'"
      "finish_validation L st att ctx c = Inr res"
    using assms by (auto simp: validate_authenticator_def split: sum.splits)
  with finish_context [OF c(3)] that show ?thesis by blast
qed

lemma finish_attested:
  assumes "finish_validation L st att ctx c = Inr res" and "att = Some pol" and "RequiresAttestation pol"
  obtains chain cmw p vp where "c = CheckedChain chain (Some cmw)" and "ParsePayload L cmw = Inr p"
    and "VerifyPayload L st ExporterLabelAttestation ctx (hd chain) p pol = Inr vp"
    and "vr_Chain res = chain" and "vr_Attestation res = Some vp" and "vr_CMWAttestation res = Some cmw" and "\<not> vr_Empty res"
  using assms by (auto simp: finish_validation_def policy_of_def and_then_Inr_iff split: checked.splits option.splits if_splits)

lemma check_results:
  "check_empty L h hsCtx fk reqBytes reqCtx req firstHm rest = Inr (ctx, c) \<Longrightarrow> c = CheckedEmpty"
  "check_chain L h hsCtx fk reqBytes offered reqCtx req policy opts certBytes cvBytes certMsg cvMsg finMsg = Inr (ctx, CheckedChain chain ex) \<Longrightarrow> chain \<noteq> []"
  by (auto simp: check_empty_def check_chain_def and_then_Inr_iff dest: parse_chain_nonempty split: if_splits)

lemma check_chain_nonempty: "check_authenticator L st role req policy auth opts = Inr (ctx, CheckedChain chain ex) \<Longrightarrow> chain \<noteq> []"
  by (auto simp: check_authenticator_def and_then_Inr_iff Let_def dest!: check_results split: if_splits sum.splits)

lemma VerifyPayload_Inr:
  assumes "VerifyPayload L st label ctx leaf p pol = Inr vp"
  obtains h pub exported where "AuthenticatorHashTLS13 (cs_CipherSuite st) = Inr h" and "PublicKeyBytes L leaf = Inr pub"
    and "cs_export st label (Some ctx) 32 = Some exported"
    and "ab_AIKPubHash (py_Binder p) = hash_fun L h pub" and "ab_Binding (py_Binder p) = hash_fun L h (pub @ exported)"
    and "eb_Binding (vp_Binding vp) = ab_Binding (py_Binder p)" and "eb_ExportedValue (vp_Binding vp) = exported"
    and "vp_Payload vp = p" and "py_Evidence p \<noteq> [] \<or> py_AttestationResults p \<noteq> []"
    and "py_Evidence p = [] \<or> (\<exists>v. po_EvidenceVerifier pol = Some v \<and> v (py_Evidence p) (vp_Binding vp))"
    and "py_AttestationResults p = [] \<or> (\<exists>v. po_ResultsVerifier pol = Some v \<and> v (py_AttestationResults p) (vp_Binding vp))"
  using assms that
  by (auto simp: VerifyPayload_def ComputeBinding_def ExportAttestationValue_def validate_payload_def verify_binder_values_def
      check_statement_def and_then_Inr_iff Let_def split: if_splits option.splits)

section \<open>Properties\<close>

text \<open>C12. The wire formats of exported authenticators are canonical: each decoder accepts exactly the bytes its encoder
  produces, so a message has one encoding and no trailing or hidden bytes are accepted, at every length.\<close>

theorem wire_formats_canonical:
  "(UnmarshalAuthenticatorRequest b = Inr (r, rest) \<longleftrightarrow> (\<exists>b0. MarshalRequest r = Inr b0 \<and> b = b0 @ rest)) \<and>
   (UnmarshalCertificateMessage b = Inr (m, raw) \<longleftrightarrow> MarshalCertificate m = Inr b \<and> raw = b) \<and>
   (UnmarshalCertificateVerifyMessage b = Inr (v, raw) \<longleftrightarrow> MarshalCertificateVerify v = Inr b \<and> raw = b) \<and>
   (UnmarshalFinishedMessage b = Inr (f, raw) \<longleftrightarrow> MarshalFinished f = Inr b \<and> raw = b)"
  by (simp only: request.dec_iff certificate.whole_iff certificate_verify.whole_iff finished.whole_iff)

text \<open>The context of an authenticator: the request's, or the random bytes drawn for a spontaneous one.\<close>

definition authenticator_context :: "authenticator_request option \<Rightarrow> bytes option \<Rightarrow> bytes" where
  "authenticator_context req random = (case req of None \<Rightarrow> the random | Some r \<Rightarrow> ar_Context r)"

lemma build_context:
  assumes "build_authenticator L st role req policy idn leafExts random = Inr (ctx, out)"
  shows "ctx = authenticator_context req random"
  using assms
  by (auto simp: build_authenticator_def authenticator_context_def request_parts_def NewRandomContext_def and_then_Inr_iff Let_def
      split: if_splits option.splits)

text \<open>What the attestation of an authenticator must amount to: none when none is required, else a payload that verifies.\<close>

definition attestation_accepted ::
    "ea_lib \<Rightarrow> connection_state \<Rightarrow> bytes \<Rightarrow> certificate \<Rightarrow> verification_policy option \<Rightarrow> bytes option \<Rightarrow> verified_payload option \<Rightarrow> bool" where
  "attestation_accepted L st ctx leaf att cmw vp =
     (case cmw of
        None \<Rightarrow> \<not> RequiresAttestation (policy_of att) \<and> vp = None
      | Some raw \<Rightarrow> \<exists>p v. ParsePayload L raw = Inr p \<and>
          VerifyPayload L st ExporterLabelAttestation ctx leaf p (policy_of att) = Inr v \<and> vp = Some v)"

text \<open>C6. What one side creates the other accepts: an authenticator made with at least one certificate and a private key,
  validated on the same connection under the same role, request and policy, is accepted by a session that has not seen
  its context, with that context, the chain of the identity and the attestation it carries, and is refused as a reuse
  by a session that has. Its context is the request's, or the random bytes drawn for it. Provided: the certificates parse,
  the leaf's public key belongs to the private key, the certificate options, if any, accept the chain, and the
  attestation, if any, verifies (one must be present if the policy requires it).\<close>

theorem created_authenticator_validates:
  assumes "create_authenticator L s st role req policy idn leafExts random = (s', Inr out)"
    and "id_PrivateKey idn = Some priv" and "id_Certificate idn \<noteq> []" and "ExtractCMWAttestation leafExts = Inr cmw"
    and "parse_chain L (certificate_entries (id_Certificate idn) leafExts) = Inr chain" and "key_pair L priv (ce_PublicKey (hd chain))"
    and "case opts of None \<Rightarrow> True | Some ok \<Rightarrow> ok (hd chain) (tl chain)"
    and "attestation_accepted L st (authenticator_context req random) (hd chain) att cmw vp"
  shows "validate_authenticator L (Some used) st role req policy att out opts =
    (if authenticator_context req random \<in> set used then (Some used, Inl ErrContextReuse)
     else (Some (authenticator_context req random # used),
       Inr \<lparr>vr_Context = authenticator_context req random, vr_Chain = chain, vr_CMWAttestation = cmw, vr_Attestation = vp, vr_Empty = False\<rparr>))"
proof -
  let ?ctx = "authenticator_context req random"
  obtain ctx where b: "build_authenticator L st role req policy idn leafExts random = Inr (ctx, out)"
    using assms(1) by (auto simp: create_authenticator_def split: sum.splits)
  have ctx: "ctx = ?ctx" by (rule build_context [OF b])
  have c: "check_authenticator L st role req policy out opts = Inr (?ctx, CheckedChain chain cmw)"
    using check_built_chain(1) [OF b assms(2-7)] unfolding ctx .
  have "finish_validation L st att ?ctx (CheckedChain chain cmw) =
      Inr \<lparr>vr_Context = ?ctx, vr_Chain = chain, vr_CMWAttestation = cmw, vr_Attestation = vp, vr_Empty = False\<rparr>"
    using assms(8) by (cases cmw) (auto simp: finish_validation_def attestation_accepted_def)
  with c show ?thesis by (simp add: validate_authenticator_def MarkContextUsed_def)
qed

text \<open>C11. A session accepts a context once: over any sequence of creations and validations on a session, with any
  results, two validations that succeed have different contexts, so no authenticator is accepted twice.\<close>

theorem context_accepted_once:
  assumes "validate_authenticator L (Some used) st1 role1 req1 policy1 att1 auth1 opts1 = (s2, Inr res1)"
    and "run (session_step L) s2 ops s3"
    and "validate_authenticator L s3 st2 role2 req2 policy2 att2 auth2 opts2 = (s4, Inr res2)"
  shows "vr_Context res1 \<noteq> vr_Context res2"
proof -
  have "MarkContextUsed (Some used) (vr_Context res1) = Inr s2" by (rule validate_marks [OF assms(1)])
  then have "context_used (vr_Context res1) s2" by (auto simp: MarkContextUsed_def context_used_def split: if_splits)
  then have "context_used (vr_Context res1) s3" by (rule session_used.run_keeps [OF assms(2)])
  moreover have "MarkContextUsed s3 (vr_Context res2) = Inr s4" by (rule validate_marks [OF assms(3)])
  ultimately show ?thesis using mark_keeps by metis
qed

text \<open>C16. A required attestation cannot be left out or moved: when the policy configures a verifier, an accepted
  authenticator is not empty and carries a payload whose binder is the hash of the leaf's public key together with the
  value exported from this connection for this context, every statement in it was accepted by the configured verifier
  for exactly that binding, and there is at least one.\<close>

theorem required_attestation_bound:
  assumes "validate_authenticator L s st role req policy (Some pol) auth opts = (s', Inr res)" and "RequiresAttestation pol"
  shows "\<not> vr_Empty res \<and> (\<exists>leaf rest vp h pub exported. vr_Chain res = leaf # rest \<and> vr_Attestation res = Some vp \<and>
    AuthenticatorHashTLS13 (cs_CipherSuite st) = Inr h \<and> PublicKeyBytes L leaf = Inr pub \<and>
    cs_export st ExporterLabelAttestation (Some (vr_Context res)) 32 = Some exported \<and>
    ab_Binding (py_Binder (vp_Payload vp)) = hash_fun L h (pub @ exported) \<and>
    eb_Binding (vp_Binding vp) = hash_fun L h (pub @ exported) \<and> eb_ExportedValue (vp_Binding vp) = exported \<and>
    (py_Evidence (vp_Payload vp) \<noteq> [] \<or> py_AttestationResults (vp_Payload vp) \<noteq> []) \<and>
    (py_Evidence (vp_Payload vp) = [] \<or> (\<exists>v. po_EvidenceVerifier pol = Some v \<and> v (py_Evidence (vp_Payload vp)) (vp_Binding vp))) \<and>
    (py_AttestationResults (vp_Payload vp) = [] \<or>
      (\<exists>v. po_ResultsVerifier pol = Some v \<and> v (py_AttestationResults (vp_Payload vp)) (vp_Binding vp))))"
proof -
  obtain c where c: "check_authenticator L st role req policy auth opts = Inr (vr_Context res, c)"
      "finish_validation L st (Some pol) (vr_Context res) c = Inr res"
    using assms(1) by (rule validate_marks)
  obtain chain cmw p vp where a: "c = CheckedChain chain (Some cmw)"
      "VerifyPayload L st ExporterLabelAttestation (vr_Context res) (hd chain) p pol = Inr vp"
      "vr_Chain res = chain" "vr_Attestation res = Some vp" "\<not> vr_Empty res"
    by (rule finish_attested [OF c(2) refl assms(2)])
  have "chain \<noteq> []" using check_chain_nonempty c(1) a(1) by blast
  then obtain leaf rest where l: "chain = leaf # rest" by (cases chain) auto
  from a(2) show ?thesis
    by (rule VerifyPayload_Inr) (use a(3-5) l in auto)
qed

text \<open>The validator never consults the signature schemes a spontaneous policy allows: changing them changes no result.\<close>

theorem validate_ignores_scheme_policy:
  "validate_authenticator L s st role req (Some (p\<lparr>sp_AllowedSignatureSchemes := schemes\<rparr>)) att auth opts =
   validate_authenticator L s st role req (Some p) att auth opts"
proof -
  have p: "PolicyPermitsCertificateExtension (Some (p\<lparr>sp_AllowedSignatureSchemes := schemes\<rparr>)) = PolicyPermitsCertificateExtension (Some p)"
    by (simp add: fun_eq_iff PolicyPermitsCertificateExtension_def)
  have "check_entries es req (Some (p\<lparr>sp_AllowedSignatureSchemes := schemes\<rparr>)) = check_entries es req (Some p)" for es
    by (induction es) (simp_all add: validate_entry_extensions_def p)
  then have "check_chain L h hsCtx fk reqBytes offered reqCtx req (Some (p\<lparr>sp_AllowedSignatureSchemes := schemes\<rparr>)) opts =
      check_chain L h hsCtx fk reqBytes offered reqCtx req (Some p) opts" for h hsCtx fk reqBytes offered reqCtx
    by (simp only: fun_eq_iff check_chain_def p) simp
  then have "check_authenticator L st role req (Some (p\<lparr>sp_AllowedSignatureSchemes := schemes\<rparr>)) auth opts =
      check_authenticator L st role req (Some p) auth opts"
    by (simp only: check_authenticator_def)
  then show ?thesis by (simp add: validate_authenticator_def)
qed

section \<open>An example\<close>

text \<open>A signature is the signed text, a certificate is its own key, the exporter returns the label.\<close>

definition ex_payload :: payload where
  "ex_payload = \<lparr>py_Version = 1, py_MediaType = [], py_Evidence = ''quote'', py_AttestationResults = [],
     py_Binder = \<lparr>ab_ExporterLabel = [], ab_AIKPubHash = sha256 ''leaf'', ab_Binding = sha256 (''leaf'' @ ExporterLabelAttestation)\<rparr>\<rparr>"

definition ex_lib :: ea_lib where
  "ex_lib = \<lparr>el_sha384 = \<lambda>m. m, el_sha512 = \<lambda>m. m, el_sign = \<lambda>alg priv m. Some m, el_verify = \<lambda>alg pub m sig. sig = m,
     el_parse_certificate = \<lambda>der. Some \<lparr>ce_PublicKey = Ed25519Public der, ce_RawSubjectPublicKeyInfo = der\<rparr>,
     el_marshal_pkix = \<lambda>_. None, el_payload = \<lambda>_. Some ex_payload, el_encode_payload = \<lambda>_. None, el_oid = \<lambda>_. None\<rparr>"

definition ex_state :: connection_state where
  "ex_state = \<lparr>cs_Version = VersionTLS13, cs_CipherSuite = 4865, cs_export = \<lambda>label context n. Some label\<rparr>"

definition ex_request :: "bytes \<Rightarrow> authenticator_request" where
  "ex_request c = \<lparr>ar_Type = HandshakeTypeCertificateRequest, ar_Context = c,
     ar_Extensions = [\<lparr>ex_Type = SignatureAlgorithmsExtensionType, ex_Data = put_uint16 2 @ put_uint16 Ed25519\<rparr>, CMWAttestationOfferExtension]\<rparr>"

definition ex_identity :: identity where
  "ex_identity = \<lparr>id_Certificate = [''leaf''], id_PrivateKey = Some (Ed25519Private [])\<rparr>"

definition ex_cmw :: extension where
  "ex_cmw = \<lparr>ex_Type = CMWAttestationExtensionType, ex_Data = put_uint16 3 @ ''cmw''\<rparr>"

definition ex_chain :: "certificate list" where
  "ex_chain = [\<lparr>ce_PublicKey = Ed25519Public ''leaf'', ce_RawSubjectPublicKeyInfo = ''leaf''\<rparr>]"

lemma MarshalHandshakeMessage_ok: "length (hm_Body m) \<le> 16777215 \<Longrightarrow> \<exists>b. MarshalHandshakeMessage m = Inr b"
  by (simp add: MarshalHandshakeMessage_def)

lemma uint16_list_put: "uint16_list (put_uint16 v @ bs) = v # uint16_list bs"
proof -
  have "put_uint16 v = [char_of (unat v div 256), char_of (unat v)]" by (simp add: put_uint16_def numeral_2_eq_2)
  then show ?thesis using read_put_uint16 [of v] by simp
qed

lemma ex_schemes: "SignatureSchemes (ex_request c) = Some [Ed25519]"
  using uint16_list_put [of Ed25519 "[]"] by (simp add: SignatureSchemes_def ex_request_def Let_def)

lemma ex_request_ok: "length c \<le> 255 \<Longrightarrow> \<exists>b. MarshalRequest (ex_request c) = Inr b"
proof -
  assume c: "length c \<le> 255"
  have "MarshalExtensions (ar_Extensions (ex_request c)) =
      Inr (put_uint16 (word_of_nat 12) @ concat (map extension_bytes (ar_Extensions (ex_request c))))"
    unfolding MarshalExtensions_Inr by (simp add: ex_request_def CMWAttestationOfferExtension_def)
  then show ?thesis
    using c MarshalHandshakeMessage_ok
    by (simp add: MarshalRequest_def ex_request_def request_type_def CMWAttestationOfferExtension_def)
qed

lemma ex_build:
  assumes c: "length c \<le> 255" and e: "leafExts = [] \<or> leafExts = [ex_cmw]"
  shows "\<exists>out. build_authenticator ex_lib ex_state RoleServer (Some (ex_request c)) None ex_identity leafExts None = Inr (c, out)"
proof -
  obtain reqBytes where r: "MarshalRequest (ex_request c) = Inr reqBytes" using ex_request_ok [OF c] by blast
  have parts: "request_parts (Some (ex_request c)) = Inr (reqBytes, [Ed25519], c)"
    using r by (simp add: request_parts_def ex_schemes) (simp add: ex_request_def)
  have v: "validate_entry_extensions leafExts (Some (ex_request c)) None = Inr ()"
    using e by (auto simp: validate_entry_extensions_def RequestPermitsCertificateExtension_def ex_request_def ex_cmw_def CMWAttestationOfferExtension_def)
  have x: "\<exists>a. MarshalExtensions leafExts = Inr a \<and> length a \<le> 100"
    using e by (auto simp: MarshalExtensions_Inr ex_cmw_def)
  then obtain certBytes where cert: "MarshalCertificate \<lparr>cm_Context = c, cm_Entries = certificate_entries [''leaf''] leafExts\<rparr> = Inr certBytes"
    using c by (auto simp: MarshalCertificate_def entry_bytes_def certificate_entries_def MarshalHandshakeMessage_def)
  have sc: "choose_signature_scheme (Ed25519Private []) [Ed25519] = Inr Ed25519"
    by (simp add: choose_signature_scheme_def scheme_compat_def signature_scheme_info_def ECDSAWithP256AndSHA256_def PSSWithSHA256_def Ed25519_def)
  have sg: "sign_cert_verify ex_lib (Ed25519Private []) Ed25519 th = Inr (cert_verify_input th)" for th
    by (simp add: sign_cert_verify_def signature_scheme_info_def ECDSAWithP256AndSHA256_def PSSWithSHA256_def Ed25519_def ex_lib_def)
  have cv: "\<exists>b. MarshalCertificateVerify \<lparr>cv_Algorithm = Ed25519, cv_Signature = cert_verify_input (sha256 t)\<rparr> = Inr b" for t
    by (simp add: MarshalCertificateVerify_def MarshalHandshakeMessage_def cert_verify_input_def)
  have fi: "\<exists>b. MarshalFinished \<lparr>fi_VerifyData = hmac_sum ex_lib HashSHA256 k d\<rparr> = Inr b" for k d
  proof -
    have l: "length (hmac_sum ex_lib HashSHA256 k d) = 32" by (simp add: hmac_sum_def Let_def)
    then have "hmac_sum ex_lib HashSHA256 k d \<noteq> []" by auto
    with l show ?thesis by (simp add: MarshalFinished_def MarshalHandshakeMessage_def)
  qed
  have ex: "ExportHandshakeContext ex_state RoleServer = Inr (''EXPORTER-server authenticator handshake context'', HashSHA256)"
    "ExportFinishedKey ex_state RoleServer = Inr (''EXPORTER-server authenticator finished key'', HashSHA256)"
    by (simp_all add: ExportHandshakeContext_def ExportFinishedKey_def export_material_def AuthenticatorHashTLS13_def ex_state_def)
  have st: "cs_Version ex_state = VersionTLS13" "id_Certificate ex_identity = [''leaf'']" "id_PrivateKey ex_identity = Some (Ed25519Private [])"
    by (simp_all add: ex_state_def ex_identity_def)
  have th: "hash_concat ex_lib HashSHA256 cs = sha256 (concat (filter (\<lambda>c. c \<noteq> []) cs))" for cs by (simp add: hash_concat_def)
  obtain cvBytes where cv': "MarshalCertificateVerify \<lparr>cv_Algorithm = Ed25519, cv_Signature = cert_verify_input
      (hash_concat ex_lib HashSHA256 [''EXPORTER-server authenticator handshake context'', reqBytes, certBytes])\<rparr> = Inr cvBytes"
    using cv th by metis
  obtain finBytes where "MarshalFinished \<lparr>fi_VerifyData = hmac_sum ex_lib HashSHA256 ''EXPORTER-server authenticator finished key''
      (hash_concat ex_lib HashSHA256 [''EXPORTER-server authenticator handshake context'', reqBytes, certBytes, cvBytes])\<rparr> = Inr finBytes"
    using fi by blast
  then show ?thesis
    by (simp add: build_authenticator_def v st parts ex sc cert sg cv')
qed

lemma ex_keys: "key_pair ex_lib (Ed25519Private []) (ce_PublicKey (hd ex_chain))"
proof -
  have "public_for alg (Ed25519Public k)" if "private_for alg (Ed25519Private [])" for alg k using that by (cases alg) auto
  then show ?thesis by (auto simp: key_pair_def ex_lib_def ex_chain_def)
qed

lemma ex_parse: "parse_chain ex_lib (certificate_entries (id_Certificate ex_identity) leafExts) = Inr ex_chain"
  by (simp add: certificate_entries_def ex_identity_def ex_lib_def ex_chain_def)

lemma ex_extract: "ExtractCMWAttestation [] = Inr None" "ExtractCMWAttestation [ex_cmw] = Inr (Some ''cmw'')"
  by (simp_all add: ex_cmw_def Let_def)

lemma ex_nonempty: "id_PrivateKey ex_identity = Some (Ed25519Private [])" "id_Certificate ex_identity \<noteq> []"
  by (simp_all add: ex_identity_def)

lemma ex_create:
  assumes "length c \<le> 255" and "leafExts = [] \<or> leafExts = [ex_cmw]"
  shows "\<exists>out. create_authenticator ex_lib None ex_state RoleServer (Some (ex_request c)) None ex_identity leafExts None = (None, Inr out) \<and>
    build_authenticator ex_lib ex_state RoleServer (Some (ex_request c)) None ex_identity leafExts None = Inr (c, out)"
  using ex_build [OF assms] by (auto simp: create_authenticator_def MarkContextUsed_def)

theorem created_authenticator_validates_witness:
  "\<exists>out. create_authenticator ex_lib None ex_state RoleServer (Some (ex_request ''c'')) None ex_identity [] None = (None, Inr out) \<and>
     key_pair ex_lib (Ed25519Private []) (ce_PublicKey (hd ex_chain)) \<and>
     validate_authenticator ex_lib (Some [''b'']) ex_state RoleServer (Some (ex_request ''c'')) None None out None =
       (Some [''c'', ''b''], Inr \<lparr>vr_Context = ''c'', vr_Chain = ex_chain, vr_CMWAttestation = None, vr_Attestation = None, vr_Empty = False\<rparr>)"
proof -
  obtain out where out: "create_authenticator ex_lib None ex_state RoleServer (Some (ex_request ''c'')) None ex_identity [] None = (None, Inr out)"
    using ex_create [of "''c''" "[]"] by auto
  have "attestation_accepted ex_lib ex_state (authenticator_context (Some (ex_request ''c'')) None) (hd ex_chain) None None None"
    by (simp add: attestation_accepted_def policy_of_def RequiresAttestation_def)
  from created_authenticator_validates [OF out ex_nonempty ex_extract(1) ex_parse ex_keys _ this, of None "[''b'']"] out ex_keys show ?thesis
    by (auto simp: authenticator_context_def ex_request_def)
qed

lemma ex_validates:
  assumes "length c \<le> 255" and "c \<notin> set used"
  shows "\<exists>out. validate_authenticator ex_lib (Some used) ex_state RoleServer (Some (ex_request c)) None None out None =
    (Some (c # used), Inr \<lparr>vr_Context = c, vr_Chain = ex_chain, vr_CMWAttestation = None, vr_Attestation = None, vr_Empty = False\<rparr>)"
proof -
  obtain out where b: "build_authenticator ex_lib ex_state RoleServer (Some (ex_request c)) None ex_identity [] None = Inr (c, out)"
    using ex_create [OF assms(1), of "[]"] by auto
  have "check_authenticator ex_lib ex_state RoleServer (Some (ex_request c)) None out None = Inr (c, CheckedChain ex_chain None)"
    using check_built_chain(1) [OF b ex_nonempty ex_extract(1) ex_parse ex_keys, of None] by simp
  then show ?thesis
    using assms(2)
    by (intro exI [of _ out]) (simp add: validate_authenticator_def MarkContextUsed_def finish_validation_def policy_of_def RequiresAttestation_def)
qed

theorem context_accepted_once_witness:
  "\<exists>out1 out2 res1 res2. validate_authenticator ex_lib (Some []) ex_state RoleServer (Some (ex_request ''a'')) None None out1 None = (Some [''a''], Inr res1) \<and>
     validate_authenticator ex_lib (Some [''a'']) ex_state RoleServer (Some (ex_request ''b'')) None None out2 None = (Some [''b'', ''a''], Inr res2) \<and>
     vr_Context res1 \<noteq> vr_Context res2"
proof -
  obtain out1 res1 where v1: "validate_authenticator ex_lib (Some []) ex_state RoleServer (Some (ex_request ''a'')) None None out1 None = (Some [''a''], Inr res1)"
    using ex_validates [of "''a''" "[]"] by auto
  obtain out2 res2 where v2: "validate_authenticator ex_lib (Some [''a'']) ex_state RoleServer (Some (ex_request ''b'')) None None out2 None = (Some [''b'', ''a''], Inr res2)"
    using ex_validates [of "''b''" "[''a'']"] by auto
  from context_accepted_once [OF v1 run_Nil v2] v1 v2 show ?thesis by blast
qed

definition ex_policy :: verification_policy where
  "ex_policy = \<lparr>po_EvidenceVerifier = Some (\<lambda>ev b. ev = ''quote'' \<and> eb_Binding b = sha256 (''leaf'' @ ExporterLabelAttestation)), po_ResultsVerifier = None\<rparr>"

lemma ex_payload_verified: "\<exists>vp. VerifyPayload ex_lib ex_state ExporterLabelAttestation c (hd ex_chain) ex_payload ex_policy = Inr vp"
proof -
  have "sha256 m \<noteq> []" for m using length_sha256 [of m] by (metis list.size(3) zero_neq_numeral)
  then show ?thesis
    by (simp add: VerifyPayload_def validate_payload_def verify_exporter_label_def ComputeBinding_def ExportAttestationValue_def
        AuthenticatorHashTLS13_def PublicKeyBytes_def verify_binder_values_def check_statement_def ex_payload_def ex_policy_def ex_chain_def ex_state_def)
qed

theorem required_attestation_bound_witness:
  "\<exists>out res. validate_authenticator ex_lib (Some []) ex_state RoleServer (Some (ex_request ''c'')) None (Some ex_policy) out None = (Some [''c''], Inr res) \<and>
     RequiresAttestation ex_policy \<and> \<not> vr_Empty res \<and> (\<exists>vp. vr_Attestation res = Some vp)"
proof -
  obtain out where b: "build_authenticator ex_lib ex_state RoleServer (Some (ex_request ''c'')) None ex_identity [ex_cmw] None = Inr (''c'', out)"
    using ex_create [of "''c''" "[ex_cmw]"] by auto
  have c: "check_authenticator ex_lib ex_state RoleServer (Some (ex_request ''c'')) None out None = Inr (''c'', CheckedChain ex_chain (Some ''cmw''))"
    using check_built_chain(1) [OF b ex_nonempty ex_extract(2) ex_parse ex_keys, of None] by simp
  have "ParsePayload ex_lib ''cmw'' = Inr ex_payload"
    using length_sha256 by (auto simp: ParsePayload_def ex_lib_def validate_payload_def ex_payload_def simp flip: length_0_conv)
  then obtain res where v: "validate_authenticator ex_lib (Some []) ex_state RoleServer (Some (ex_request ''c'')) None (Some ex_policy) out None = (Some [''c''], Inr res)"
    using c ex_payload_verified [of "''c''"] by (auto simp: validate_authenticator_def MarkContextUsed_def finish_validation_def policy_of_def)
  have p: "RequiresAttestation ex_policy" by (simp add: RequiresAttestation_def ex_policy_def)
  from required_attestation_bound [OF v p] v p show ?thesis by blast
qed

end
