(* ===== verification/Agent_Machine.thy ===== *)
theory Agent_Machine
  imports Runs
begin

text \<open>
  Package \<^verbatim>\<open>agent/statemachine\<close>: the state machine behind the agent service, as the interleaving of its locked
  sections. \<^verbatim>\<open>Reset\<close> replaces both channels, so a channel is known by the number of resets before it was made, and one
  of an earlier generation is closed. Receiving from a closed channel yields the nil event, sending on it panics.
  The loop of \<^verbatim>\<open>Start\<close> is at the top, waiting on the channels it read, about to look up the event it received, about
  to store the next state, or has returned an error of its own or that of its context.
\<close>

section \<open>The machine\<close>

record ('s, 'e) machine =
  mc_currentState :: 's
  mc_transitions :: "'s \<Rightarrow> 'e \<Rightarrow> 's option"
  mc_actions :: "'s \<Rightarrow> bool"
  mc_generation :: nat
  mc_started :: "'s list"

definition NewStateMachine :: "'s \<Rightarrow> ('s, 'e) machine" where
  "NewStateMachine s0 = \<lparr>mc_currentState = s0, mc_transitions = (\<lambda>_ _. None), mc_actions = (\<lambda>_. False), mc_generation = 0, mc_started = []\<rparr>"

definition AddTransition :: "('s, 'e) machine \<Rightarrow> 's \<Rightarrow> 'e \<Rightarrow> 's \<Rightarrow> ('s, 'e) machine" where
  "AddTransition m from ev to = m\<lparr>mc_transitions := (mc_transitions m)(from := (mc_transitions m from)(ev := Some to))\<rparr>"

definition SetAction :: "('s, 'e) machine \<Rightarrow> 's \<Rightarrow> bool \<Rightarrow> ('s, 'e) machine" where
  "SetAction m s present = m\<lparr>mc_actions := (mc_actions m)(s := present)\<rparr>"

definition ResetMachine :: "('s, 'e) machine \<Rightarrow> 's \<Rightarrow> ('s, 'e) machine" where
  "ResetMachine m s0 = m\<lparr>mc_currentState := s0, mc_generation := mc_generation m + 1\<rparr>"

text \<open>The two locked sections of \<^verbatim>\<open>handleEvent\<close>: look up the next state (nil has none), then store it and start its action.\<close>

definition next_state :: "('s, 'e) machine \<Rightarrow> 'e option \<Rightarrow> 's option" where
  "next_state m ev = (case ev of None \<Rightarrow> None | Some e \<Rightarrow> mc_transitions m (mc_currentState m) e)"

definition store_state :: "('s, 'e) machine \<Rightarrow> 's \<Rightarrow> ('s, 'e) machine" where
  "store_state m s = m\<lparr>mc_currentState := s, mc_started := (if mc_actions m s then [s] else []) @ mc_started m\<rparr>"

datatype send_result = Delivered | Ignored | SendPanics

text \<open>The second half of \<^verbatim>\<open>SendEvent\<close>, on the channel of generation \<open>g\<close> that its first half read.\<close>

definition send_event :: "('s, 'e) machine \<Rightarrow> nat \<Rightarrow> bool \<Rightarrow> send_result" where
  "send_event m g receiver = (if g < mc_generation m then SendPanics else if receiver then Delivered else Ignored)"

section \<open>Interleavings\<close>

datatype ('s, 'e) loop = LoopTop | LoopSelect nat | LoopHandle "'e option" | LoopStore 's | LoopFailed | LoopCancelled

datatype ('s, 'e) label = Capture | Receive "'e option" | Woken | Cancelled | Lookup | Store
  | DoReset 's | DoAdd 's 'e 's | DoSet 's bool

type_synonym ('s, 'e) config = "('s, 'e) machine \<times> ('s, 'e) loop"

inductive start_step :: "('s, 'e) config \<Rightarrow> ('s, 'e) label \<Rightarrow> ('s, 'e) config \<Rightarrow> bool" where
  capture: "start_step (m, LoopTop) Capture (m, LoopSelect (mc_generation m))"
| receive: "g = mc_generation m \<Longrightarrow> start_step (m, LoopSelect g) (Receive (Some e)) (m, LoopHandle (Some e))"
| receive_closed: "g < mc_generation m \<Longrightarrow> start_step (m, LoopSelect g) (Receive None) (m, LoopHandle None)"
| woken: "g < mc_generation m \<Longrightarrow> start_step (m, LoopSelect g) Woken (m, LoopTop)"
| cancelled: "start_step (m, LoopSelect g) Cancelled (m, LoopCancelled)"
| lookup: "next_state m ev = Some s \<Longrightarrow> start_step (m, LoopHandle ev) Lookup (m, LoopStore s)"
| lookup_invalid: "next_state m ev = None \<Longrightarrow> start_step (m, LoopHandle ev) Lookup (m, LoopFailed)"
| store: "start_step (m, LoopStore s) Store (store_state m s, LoopTop)"
| reset: "start_step (m, l) (DoReset s0) (ResetMachine m s0, l)"
| add: "start_step (m, l) (DoAdd a ev b) (AddTransition m a ev b, l)"
| set: "start_step (m, l) (DoSet s present) (SetAction m s present, l)"

inductive_cases start_stepE [elim!]: "start_step (m, l) a c"

section \<open>Following the transitions\<close>

text \<open>The events a run received, and the states a fixed table leads through.\<close>

fun received :: "('s, 'e) label list \<Rightarrow> 'e list" where
  "received [] = []"
| "received (Receive (Some e) # as) = e # received as"
| "received (_ # as) = received as"

fun follow :: "('s \<Rightarrow> 'e \<Rightarrow> 's option) \<Rightarrow> 's \<Rightarrow> 'e list \<Rightarrow> 's option" where
  "follow T s [] = Some s"
| "follow T s (e # es) = (case T s e of None \<Rightarrow> None | Some s' \<Rightarrow> follow T s' es)"

fun quiet :: "('s, 'e) label \<Rightarrow> bool" where
  "quiet (DoReset s) = False"
| "quiet (DoAdd a e b) = False"
| "quiet _ = True"

text \<open>The state a loop is heading for: the stored one, the one about to be stored, or the one the event in hand leads
  to, and none when the loop has failed or is about to.\<close>

fun heading :: "('s, 'e) config \<Rightarrow> 's option" where
  "heading (m, LoopHandle ev) = next_state m ev"
| "heading (m, LoopStore s) = Some s"
| "heading (m, LoopFailed) = None"
| "heading (m, _) = Some (mc_currentState m)"

text \<open>Without resets, the channels the loop waits on are the open ones.\<close>

fun open_select :: "('s, 'e) config \<Rightarrow> bool" where
  "open_select (m, LoopSelect g) = (g = mc_generation m)"
| "open_select _ = True"

lemma step_follows:
  assumes "start_step c a c'" and "quiet a" and "open_select c"
  shows "open_select c' \<and> mc_transitions (fst c') = mc_transitions (fst c) \<and>
    heading c' = Option.bind (heading c) (\<lambda>s. follow (mc_transitions (fst c)) s (received [a]))"
  using assms
  by (cases rule: start_step.cases)
    (auto simp: store_state_def next_state_def SetAction_def split: option.splits elim!: open_select.elims)

lemma received_Cons: "received (a # as) = received [a] @ received as"
  by (cases "(a # as)" rule: received.cases) auto

lemma follow_append: "follow T s (xs @ ys) = Option.bind (follow T s xs) (\<lambda>s'. follow T s' ys)"
  by (induction xs arbitrary: s) (auto split: option.splits)

lemma run_follows:
  "run start_step c as c' \<Longrightarrow> list_all quiet as \<Longrightarrow> open_select c \<Longrightarrow>
     heading c' = Option.bind (heading c) (\<lambda>s. follow (mc_transitions (fst c)) s (received as))"
proof (induction rule: run.induct)
  case (run_Nil c)
  then show ?case by simp
next
  case (run_Cons c a c1 as c2)
  have q: "quiet a" "list_all quiet as" using run_Cons.prems by simp_all
  note st = step_follows [OF run_Cons.hyps(1) q(1) run_Cons.prems(2)]
  from run_Cons.IH [OF q(2)] st show ?case
    by (simp add: received_Cons [of a as] follow_append)
qed

text \<open>C31. While no one resets or extends it, the machine follows its table: after any interleaving of the loop of
  \<^verbatim>\<open>Start\<close> with the setting of actions, the state the loop has stored, is about to store or is about to look up is the
  one the received events lead to from where it began, and the loop has failed, or will at its next step, exactly when
  the table has no transition for them.\<close>

theorem start_follows_transitions:
  assumes "run start_step (m, LoopTop) as (m', l)" and "list_all quiet as"
  shows "follow (mc_transitions m) (mc_currentState m) (received as) =
    (case l of LoopFailed \<Rightarrow> None | LoopHandle ev \<Rightarrow> next_state m' ev | LoopStore s \<Rightarrow> Some s | _ \<Rightarrow> Some (mc_currentState m'))"
  using run_follows [OF assms] by (cases l) auto

text \<open>Two states and one event.\<close>

definition mx_machine :: "(nat, nat) machine" where
  "mx_machine = AddTransition (NewStateMachine 0) 0 7 1"

theorem start_follows_transitions_witness:
  "run start_step (mx_machine, LoopTop) [Capture, Receive (Some 7), Lookup, Store] (store_state mx_machine 1, LoopTop) \<and>
   follow (mc_transitions mx_machine) 0 [7] = Some 1"
proof -
  have "next_state mx_machine (Some 7) = Some 1" by (simp add: next_state_def mx_machine_def AddTransition_def NewStateMachine_def)
  then have r: "run start_step (mx_machine, LoopTop) [Capture, Receive (Some 7), Lookup, Store] (store_state mx_machine 1, LoopTop)"
    by (blast intro: start_step.intros)
  have "mc_currentState mx_machine = 0" by (simp add: mx_machine_def AddTransition_def NewStateMachine_def)
  then show ?thesis using start_follows_transitions [OF r] r by (simp add: store_state_def)
qed

section \<open>Races with Reset\<close>

text \<open>
  A reset closes the event channel the loop is waiting on. The loop may then receive the nil event instead of the
  reset signal, for which no machine has a transition: \<^verbatim>\<open>Start\<close> returns an error and the machine is dead.
\<close>

theorem reset_may_stop_loop:
  "run start_step (m, LoopTop) [Capture, DoReset s0, Receive None, Lookup] (ResetMachine m s0, LoopFailed)"
proof -
  have "start_step (ResetMachine m s0, LoopSelect (mc_generation m)) (Receive None) (ResetMachine m s0, LoopHandle None)"
    "start_step (ResetMachine m s0, LoopHandle None) Lookup (ResetMachine m s0, LoopFailed)"
    by (intro start_step.intros; simp add: ResetMachine_def next_state_def)+
  then show ?thesis by (blast intro: start_step.intros)
qed

text \<open>A reset between the two locked sections of \<^verbatim>\<open>handleEvent\<close> is overwritten by the old next state.\<close>

theorem reset_may_be_lost:
  assumes "next_state m (Some e) = Some s"
  shows "\<exists>m'. run start_step (m, LoopTop) [Capture, Receive (Some e), Lookup, DoReset s0, Store] (m', LoopTop) \<and> mc_currentState m' = s"
proof -
  have "run start_step (m, LoopTop) [Capture, Receive (Some e), Lookup, DoReset s0, Store] (store_state (ResetMachine m s0) s, LoopTop)"
    using assms by (blast intro: start_step.intros)
  moreover have "mc_currentState (store_state (ResetMachine m s0) s) = s" by (simp add: store_state_def)
  ultimately show ?thesis by (intro exI conjI)
qed

text \<open>An event received before a reset may be looked up after it, in the state the reset set.\<close>

theorem event_may_cross_reset:
  assumes "mc_transitions m s0 e = Some s"
  shows "run start_step (m, LoopTop) [Capture, Receive (Some e), DoReset s0, Lookup] (ResetMachine m s0, LoopStore s)"
proof -
  have "start_step (ResetMachine m s0, LoopHandle (Some e)) Lookup (ResetMachine m s0, LoopStore s)"
    using assms by (intro start_step.lookup) (simp add: ResetMachine_def next_state_def)
  then show ?thesis by (blast intro: start_step.intros)
qed

text \<open>A sender that read the channel before a reset panics when it sends after it.\<close>

theorem send_after_reset_panics: "send_event (ResetMachine m s0) (mc_generation m) receiver = SendPanics"
  by (simp add: send_event_def ResetMachine_def)

end
