(* ===== verification/Digest_Domains.thy ===== *)
theory Digest_Domains
  imports Action_Validation Quorum_Model Capability_Model
begin

text \<open>
  Which texts the packages hash, and for which purpose: the request digests of durable actions
  (\<^verbatim>\<open>actionlifecycle/canonical.go\<close>, \<^verbatim>\<open>acceptance_canonical.go\<close>), the policy and approval digests, record
  identifiers, tags and proof contexts of authority quorums (\<^verbatim>\<open>authorityquorum/canonical.go\<close>), and the problem, action,
  mandate and capability digests of least privilege (\<^verbatim>\<open>leastprivilege/model.go\<close>, \<^verbatim>\<open>authorization.go\<close>). Every text starts
  with a label of its own: a transcript has its profile as the first string, the other texts a domain with a zero
  byte after it. Only a problem has no domain: it is hashed as it is encoded, and told apart by the brace a JSON object
  starts with. \<open>label\<close> reads the label back.
\<close>

datatype purpose =
    MutationRequest
  | AcceptanceRequest
  | PolicyDigest
  | ApprovalDigest
  | ApprovalID
  | PrincipalTag
  | CredentialTag
  | AuthorizationTag
  | RequestContext
  | ActionDigest
  | MandateDigest
  | CapabilityDigest
  | ProblemDigest

fun purpose_label :: "purpose \<Rightarrow> string" where
  "purpose_label MutationRequest = MutationRequestSchemaV1"
| "purpose_label AcceptanceRequest = AcceptanceRequestSchemaV1"
| "purpose_label PolicyDigest = policy_digest_domain"
| "purpose_label ApprovalDigest = approval_digest_domain"
| "purpose_label ApprovalID = approval_id_domain"
| "purpose_label PrincipalTag = principal_tag_domain"
| "purpose_label CredentialTag = credential_tag_domain"
| "purpose_label AuthorizationTag = authorization_tag_domain"
| "purpose_label RequestContext = request_context_domain"
| "purpose_label ActionDigest = ''asb.least-privilege.action/v1''"
| "purpose_label MandateDigest = ''asb.least-privilege.mandate/v1''"
| "purpose_label CapabilityDigest = ''asb.least-privilege.evidence/v1''"
| "purpose_label ProblemDigest = ''{''"

text \<open>\<open>digested L p m d\<close>: an operation of the packages computes \<open>d\<close> for purpose \<open>p\<close>, and \<open>m\<close> is what it hashes.
  Digests that the code keeps as 32 bytes, or writes without the prefix, are shown in the prefixed form.\<close>

inductive digested :: "authority_lib \<Rightarrow> purpose \<Rightarrow> bytes \<Rightarrow> string \<Rightarrow> bool" for L where
  mutation: "mutation_request_digest v = Inr d \<Longrightarrow> mutation_request_transcript v = Inr m \<Longrightarrow>
    digested L MutationRequest m d"
| acceptance: "acceptance_request_digest a = Inr d \<Longrightarrow> acceptance_request_transcript a = Inr m \<Longrightarrow>
    digested L AcceptanceRequest m d"
| policy: "compute_policy_digest p = Inr d \<Longrightarrow>
    digested L PolicyDigest (quorum_transcript policy_digest_domain (policy_fields p)) d"
| approval: "approval_digest r = Inr h \<Longrightarrow>
    digested L ApprovalDigest (quorum_transcript approval_digest_domain (request_fields r)) (sha256_prefix @ hex_encode h)"
| approval_id: "digested L ApprovalID
    (quorum_transcript approval_id_domain
      [(''authority_map_digest'', aa_AuthorityMapDigest a), (''principal_digest'', aa_PrincipalDigest a),
       (''credential_digest'', aa_CredentialDigest a), (''authorization_id'', aa_AuthorizationID a),
       (''proof_issuer'', aa_ProofIssuer a), (''proof_id'', aa_ProofID a),
       (''proof_signer_key'', aa_ProofSignerKey a), (''audience'', aa_Audience a),
       (''approval_digest'', aa_ApprovalDigest a)])
    (sha256_prefix @ drop (length ''approval:'') (approval_record_id a))"
| principal: "digested L PrincipalTag (quorum_transcript principal_tag_domain (request_fields r @ [(''value'', v)]))
    (approval_tag principal_tag_domain r v)"
| credential: "digested L CredentialTag (quorum_transcript credential_tag_domain (request_fields r @ [(''value'', v)]))
    (approval_tag credential_tag_domain r v)"
| authorization: "digested L AuthorizationTag
    (quorum_transcript authorization_tag_domain (request_fields r @ [(''value'', v)]))
    (approval_tag authorization_tag_domain r v)"
| proof_context: "digested L RequestContext (request_context h) (sha256_prefix @ request_context_sha256 h)"
| action: "DigestAction L a = Inr d \<Longrightarrow> al_action L (plain_action a) = Some data \<Longrightarrow>
    digested L ActionDigest (''asb.least-privilege.action/v1'' @ char_of (0 :: nat) # data) d"
| mandate: "DigestMandate L m = Inr d \<Longrightarrow>
    al_mandate L (m\<lparr>ma_NotBefore := utc (ma_NotBefore m), ma_ExpiresAt := utc (ma_ExpiresAt m)\<rparr>) = Some data \<Longrightarrow>
    digested L MandateDigest (''asb.least-privilege.mandate/v1'' @ char_of (0 :: nat) # data) d"
| capability: "DigestCapability L c = Inr d \<Longrightarrow> al_capability L c = Some data \<Longrightarrow>
    digested L CapabilityDigest (''asb.least-privilege.evidence/v1'' @ char_of (0 :: nat) # data) d"
| problem: "digest_problem (al_problem L) p = Inr d \<Longrightarrow> normalize_problem p = Inr n \<Longrightarrow> al_problem L n = Some data \<Longrightarrow>
    take 1 data = ''{'' \<Longrightarrow> digested L ProblemDigest data d"

text \<open>A transcript starts with a zero byte, since no profile is longer than 255 bytes; no domain starts with one or with
  a brace.\<close>

definition label :: "bytes \<Rightarrow> string option" where
  "label m = (if m \<noteq> [] \<and> hd m = char_of (0 :: nat) then map_option fst (get_string m)
     else if take 1 m = ''{'' then Some ''{''
     else Some (takeWhile (\<lambda>c. c \<noteq> char_of (0 :: nat)) m))"

lemma label_transcript:
  assumes "transcript p fs = Inr m" and "length p < 256"
  shows "label m = Some p"
proof -
  from assms have m: "m = put_string p @ raws fs" "string_ok p" by (simp_all add: transcript_Inr_iff)
  then have "get_string m = Some (p, raws fs)" by (simp add: string_wire.get_put)
  moreover have "m \<noteq> [] \<and> hd m = char_of (0 :: nat)"
    using assms(2) by (simp add: m put_string_def numeral_2_eq_2)
  ultimately show ?thesis by (simp add: label_def)
qed

lemma label_domain:
  assumes "p \<noteq> []" and "list_all (\<lambda>c. c \<noteq> char_of (0 :: nat)) p" and "hd p \<noteq> CHR ''{''"
  shows "label (p @ char_of (0 :: nat) # r) = Some p"
proof -
  have "takeWhile (\<lambda>c. c \<noteq> char_of (0 :: nat)) (p @ char_of (0 :: nat) # r) = p"
    using assms(2) by (simp add: list_all_iff takeWhile_append2)
  moreover have "hd (p @ char_of (0 :: nat) # r) \<noteq> char_of (0 :: nat)"
    using assms by (cases p) auto
  moreover have "take 1 (p @ char_of (0 :: nat) # r) \<noteq> ''{''" using assms(1,3) by (cases p) auto
  ultimately show ?thesis by (simp add: label_def)
qed

lemmas domain_defs = policy_digest_domain_def approval_digest_domain_def approval_id_domain_def principal_tag_domain_def
  credential_tag_domain_def authorization_tag_domain_def request_context_domain_def

lemma label_quorum:
  "label (quorum_transcript policy_digest_domain fs) = Some policy_digest_domain"
  "label (quorum_transcript approval_digest_domain fs) = Some approval_digest_domain"
  "label (quorum_transcript approval_id_domain fs) = Some approval_id_domain"
  "label (quorum_transcript principal_tag_domain fs) = Some principal_tag_domain"
  "label (quorum_transcript credential_tag_domain fs) = Some credential_tag_domain"
  "label (quorum_transcript authorization_tag_domain fs) = Some authorization_tag_domain"
  "label (quorum_transcript request_context_domain fs) = Some request_context_domain"
  unfolding quorum_transcript_def append_Cons append_Nil
  by (rule label_domain; simp add: domain_defs char_of_def)+

lemma digested_label: "digested L p m d \<Longrightarrow> label m = Some (purpose_label p)"
proof (induction rule: digested.induct)
  case (mutation v d m)
  then have "transcript MutationRequestSchemaV1 (mutation_fields v) = Inr m"
    by (cases "transcript MutationRequestSchemaV1 (mutation_fields v)") (simp_all add: mutation_transcript_eq)
  then show ?case by (simp add: label_transcript MutationRequestSchemaV1_def)
next
  case (acceptance a d m)
  then have "transcript AcceptanceRequestSchemaV1 (acceptance_fields a) = Inr m"
    by (simp add: acceptance_transcript_eq)
  then show ?case by (simp add: label_transcript AcceptanceRequestSchemaV1_def)
next
  case (action a d data)
  show ?case unfolding purpose_label.simps by (rule label_domain) (simp_all add: char_of_def)
next
  case (mandate m d data)
  show ?case unfolding purpose_label.simps by (rule label_domain) (simp_all add: char_of_def)
next
  case (capability c d data)
  show ?case unfolding purpose_label.simps by (rule label_domain) (simp_all add: char_of_def)
next
  case (problem p d n data)
  then have "hd data = CHR ''{''" by (cases data) auto
  then have "hd data \<noteq> char_of (0 :: nat)" by (simp add: char_of_def)
  with problem show ?case by (simp add: label_def)
qed (simp_all add: label_quorum request_context_def)

lemma digested_text: "digested L p m d \<Longrightarrow> d = sha256_text m"
  by (induction rule: digested.induct)
    (auto simp: mutation_request_digest_def acceptance_request_digest_def compute_policy_digest_def approval_digest_def
      sha256_text_def approval_tag_def approval_record_id_def request_context_sha256_def DigestAction_def DigestMandate_def DigestCapability_def digest_value_def
      digest_problem_def compile_problem_def Let_def
      and_then_Inr_iff split: if_splits)

lemma purpose_label_inj: "purpose_label p = purpose_label q \<Longrightarrow> p = q"
  by (cases p; cases q; simp add: domain_defs MutationRequestSchemaV1_def AcceptanceRequestSchemaV1_def)

end
