(* ===== verification/Spec2Isabelle.thy ===== *)
theory Spec2Isabelle
  imports Action_Properties Task_Properties Task_Dependency Quorum_Properties Journal_Properties Capability_Properties
    EA_Properties Agent_Machine Digest_Domains
begin

text \<open>
  \<^bold>\<open>The program.\<close> \<^verbatim>\<open>agents-secure-binding\<close> binds an authorization to one operation of a software agent and keeps
  durable evidence of what became of it. Its core is a set of Go packages without I/O of their own: state machines
  whose transitions return the next snapshot and an audit record, stores that commit such transitions, encodings that
  are hashed or signed, and checks of evidence. An Action is accepted, leased to an executor, run, recovered and
  closed (\<^verbatim>\<open>pkg/actionlifecycle\<close>); Tasks are offered, accepted, delegated and discussed between participants
  (\<^verbatim>\<open>pkg/taskcoord\<close>); several authorities approve a decision (\<^verbatim>\<open>pkg/authorityquorum\<close>); a solver and an independent
  verifier find the cheapest set of grants for an operation, for which a signed capability is issued that is used once
  (\<^verbatim>\<open>pkg/leastprivilege\<close>); a journal on disk makes an operation start at most once
  (\<^verbatim>\<open>pkg/operationjournal\<close>); exported authenticators carry attestation evidence over TLS
  (\<^verbatim>\<open>pkg/atls/ea\<close>, \<^verbatim>\<open>pkg/atls/eaattestation\<close>); and the computation agent steps through its states
  (\<^verbatim>\<open>agent/statemachine\<close>). The packages meet in digests: a request digest of one is what another authorizes.

  \<^bold>\<open>How it is modelled.\<close> One definition per function, method or struct, with the source's name where Isabelle allows it
  and a prefix where two packages use one name. A struct is a record, an enumeration a datatype with one more
  constructor for the values outside it, a w-bit integer a word, a nil-able pointer an option, an error a value of the
  left side of a sum. A method that holds a lock for its whole body is a function of the state; a file is the content
  at its path; time and randomness are arguments, one for each reading. Iteration over a Go map takes the order as an
  argument, and the theorems hold for every order. The conventions are in \<open>ASB_Prelude\<close>.

  \<^bold>\<open>Language and standard library.\<close> \<open>ASB_Prelude\<close> (result type, word lemmas, theorem collections),
  \<open>Go_Time\<close> (\<^verbatim>\<open>time\<close>), \<open>Go_Strings\<close> (\<^verbatim>\<open>unicode/utf8\<close>, \<^verbatim>\<open>strings\<close>, \<^verbatim>\<open>encoding/hex\<close>),
  \<open>Go_Format\<close> (\<^verbatim>\<open>strconv\<close>, RFC 3339 times, binary search), \<open>SHA256\<close> (FIPS 180-4, executable) and
  \<open>Runs\<close>, which holds the contracts of histories: the locales \<open>preserved\<close>, \<open>increasing\<close> and \<open>simulated\<close>, each
  interpreted on the step function of the components below. \<open>Canonical_Transcript\<close> is
  \<^verbatim>\<open>internal/canonicaltranscript\<close>, with the locale \<open>wire_format\<close> for its fields; it shows that the encoder is
  injective on the field lists of a profile.

  \<^bold>\<open>Actions.\<close> \<open>Action_Model\<close>, \<open>Action_Validation\<close> and \<open>Action_Machine\<close> translate \<^verbatim>\<open>model.go\<close>,
  \<^verbatim>\<open>validation.go\<close>, \<^verbatim>\<open>canonical.go\<close>, \<^verbatim>\<open>acceptance_canonical.go\<close> and \<^verbatim>\<open>machine.go\<close>: the snapshot, every
  event handler of \<^verbatim>\<open>Apply\<close>, and the request digests. \<open>Action_Lifecycle\<close> specifies a small machine over phases,
  the executor and unbounded counters, and proves that \<^verbatim>\<open>Apply\<close> is simulated by it. \<open>Action_Progress\<close> says exactly
  when \<^verbatim>\<open>Apply\<close> succeeds. \<open>Action_Histories\<close> and \<open>Action_Properties\<close> draw the consequences: fencing of stale
  executors, unique lease generations, bounded takeovers, outcomes that are decided once, authenticated events, and an
  ending for every Action.

  \<^bold>\<open>Tasks.\<close> \<open>Task_Model\<close>, \<open>Task_Validation\<close>, \<open>Task_Machine\<close> and \<open>Task_Store\<close> translate
  \<^verbatim>\<open>model.go\<close>, \<^verbatim>\<open>assurance.go\<close>, \<^verbatim>\<open>validation.go\<close>, \<^verbatim>\<open>machine.go\<close>, \<^verbatim>\<open>interaction.go\<close>,
  \<^verbatim>\<open>discovery.go\<close>, \<^verbatim>\<open>reachability.go\<close>, \<^verbatim>\<open>store_validation.go\<close> and \<^verbatim>\<open>memory_store.go\<close>.
  \<open>Task_Ledger\<close> refines the store to a ledger of Assignment states, \<open>Task_Audit\<close> and \<open>Task_Interactions\<close> give its
  invariants, \<open>Task_Progress\<close> shows that the store accepts what the machine computes, \<open>Task_Example\<close> is a concrete
  history, \<open>Task_Properties\<close> has the properties. \<open>Task_Dependency\<close> is \<^verbatim>\<open>dependency.go\<close>: the deadlock detector
  returns exactly the Tasks that an inductive definition of progress leaves out.

  \<^bold>\<open>Quorums.\<close> \<open>Quorum_Model\<close> and \<open>Quorum_Store\<close> translate \<^verbatim>\<open>model.go\<close>, \<^verbatim>\<open>validation.go\<close>,
  \<^verbatim>\<open>canonical.go\<close>, \<^verbatim>\<open>approval.go\<close>, \<^verbatim>\<open>memory_store.go\<close> and \<^verbatim>\<open>service.go\<close>. \<open>Quorum_Invariant\<close> ties every
  consumed quorum to approvals of distinct authorities, \<open>Quorum_Progress\<close> says when a quorum is granted,
  \<open>Quorum_Properties\<close> states the guarantees over histories.

  \<^bold>\<open>Least privilege.\<close> \<open>Privilege_Model\<close> translates \<^verbatim>\<open>model.go\<close>, \<^verbatim>\<open>solver.go\<close> and \<^verbatim>\<open>verifier.go\<close>;
  \<open>Privilege_Sets\<close>, \<open>Privilege_Spec\<close> and \<open>Privilege_Evaluate\<close> relate its bit sets to sets of identifiers and the rule
  loop to an inductive closure, \<open>Privilege_Search\<close> treats the two searches, and \<open>Privilege_Properties\<close> shows that
  the solver is optimal and total and that the verifier accepts exactly the optimal solutions. \<open>Capability_Model\<close> and
  \<open>Capability_Properties\<close> are \<^verbatim>\<open>authorization.go\<close> and \<^verbatim>\<open>use_store.go\<close>.

  \<^bold>\<open>Journal.\<close> \<open>Journal_Model\<close> and \<open>Journal_Store\<close> translate \<^verbatim>\<open>journal.go\<close> and \<^verbatim>\<open>file_store.go\<close>; an
  environment decides how far a write got. \<open>Journal_Invariant\<close> and \<open>Journal_Properties\<close> cover all histories, storage
  errors with an unknown outcome included.

  \<^bold>\<open>Exported authenticators.\<close> \<open>EA_Wire\<close> has the message formats, \<open>EA_Attestation\<close> exporters, hashes, signatures and
  the attestation payload, \<open>EA_Model\<close> request extensions, policies, sessions and the two functions of
  \<^verbatim>\<open>authenticator.go\<close>. \<open>EA_Codec\<close> proves the formats canonical through the locales \<open>codec\<close> and \<open>whole_codec\<close>;
  \<open>EA_Properties\<close> has the round trip from creation to validation, replay protection and the attestation binding.

  \<^bold>\<open>Agent.\<close> \<open>Agent_Machine\<close> is \<^verbatim>\<open>agent/statemachine/state.go\<close> as an interleaving of its locked sections.

  \<^bold>\<open>Across the packages.\<close> \<open>Digest_Domains\<close> lists what the packages hash; this theory shows that digests for different
  purposes never stand for each other, and follows a solution of the solver to the one use of its capability.

  \<^bold>\<open>Bounds.\<close> No definition uses fuel. The solver's recursion is on the number of grants left, the verifier's loop on the
  number of selections, the closure loop ends because each pass that changes something sets another bit, the detector's
  sweeps because each removes a candidate; where the recursion is not structural there is a termination proof. Revisions,
  generations, costs and evaluation counters are words of the source's width, and where the source tests for overflow
  the model does.

  \<^bold>\<open>Parameters.\<close> Code outside the repository is an argument: \<^verbatim>\<open>encoding/json\<close> at each type that is stored,
  hashed or signed, \<^verbatim>\<open>net/url\<close>, Ed25519, ECDSA and RSA, SHA-384 and SHA-512, X.509 parsing and verification, ASN.1,
  the TLS exporter, the evidence verifiers. Hypotheses on them are named in each theorem (an encoder that loses
  nothing, a signature that verifies under its own key) and met by a concrete instance in its witness. No theorem
  assumes that SHA-256 is injective: two different texts with one digest are named in the conclusion.

  \<^bold>\<open>Not modelled.\<close> SQLite, Redis and S3 stores, outboxes and their migrations (statements run by an external engine);
  JSON decoding, file permissions and path handling of the stores; the bindings that only unpack signed tokens
  around the modelled checks; HTTP, gRPC and TLS transport, the human relay, AGTP discovery and routing, proxies and
  commands; attestation evidence formats of TDX, SEV-SNP, TPM, Azure and GCP, which are parsed by vendor libraries;
  QEMU, container, Python and WASM runners, CLI and deployment checks. Cancelled contexts are
  modelled where they change what is stored, which is in the journal.
\<close>

text \<open>C10. Digests for different purposes never stand for each other: whatever two operations of the packages
  compute a digest for two different purposes, the texts they hash differ, so the digests are equal only if those
  two texts are a SHA-256 collision. An approval digest is never accepted as a policy digest, a request digest of an
  Action never as the action digest of a mandate, and so on for all thirteen purposes. A problem is hashed
  without a domain; its JSON text is taken to start with a brace, as that of every Go struct does.\<close>

theorem digests_domain_separated:
  assumes "digested L p m d" and "digested L' q n e" and "p \<noteq> q"
  shows "m \<noteq> n \<and> (d = e \<longleftrightarrow> sha256_collision m n)"
proof -
  have "m \<noteq> n" using digested_label [OF assms(1)] digested_label [OF assms(2)] purpose_label_inj assms(3) by auto
  then show ?thesis
    using digested_text [OF assms(1)] digested_text [OF assms(2)] sha256_text_inj [of m n]
    by (auto simp: sha256_collision_def sha256_text_def)
qed

theorem digests_domain_separated_witness:
  "\<exists>m d n e. digested cx_lib AcceptanceRequest m d \<and> digested cx_lib PolicyDigest n e \<and> m \<noteq> n"
proof -
  obtain m where m: "acceptance_request_transcript ex_definition = Inr m"
    using ex_digest by (auto simp: acceptance_digest_Inr)
  have a: "digested cx_lib AcceptanceRequest m (au_MutationDigest ex_auth)" by (rule digested.acceptance [OF ex_digest m])
  obtain e where "compute_policy_digest qx_definition = Inr e"
    using qx_definition_valid [of "vp_PolicyDigest qx_definition"] by (simp add: compute_policy_digest_def)
  then have p: "digested cx_lib PolicyDigest (quorum_transcript policy_digest_domain (policy_fields qx_definition)) e"
    by (rule digested.policy)
  from digests_domain_separated [OF a p] a p show ?thesis by blast
qed



end
